(* ===== verification/Prelude.thy ===== *)
theory Prelude
  imports Main "HOL-Library.Word" "HOL-Library.Code_Target_Nat"
begin

text \<open>
  Shared vocabulary of the development.

  A JavaScript string is a sequence of UTF-16 code units (ECMA-262, "The String Type"), so it is
  modelled as a list of \<open>16 word\<close>; \<open>s.length\<close> is the length of that list. An octet of a Node
  \<open>Buffer\<close> or \<open>Uint8Array\<close> is an \<open>8 word\<close>. A value whose static type is \<open>unknown\<close>, or that the
  code tests with \<open>typeof\<close>, is a \<open>js_value\<close>; a JavaScript number is a \<open>js_number\<close>, which keeps apart
  the integers (on which the code computes) and everything \<open>Number.isInteger\<close> refuses.

  The named collections gather the rewrite rules that carry the proofs of the components:
  \<open>js_simps\<close> (strings and encodings), \<open>store_simps\<close> (the store contract), \<open>engine_defs\<close> (the
  definitions of the engine's operations).
\<close>

named_theorems js_simps \<open>rewrite rules for JavaScript strings and encodings\<close>
named_theorems store_simps \<open>rewrite rules for the store contract\<close>
named_theorems engine_defs \<open>definitions of the engine's operations\<close>

type_synonym cu = "16 word"
type_synonym jsstring = "cu list"
type_synonym byte = "8 word"
type_synonym bytes = "byte list"

text \<open>A string literal of the source, written as an ASCII literal of the logic.\<close>

definition js :: "string \<Rightarrow> jsstring" where
  "js s = map of_char s"

datatype js_value = JString jsstring | JNonString

datatype js_number = JInteger int | JNonInteger

fun isInteger :: "js_number \<Rightarrow> bool" where
  "isInteger (JInteger _) = True"
| "isInteger JNonInteger = False"

text \<open>
  \<open>crypto.randomBytes(n)\<close>: the entropy source is an unbounded sequence of octets; a draw takes the
  next \<open>n\<close> of them and leaves the rest.
\<close>

type_synonym entropy = "nat \<Rightarrow> byte"

definition randomBytes :: "nat \<Rightarrow> entropy \<Rightarrow> bytes \<times> entropy" where
  "randomBytes n \<rho> = (map \<rho> [0..<n], (\<lambda>i. \<rho> (i + n)))"

lemma length_randomBytes [simp]: "length (fst (randomBytes n \<rho>)) = n"
  by (simp add: randomBytes_def)

text \<open>\<open>s.split(c)\<close> for a one-character separator: always at least one part, empty parts kept.\<close>

fun split_on :: "'a \<Rightarrow> 'a list \<Rightarrow> 'a list list" where
  "split_on c [] = [[]]"
| "split_on c (x # xs) =
     (if x = c then [] # split_on c xs
      else case split_on c xs of [] \<Rightarrow> [[x]] | p # ps \<Rightarrow> (x # p) # ps)"

text \<open>\<open>parts.join(c)\<close>.\<close>

fun join_with :: "'a list \<Rightarrow> 'a list list \<Rightarrow> 'a list" where
  "join_with sep [] = []"
| "join_with sep [p] = p"
| "join_with sep (p # q # ps) = p @ sep @ join_with sep (q # ps)"

lemma split_on_not_Nil [simp]: "split_on c s \<noteq> []"
  by (induction s) (auto split: list.split)

lemma split_on_not_in: "c \<notin> set s \<Longrightarrow> split_on c s = [s]"
  by (induction s) auto

lemma split_on_append:
  "c \<notin> set p \<Longrightarrow> split_on c (p @ c # s) = p # split_on c s"
  by (induction p) auto

lemma split_on_parts: "p \<in> set (split_on c s) \<Longrightarrow> c \<notin> set p"
  by (induction s arbitrary: p) (force split: if_splits list.splits)+

lemma join_with_Cons: "ps \<noteq> [] \<Longrightarrow> join_with sep (p # ps) = p @ sep @ join_with sep ps"
  by (cases ps) auto

lemma join_split [simp]: "join_with [c] (split_on c s) = s"
proof (induction s)
  case (Cons x s)
  obtain p ps where ps: "split_on c s = p # ps"
    using split_on_not_Nil by (metis list.exhaust)
  show ?case
  proof (cases "x = c")
    case True
    with Cons show ?thesis by (simp add: join_with_Cons)
  next
    case False
    with ps Cons show ?thesis by (cases ps) auto
  qed
qed simp

lemma split_join:
  "\<forall>p \<in> set ps. c \<notin> set p \<Longrightarrow> ps \<noteq> [] \<Longrightarrow> split_on c (join_with [c] ps) = ps"
proof (induction ps)
  case (Cons p ps)
  then show ?case
    by (cases ps) (auto simp: split_on_not_in split_on_append)
qed simp

text \<open>Words that are numerals below the modulus compare like natural numbers.\<close>

lemma cu_le_nat: "a \<le> b \<longleftrightarrow> unat a \<le> unat (b :: 'a :: len word)"
  by (rule word_le_nat_alt)

lemma cu_less_nat: "a < b \<longleftrightarrow> unat a < unat (b :: 'a :: len word)"
  by (rule word_less_nat_alt)

lemma word_interval_nat:
  "lo \<le> c \<and> c \<le> hi \<longleftrightarrow> unat c \<in> {unat lo .. unat (hi :: 'a :: len word)}"
  by (simp add: word_le_nat_alt)

text \<open>A property of every octet can be checked by running through the 256 of them.\<close>

lemma byte_all: "(\<forall>b :: byte. P b) \<longleftrightarrow> (\<forall>n < 256. P (of_nat n))"
proof
  assume *: "\<forall>n < 256. P (of_nat n)"
  show "\<forall>b :: byte. P b"
  proof
    fix b :: byte
    have "unat b < 256" using unsigned_less [of b, where ?'a = nat] by simp
    with * have "P (of_nat (unat b))" by blast
    then show "P b" by simp
  qed
qed simp

declare option.map_ident [simp]

text \<open>Updating the entries of an association list that satisfy a predicate, keys kept.\<close>

definition upd_where :: "('k \<Rightarrow> 'v \<Rightarrow> bool) \<Rightarrow> ('v \<Rightarrow> 'v) \<Rightarrow> ('k \<times> 'v) list \<Rightarrow> ('k \<times> 'v) list" where
  "upd_where P f = map (\<lambda>(k, v). (k, if P k v then f v else v))"

lemma map_fst_upd_where [simp]: "map fst (upd_where P f xs) = map fst xs"
  by (induction xs) (auto simp: upd_where_def)

lemma map_of_upd_where [simp]:
  "map_of (upd_where P f xs) k = map_option (\<lambda>v. if P k v then f v else v) (map_of xs k)"
  by (induction xs) (auto simp: upd_where_def)

lemma upd_where_append [simp]: "upd_where P f (xs @ ys) = upd_where P f xs @ upd_where P f ys"
  by (simp add: upd_where_def)

lemma upd_where_id: "(\<And>k v. (k, v) \<in> set xs \<Longrightarrow> \<not> P k v) \<Longrightarrow> upd_where P f xs = xs"
  by (induction xs) (auto simp: upd_where_def)

text \<open>
  In an association list with distinct keys, the number of entries with a property is the
  cardinality of the set of keys whose value has it.
\<close>

lemma length_filter_map_of:
  "distinct (map fst xs) \<Longrightarrow>
    length (filter (\<lambda>(k, v). P v) xs) = card {k. \<exists>v. map_of xs k = Some v \<and> P v}"
proof (induction xs)
  case (Cons kv xs)
  obtain k v where kv: "kv = (k, v)" by (cases kv)
  let ?A = "{l. \<exists>u. map_of xs l = Some u \<and> P u}"
  from Cons.prems kv have k: "map_of xs k = None" and d: "distinct (map fst xs)"
    by (auto simp: map_of_eq_None_iff)
  have fin: "finite ?A"
    by (rule finite_subset [of _ "dom (map_of xs)"]) (auto simp: finite_dom_map_of)
  have "{l. \<exists>u. map_of (kv # xs) l = Some u \<and> P u} = (if P v then insert k ?A else ?A)"
    using k kv by (auto split: if_splits)
  moreover have "k \<notin> ?A" using k by simp
  ultimately show ?case using Cons.IH [OF d] fin kv by simp
qed simp

lemma map_of_filter_value:
  "distinct (map fst rows) \<Longrightarrow> map_of (filter (\<lambda>(k, r). P r) rows) s =
    (case map_of rows s of None \<Rightarrow> None | Some r \<Rightarrow> if P r then Some r else None)"
  by (induction rows) (auto split: option.splits dest: map_of_SomeD simp: rev_image_eqI weak_map_of_SomeI)

end
