(* ===== verification/Encoding.thy ===== *)
theory Encoding
  imports Prelude
begin

text \<open>
  The part of Node's \<open>Buffer\<close> and of ECMAScript strings that \<open>packages/typescript/src/index.ts\<close>
  computes with: code points and unpaired surrogates, the UTF-8 encoding
  (\<open>Buffer.from(s, 'utf8')\<close>, \<open>Buffer.byteLength\<close>), lowercase hex and unpadded base64url
  (\<open>toString\<close> and \<open>Buffer.from\<close>). The lemmas are the round trips, the lengths and the alphabets
  the wire format rests on.
\<close>

section \<open>Code points and UTF-8\<close>

definition is_high_surrogate :: "cu \<Rightarrow> bool" where
  "is_high_surrogate c \<longleftrightarrow> 0xD800 \<le> unat c \<and> unat c \<le> 0xDBFF"

definition is_low_surrogate :: "cu \<Rightarrow> bool" where
  "is_low_surrogate c \<longleftrightarrow> 0xDC00 \<le> unat c \<and> unat c \<le> 0xDFFF"

definition surrogate :: "nat \<Rightarrow> bool" where
  "surrogate n \<longleftrightarrow> 0xD800 \<le> n \<and> n \<le> 0xDFFF"

text \<open>The code points of a string, as iteration with the \<open>u\<close> flag sees them.\<close>

fun codepoints :: "jsstring \<Rightarrow> nat list" where
  "codepoints [] = []"
| "codepoints [c] = [unat c]"
| "codepoints (h # l # s) =
     (if is_high_surrogate h \<and> is_low_surrogate l
      then (0x10000 + (unat h - 0xD800) * 0x400 + (unat l - 0xDC00)) # codepoints s
      else unat h # codepoints (l # s))"

text \<open>\<open>/\p{Surrogate}/u\<close> matches exactly a code point that is a lone surrogate.\<close>

definition isWellFormedUnicode :: "jsstring \<Rightarrow> bool" where
  "isWellFormedUnicode s \<longleftrightarrow> \<not> list_ex surrogate (codepoints s)"

text \<open>One code point in UTF-8; a lone surrogate is written as U+FFFD, as Node does.\<close>

definition utf8_of :: "nat \<Rightarrow> bytes" where
  "utf8_of n =
     (if surrogate n then [0xEF, 0xBF, 0xBD]
      else if n < 0x80 then [of_nat n]
      else if n < 0x800 then [of_nat (0xC0 + n div 64), of_nat (0x80 + n mod 64)]
      else if n < 0x10000 then
        [of_nat (0xE0 + n div 4096), of_nat (0x80 + n div 64 mod 64), of_nat (0x80 + n mod 64)]
      else
        [of_nat (0xF0 + n div 262144), of_nat (0x80 + n div 4096 mod 64),
         of_nat (0x80 + n div 64 mod 64), of_nat (0x80 + n mod 64)])"

definition utf8 :: "jsstring \<Rightarrow> bytes" where
  "utf8 s = concat (map utf8_of (codepoints s))"

definition byteLength :: "jsstring \<Rightarrow> nat" where
  "byteLength s = length (utf8 s)"

definition is_ascii :: "cu \<Rightarrow> bool" where
  "is_ascii c \<longleftrightarrow> unat c < 0x80"

lemma codepoints_ascii: "list_all is_ascii s \<Longrightarrow> codepoints s = map unat s"
  by (induction s rule: codepoints.induct)
     (auto simp: is_ascii_def is_high_surrogate_def)

lemma utf8_ascii: "list_all is_ascii s \<Longrightarrow> utf8 s = map ucast s"
proof (induction s)
  case (Cons c s)
  then have "utf8_of (unat c) = [ucast c]"
    by (simp add: utf8_of_def surrogate_def is_ascii_def)
  with Cons show ?case
    by (simp add: utf8_def codepoints_ascii)
qed (simp add: utf8_def)

lemma byteLength_ascii [js_simps]: "list_all is_ascii s \<Longrightarrow> byteLength s = length s"
  by (simp add: byteLength_def utf8_ascii)

lemma isWellFormedUnicode_ascii [js_simps]: "list_all is_ascii s \<Longrightarrow> isWellFormedUnicode s"
  by (auto simp: isWellFormedUnicode_def codepoints_ascii list_ex_iff list_all_iff is_ascii_def
      surrogate_def)

lemma length_utf8_of: "1 \<le> length (utf8_of n) \<and> length (utf8_of n) \<le> 4"
  by (simp add: utf8_of_def)

lemma length_codepoints: "length (codepoints s) \<le> length s"
  by (induction s rule: codepoints.induct) auto

text \<open>Byte length never undercounts the code points, so the byte bound is the stricter one.\<close>

lemma byteLength_ge_codepoints: "length (codepoints s) \<le> byteLength s"
proof -
  have "length xs \<le> length (concat (map utf8_of xs))" for xs
  proof (induction xs)
    case (Cons x xs)
    then show ?case using length_utf8_of [of x] by simp
  qed simp
  then show ?thesis by (simp add: byteLength_def utf8_def)
qed

section \<open>Hexadecimal\<close>

definition hex_digit :: "nat \<Rightarrow> cu" where
  "hex_digit n = of_nat (if n < 10 then 48 + n else 87 + n)"

definition toHex :: "bytes \<Rightarrow> jsstring" where
  "toHex bs = concat (map (\<lambda>b. [hex_digit (unat b div 16), hex_digit (unat b mod 16)]) bs)"

text \<open>
  \<open>Buffer.from(s, 'hex')\<close> reads pairs of digits of either case and stops at the first pair that is
  not one.
\<close>

definition hex_val :: "cu \<Rightarrow> nat option" where
  "hex_val c =
     (let n = unat c in
      if 48 \<le> n \<and> n \<le> 57 then Some (n - 48)
      else if 97 \<le> n \<and> n \<le> 102 then Some (n - 87)
      else if 65 \<le> n \<and> n \<le> 70 then Some (n - 55)
      else None)"

fun fromHex :: "jsstring \<Rightarrow> bytes" where
  "fromHex (a # b # s) =
     (case (hex_val a, hex_val b) of
        (Some x, Some y) \<Rightarrow> of_nat (16 * x + y) # fromHex s
      | _ \<Rightarrow> [])"
| "fromHex _ = []"

definition is_lower_hex :: "cu \<Rightarrow> bool" where
  "is_lower_hex c \<longleftrightarrow> (48 \<le> unat c \<and> unat c \<le> 57) \<or> (97 \<le> unat c \<and> unat c \<le> 102)"

lemma unat_of_nat_cu: "n < 65536 \<Longrightarrow> unat (of_nat n :: cu) = n"
  by (simp add: unat_of_nat)

lemma unat_of_nat_byte: "n < 256 \<Longrightarrow> unat (of_nat n :: byte) = n"
  by (simp add: unat_of_nat)

lemma unat_byte_less: "unat (b :: byte) < 256"
  using unsigned_less [of b, where ?'a = nat] by simp

lemma unat_hex_digit: "n < 16 \<Longrightarrow> unat (hex_digit n) = (if n < 10 then 48 + n else 87 + n)"
  unfolding hex_digit_def by (subst unat_of_nat_cu) auto

lemma hex_val_digit: "n < 16 \<Longrightarrow> hex_val (hex_digit n) = Some n"
  by (auto simp: hex_val_def unat_hex_digit)

lemma is_lower_hex_digit: "n < 16 \<Longrightarrow> is_lower_hex (hex_digit n)"
  by (auto simp: is_lower_hex_def unat_hex_digit)

lemma hex_digit_val: "is_lower_hex c \<Longrightarrow> hex_val c = Some n \<Longrightarrow> hex_digit n = c \<and> n < 16"
  by (auto simp: is_lower_hex_def hex_val_def hex_digit_def Let_def split: if_splits)

lemma hex_val_lower: "is_lower_hex c \<Longrightarrow> \<exists>n. hex_val c = Some n"
  by (auto simp: is_lower_hex_def hex_val_def Let_def)

lemma length_toHex [simp]: "length (toHex bs) = 2 * length bs"
  by (induction bs) (auto simp: toHex_def)

lemma toHex_lower: "list_all is_lower_hex (toHex bs)"
  using unat_byte_less
  by (induction bs) (auto simp: toHex_def intro!: is_lower_hex_digit simp: less_mult_imp_div_less)

lemma fromHex_toHex [js_simps]: "fromHex (toHex bs) = bs"
proof (induction bs)
  case (Cons b bs)
  have "unat b div 16 < 16" using unat_byte_less [of b] by simp
  then have "fromHex (toHex (b # bs)) = of_nat (16 * (unat b div 16) + unat b mod 16) # fromHex (toHex bs)"
    by (simp add: toHex_def hex_val_digit del: of_nat_add of_nat_mult mult_div_mod_eq)
  also have "16 * (unat b div 16) + unat b mod 16 = unat b" by simp
  finally show ?case using Cons by simp
qed (simp add: toHex_def)

text \<open>On lowercase digits of even length decoding loses nothing: it can be undone.\<close>

lemma toHex_Cons:
  "toHex (b # bs) = hex_digit (unat b div 16) # hex_digit (unat b mod 16) # toHex bs"
  by (simp add: toHex_def)

lemma toHex_fromHex:
  "list_all is_lower_hex s \<Longrightarrow> even (length s) \<Longrightarrow> toHex (fromHex s) = s"
proof (induction s rule: fromHex.induct)
  case (1 a b s)
  from 1(2) obtain x y where x: "hex_val a = Some x" and y: "hex_val b = Some y"
    using hex_val_lower by fastforce
  with 1(2) have xy: "hex_digit x = a" "hex_digit y = b" "x < 16" "y < 16"
    using hex_digit_val by auto
  then have "unat (of_nat (16 * x + y) :: byte) = 16 * x + y"
    by (intro unat_of_nat_byte) simp
  moreover have "toHex (fromHex s) = s" using 1 x y by simp
  ultimately show ?case using xy x y
    by (simp add: toHex_Cons del: of_nat_add of_nat_mult)
qed (auto simp: toHex_def)

lemma fromHex_inject:
  "list_all is_lower_hex s \<Longrightarrow> list_all is_lower_hex t \<Longrightarrow> even (length s) \<Longrightarrow> even (length t) \<Longrightarrow>
    fromHex s = fromHex t \<longleftrightarrow> s = t"
  by (metis toHex_fromHex)

section \<open>Unpadded base64url\<close>

definition b64_char :: "nat \<Rightarrow> cu" where
  "b64_char n = of_nat (if n < 26 then 65 + n else if n < 52 then 71 + n
     else if n < 62 then n - 4 else if n = 62 then 45 else 95)"

text \<open>Node's decoder reads both base64 alphabets and skips every other character.\<close>

definition b64_val :: "cu \<Rightarrow> nat option" where
  "b64_val c =
     (let n = unat c in
      if 65 \<le> n \<and> n \<le> 90 then Some (n - 65)
      else if 97 \<le> n \<and> n \<le> 122 then Some (n - 71)
      else if 48 \<le> n \<and> n \<le> 57 then Some (n + 4)
      else if n = 45 \<or> n = 43 then Some 62
      else if n = 95 \<or> n = 47 then Some 63
      else None)"

text \<open>The six-bit groups of a byte sequence, the last one padded with zero bits.\<close>

fun bytes_to_sextets :: "bytes \<Rightarrow> nat list" where
  "bytes_to_sextets [] = []"
| "bytes_to_sextets [a] = [unat a div 4, unat a mod 4 * 16]"
| "bytes_to_sextets [a, b] =
     [unat a div 4, unat a mod 4 * 16 + unat b div 16, unat b mod 16 * 4]"
| "bytes_to_sextets (a # b # c # bs) =
     unat a div 4 # (unat a mod 4 * 16 + unat b div 16) # (unat b mod 16 * 4 + unat c div 64) #
     unat c mod 64 # bytes_to_sextets bs"

definition toBase64url :: "bytes \<Rightarrow> jsstring" where
  "toBase64url bs = map b64_char (bytes_to_sextets bs)"

fun sextets_to_bytes :: "nat list \<Rightarrow> bytes" where
  "sextets_to_bytes (p # q # r # s # xs) =
     of_nat (p * 4 + q div 16) # of_nat (q mod 16 * 16 + r div 4) # of_nat (r mod 4 * 64 + s) #
     sextets_to_bytes xs"
| "sextets_to_bytes [p, q, r] = [of_nat (p * 4 + q div 16), of_nat (q mod 16 * 16 + r div 4)]"
| "sextets_to_bytes [p, q] = [of_nat (p * 4 + q div 16)]"
| "sextets_to_bytes _ = []"

definition fromBase64url :: "jsstring \<Rightarrow> bytes" where
  "fromBase64url s = sextets_to_bytes (List.map_filter b64_val s)"

definition is_b64url :: "cu \<Rightarrow> bool" where
  "is_b64url c \<longleftrightarrow>
     (65 \<le> unat c \<and> unat c \<le> 90) \<or> (97 \<le> unat c \<and> unat c \<le> 122) \<or>
     (48 \<le> unat c \<and> unat c \<le> 57) \<or> unat c = 95 \<or> unat c = 45"

lemma is_b64url_ascii: "is_b64url c \<Longrightarrow> is_ascii c"
  by (auto simp: is_b64url_def is_ascii_def)

lemma list_b64url_ascii: "list_all is_b64url s \<Longrightarrow> list_all is_ascii s"
  by (auto simp: list_all_iff is_b64url_ascii)

lemma unat_b64_char:
  "n < 64 \<Longrightarrow> unat (b64_char n) = (if n < 26 then 65 + n else if n < 52 then 71 + n
     else if n < 62 then n - 4 else if n = 62 then 45 else 95)"
  unfolding b64_char_def by (subst unat_of_nat_cu) auto

lemma b64_val_char [simp]: "n < 64 \<Longrightarrow> b64_val (b64_char n) = Some n"
  by (auto simp: b64_val_def unat_b64_char Let_def)

lemma is_b64url_char [simp]: "n < 64 \<Longrightarrow> is_b64url (b64_char n)"
  by (auto simp: is_b64url_def unat_b64_char)

lemma b64_char_val:
  assumes "is_b64url c"
  shows "\<exists>n < 64. b64_val c = Some n \<and> b64_char n = c"
proof -
  from assms obtain n where n: "b64_val c = Some n" "n < 64"
    by (auto simp: is_b64url_def b64_val_def Let_def)
  with assms have "unat (b64_char n) = unat c"
    by (auto simp: unat_b64_char is_b64url_def b64_val_def Let_def split: if_splits)
  then have "b64_char n = c" by (simp add: word_unat_eq_iff)
  with n show ?thesis by blast
qed

lemma b64_char_inject: "m < 64 \<Longrightarrow> n < 64 \<Longrightarrow> b64_char m = b64_char n \<longleftrightarrow> m = n"
  by (metis b64_val_char option.inject)

text \<open>Encoding: length, alphabet, and decoding it back.\<close>

lemma bytes_to_sextets_less: "x \<in> set (bytes_to_sextets bs) \<Longrightarrow> x < 64"
proof (induction bs rule: bytes_to_sextets.induct)
  case (2 a)
  then show ?case using unat_byte_less [of a] by auto
next
  case (3 a b)
  then show ?case using unat_byte_less [of a] unat_byte_less [of b] by auto
next
  case (4 a b c bs)
  then show ?case using unat_byte_less [of a] unat_byte_less [of b] unat_byte_less [of c] by auto
qed simp

lemma length_bytes_to_sextets: "length (bytes_to_sextets bs) = (4 * length bs + 2) div 3"
  by (induction bs rule: bytes_to_sextets.induct) auto

lemma length_toBase64url [js_simps]: "length (toBase64url bs) = (4 * length bs + 2) div 3"
  by (simp add: toBase64url_def length_bytes_to_sextets)

lemma toBase64url_alphabet: "list_all is_b64url (toBase64url bs)"
  by (auto simp: toBase64url_def list_all_iff bytes_to_sextets_less)

lemma map_filter_b64_val:
  "\<forall>x \<in> set xs. x < 64 \<Longrightarrow> List.map_filter b64_val (map b64_char xs) = xs"
  by (induction xs) (auto simp: List.map_filter_simps)

lemma of_nat_unat_byte: "n = unat b \<Longrightarrow> of_nat n = (b :: byte)"
  by simp

lemma sextets_to_bytes_inverse: "sextets_to_bytes (bytes_to_sextets bs) = bs"
proof (induction bs rule: bytes_to_sextets.induct)
  case (2 a)
  have "unat a div 4 * 4 + unat a mod 4 * 16 div 16 = unat a" by simp
  then show ?case by (simp add: of_nat_unat_byte del: of_nat_add of_nat_mult)
next
  case (3 a b)
  have "unat a div 4 * 4 + (unat a mod 4 * 16 + unat b div 16) div 16 = unat a"
    "(unat a mod 4 * 16 + unat b div 16) mod 16 * 16 + unat b mod 16 * 4 div 4 = unat b"
    using unat_byte_less [of a] unat_byte_less [of b] by auto
  then show ?case by (simp only: bytes_to_sextets.simps sextets_to_bytes.simps of_nat_unat_byte)
next
  case (4 a b c bs)
  have "unat a div 4 * 4 + (unat a mod 4 * 16 + unat b div 16) div 16 = unat a"
    "(unat a mod 4 * 16 + unat b div 16) mod 16 * 16 + (unat b mod 16 * 4 + unat c div 64) div 4
      = unat b"
    "(unat b mod 16 * 4 + unat c div 64) mod 4 * 64 + unat c mod 64 = unat c"
    using unat_byte_less [of a] unat_byte_less [of b] unat_byte_less [of c] by auto
  with 4 show ?case by (simp only: bytes_to_sextets.simps sextets_to_bytes.simps of_nat_unat_byte)
qed simp

lemma fromBase64url_toBase64url [js_simps]: "fromBase64url (toBase64url bs) = bs"
  by (simp add: fromBase64url_def toBase64url_def map_filter_b64_val bytes_to_sextets_less
      sextets_to_bytes_inverse)

lemma toBase64url_inject: "toBase64url a = toBase64url b \<longleftrightarrow> a = b"
  by (metis fromBase64url_toBase64url)

text \<open>
  Decoding a string over the alphabet: its length is fixed by the length of the string, and the
  encoding is recovered exactly when the unused trailing bits are zero.
\<close>

lemma length_sextets_to_bytes: "length (sextets_to_bytes xs) = 3 * length xs div 4"
  by (induction xs rule: sextets_to_bytes.induct) auto

lemma alphabet_sextets:
  "list_all is_b64url s \<Longrightarrow> \<exists>xs. s = map b64_char xs \<and> (\<forall>x \<in> set xs. x < 64)"
proof (induction s)
  case (Cons c s)
  then obtain xs n where "s = map b64_char xs" "\<forall>x \<in> set xs. x < 64" "n < 64" "b64_char n = c"
    using b64_char_val by fastforce
  then show ?case by (intro exI [of _ "n # xs"]) auto
qed simp

lemma length_fromBase64url:
  assumes "list_all is_b64url s"
  shows "length (fromBase64url s) = 3 * length s div 4"
proof -
  obtain xs where "s = map b64_char xs" "\<forall>x \<in> set xs. x < 64"
    using alphabet_sextets [OF assms] by blast
  then show ?thesis
    by (simp add: fromBase64url_def map_filter_b64_val length_sextets_to_bytes)
qed

lemma bytes_to_sextets_group:
  assumes "p < 64" "q < 64" "r < 64" "s < 64"
  shows "bytes_to_sextets (of_nat (p * 4 + q div 16) # of_nat (q mod 16 * 16 + r div 4) #
      of_nat (r mod 4 * 64 + s) # bs) = p # q # r # s # bytes_to_sextets bs"
proof -
  have "unat (of_nat (p * 4 + q div 16) :: byte) = p * 4 + q div 16"
    "unat (of_nat (q mod 16 * 16 + r div 4) :: byte) = q mod 16 * 16 + r div 4"
    "unat (of_nat (r mod 4 * 64 + s) :: byte) = r mod 4 * 64 + s"
    using assms by (intro unat_of_nat_byte; linarith)+
  then show ?thesis using assms
    by (simp del: of_nat_add of_nat_mult)
qed

lemma sextets_canonical:
  assumes "\<forall>x \<in> set xs. x < 64" "length xs mod 4 = 3"
  shows "bytes_to_sextets (sextets_to_bytes xs) = xs \<longleftrightarrow> last xs mod 4 = 0"
  using assms
proof (induction xs rule: sextets_to_bytes.induct)
  case (1 p q r s xs)
  then have "xs \<noteq> []" by auto
  with 1 show ?case
    by (simp add: bytes_to_sextets_group del: of_nat_add of_nat_mult bytes_to_sextets.simps)
next
  case (2 p q r)
  then have "unat (of_nat (p * 4 + q div 16) :: byte) = p * 4 + q div 16"
    "unat (of_nat (q mod 16 * 16 + r div 4) :: byte) = q mod 16 * 16 + r div 4"
    by (intro unat_of_nat_byte; simp; linarith)+
  moreover have "(q mod 16 * 16 + r div 4) mod 16 * 4 = r \<longleftrightarrow> r mod 4 = 0"
    "(p * 4 + q div 16) mod 4 * 16 + (q mod 16 * 16 + r div 4) div 16 = q"
    "(p * 4 + q div 16) div 4 = p"
    using 2 by auto presburger+
  ultimately show ?case
    by (simp only: sextets_to_bytes.simps bytes_to_sextets.simps list.inject last.simps
        list.distinct simp_thms if_False if_True)
qed auto

end
