(* ===== verification/Regex.thy ===== *)
theory Regex
  imports Prelude
begin

text \<open>
  The regular expressions of ECMA-262 that the sources write, with their backtracking semantics.

  A matcher of the standard takes a state and a continuation and returns the first way of
  continuing that succeeds. Here \<open>rmatch r st\<close> is the list of all end states of \<open>r\<close> from \<open>st\<close>, in
  the order in which backtracking tries them, so the standard's answer is the first element of the
  list. A state is the input consumed so far (reversed), the input that is left, and the captures,
  most recent first. Repetition follows the standard's RepeatMatcher: an iteration that consumes
  nothing is abandoned, which also makes \<open>length\<close> of the input a sufficient bound for the number of
  iterations (\<open>rmatch_RStar\<close> is the unbounded recursion equation).

  Supported: character classes, sequence, alternation, greedy and lazy repetition, capturing groups,
  look-ahead, \<open>^\<close>, \<open>$\<close> (with and without the \<open>m\<close> flag) and \<open>\b\<close>. \<open>exec\<close>, \<open>test\<close>, \<open>matchAll\<close> and the
  global \<open>replace\<close> are defined on top of it.
\<close>

section \<open>Patterns and matching\<close>

datatype regex =
    REps
  | RChar "cu \<Rightarrow> bool"
  | RSeq regex regex
  | RAlt regex regex
  | RStar bool regex \<comment> \<open>\<open>True\<close>: greedy, \<open>False\<close>: lazy\<close>
  | RGroup nat regex
  | RLook regex
  | RBol bool \<comment> \<open>\<open>True\<close>: with the \<open>m\<close> flag\<close>
  | REol bool
  | RWordBoundary

type_synonym captures = "(nat \<times> jsstring) list"
type_synonym mstate = "jsstring \<times> jsstring \<times> captures"

definition is_digit :: "cu \<Rightarrow> bool" where
  "is_digit c \<longleftrightarrow> 48 \<le> c \<and> c \<le> 57"

definition is_word_char :: "cu \<Rightarrow> bool" where
  "is_word_char c \<longleftrightarrow>
     (97 \<le> c \<and> c \<le> 122) \<or> (65 \<le> c \<and> c \<le> 90) \<or> (48 \<le> c \<and> c \<le> 57) \<or> c = 95"

text \<open>White space and line terminators of ECMA-262, the class \<open>\s\<close>.\<close>

definition is_line_term :: "cu \<Rightarrow> bool" where
  "is_line_term c \<longleftrightarrow> c = 10 \<or> c = 13 \<or> c = 0x2028 \<or> c = 0x2029"

definition is_space :: "cu \<Rightarrow> bool" where
  "is_space c \<longleftrightarrow>
     (9 \<le> c \<and> c \<le> 13) \<or> c = 32 \<or> c = 0xA0 \<or> c = 0x1680 \<or> (0x2000 \<le> c \<and> c \<le> 0x200A) \<or>
     c = 0x2028 \<or> c = 0x2029 \<or> c = 0x202F \<or> c = 0x205F \<or> c = 0x3000 \<or> c = 0xFEFF"

fun head_is :: "(cu \<Rightarrow> bool) \<Rightarrow> jsstring \<Rightarrow> bool" where
  "head_is P [] = False"
| "head_is P (c # _) = P c"

text \<open>
  Repetition of a matcher \<open>m\<close>, at most \<open>n\<close> times: every iteration has to shorten the remaining
  input.
\<close>

fun repeat_match :: "bool \<Rightarrow> (mstate \<Rightarrow> mstate list) \<Rightarrow> nat \<Rightarrow> mstate \<Rightarrow> mstate list" where
  "repeat_match g m 0 st = [st]"
| "repeat_match g m (Suc n) st =
     (let more = concat (map (repeat_match g m n)
                   (filter (\<lambda>st'. length (fst (snd st')) < length (fst (snd st))) (m st)))
      in if g then more @ [st] else st # more)"

primrec rmatch :: "regex \<Rightarrow> mstate \<Rightarrow> mstate list" where
  "rmatch REps st = [st]"
| "rmatch (RChar P) st =
     (case st of (b, [], cs) \<Rightarrow> []
      | (b, x # a, cs) \<Rightarrow> if P x then [(x # b, a, cs)] else [])"
| "rmatch (RSeq r q) st = concat (map (rmatch q) (rmatch r st))"
| "rmatch (RAlt r q) st = rmatch r st @ rmatch q st"
| "rmatch (RStar g r) st = repeat_match g (rmatch r) (length (fst (snd st))) st"
| "rmatch (RGroup n r) st =
     map (\<lambda>(b, a, cs). (b, a, (n, rev (take (length b - length (fst st)) b)) # cs)) (rmatch r st)"
| "rmatch (RLook r) st =
     (case rmatch r st of [] \<Rightarrow> [] | (_, _, cs) # _ \<Rightarrow> [(fst st, fst (snd st), cs)])"
| "rmatch (RBol m) st =
     (if fst st = [] \<or> (m \<and> head_is is_line_term (fst st)) then [st] else [])"
| "rmatch (REol m) st =
     (if fst (snd st) = [] \<or> (m \<and> head_is is_line_term (fst (snd st))) then [st] else [])"
| "rmatch RWordBoundary st =
     (if head_is is_word_char (fst st) \<noteq> head_is is_word_char (fst (snd st)) then [st] else [])"

section \<open>Derived forms\<close>

definition RPlus :: "bool \<Rightarrow> regex \<Rightarrow> regex" where
  "RPlus g r = RSeq r (RStar g r)"

definition ROpt :: "regex \<Rightarrow> regex" where
  "ROpt r = RAlt r REps"

fun RTimes :: "nat \<Rightarrow> regex \<Rightarrow> regex" where
  "RTimes 0 r = REps"
| "RTimes (Suc n) r = RSeq r (RTimes n r)"

fun RLit :: "jsstring \<Rightarrow> regex" where
  "RLit [] = REps"
| "RLit (c # cs) = RSeq (RChar (\<lambda>x. x = c)) (RLit cs)"

fun RSeqs :: "regex list \<Rightarrow> regex" where
  "RSeqs [] = REps"
| "RSeqs [r] = r"
| "RSeqs (r # q # rs) = RSeq r (RSeqs (q # rs))"

definition one_of :: "string \<Rightarrow> cu \<Rightarrow> bool" where
  "one_of s c \<longleftrightarrow> List.member (js s) c"

definition RAny :: regex where
  "RAny = RChar (\<lambda>_. True)"

text \<open>The dot: any code unit but a line terminator.\<close>

definition RDot :: regex where
  "RDot = RChar (\<lambda>c. \<not> is_line_term c)"

definition RSpaces :: regex where
  "RSpaces = RStar True (RChar is_space)"

section \<open>The methods of \<open>RegExp\<close> and \<open>String\<close>\<close>

text \<open>The successful match at the first start position: the input before it, and the end state.\<close>

fun search_from :: "regex \<Rightarrow> jsstring \<Rightarrow> jsstring \<Rightarrow> (jsstring \<times> mstate) option" where
  "search_from r b [] = (case rmatch r (b, [], []) of [] \<Rightarrow> None | st # _ \<Rightarrow> Some (b, st))"
| "search_from r b (x # a) =
     (case rmatch r (b, x # a, []) of
        [] \<Rightarrow> search_from r (x # b) a
      | st # _ \<Rightarrow> Some (b, st))"

record match_result =
  m_index :: nat
  m_text :: jsstring
  m_groups :: captures

definition match_of :: "jsstring \<times> mstate \<Rightarrow> match_result" where
  "match_of h = (case h of (b0, b, a, cs) \<Rightarrow>
     \<lparr> m_index = length b0, m_text = rev (take (length b - length b0) b), m_groups = cs \<rparr>)"

definition exec :: "regex \<Rightarrow> jsstring \<Rightarrow> match_result option" where
  "exec r s = map_option match_of (search_from r [] s)"

definition test :: "regex \<Rightarrow> jsstring \<Rightarrow> bool" where
  "test r s \<longleftrightarrow> search_from r [] s \<noteq> None"

text \<open>\<open>m[n]\<close>, and \<open>s.match(r)?.[n]\<close>.\<close>

definition group :: "match_result \<Rightarrow> nat \<Rightarrow> jsstring option" where
  "group m n = map_of (m_groups m) n"

definition match_group :: "regex \<Rightarrow> jsstring \<Rightarrow> nat \<Rightarrow> jsstring option" where
  "match_group r s n = (case exec r s of None \<Rightarrow> None | Some m \<Rightarrow> group m n)"

text \<open>
  \<open>s.matchAll(r)\<close> with the \<open>g\<close> flag: continue at the end of the match, one code unit further when the
  match was empty. The first argument bounds the number of matches; each consumes a code unit or
  skips one, so the length of the input plus one is enough.
\<close>

fun match_all_from :: "nat \<Rightarrow> regex \<Rightarrow> jsstring \<Rightarrow> jsstring \<Rightarrow> (jsstring \<times> mstate) list" where
  "match_all_from 0 r b a = []"
| "match_all_from (Suc n) r b a =
     (case search_from r b a of
        None \<Rightarrow> []
      | Some (b0, b', a', cs) \<Rightarrow>
          (b0, b', a', cs) #
          (if length b' = length b0
           then (case a' of [] \<Rightarrow> [] | x # a'' \<Rightarrow> match_all_from n r (x # b') a'')
           else match_all_from n r b' a'))"

definition matchAll :: "regex \<Rightarrow> jsstring \<Rightarrow> match_result list" where
  "matchAll r s = map match_of (match_all_from (Suc (length s)) r [] s)"

text \<open>\<open>s.replace(r, f)\<close> with the \<open>g\<close> flag, and without it (\<open>replaceFirst\<close>).\<close>

fun replace_between :: "(match_result \<Rightarrow> jsstring) \<Rightarrow> nat \<Rightarrow> jsstring \<Rightarrow> match_result list \<Rightarrow> jsstring" where
  "replace_between f i s [] = s"
| "replace_between f i s (m # ms) =
     take (m_index m - i) s @ f m @
     replace_between f (m_index m + length (m_text m))
       (drop (m_index m + length (m_text m) - i) s) ms"

definition replaceAll :: "regex \<Rightarrow> (match_result \<Rightarrow> jsstring) \<Rightarrow> jsstring \<Rightarrow> jsstring" where
  "replaceAll r f s = replace_between f 0 s (matchAll r s)"

definition replaceFirst :: "regex \<Rightarrow> (match_result \<Rightarrow> jsstring) \<Rightarrow> jsstring \<Rightarrow> jsstring" where
  "replaceFirst r f s =
     (case exec r s of None \<Rightarrow> s | Some m \<Rightarrow> replace_between f 0 s [m])"

text \<open>\<open>s.trim()\<close>.\<close>

definition trim_start :: "jsstring \<Rightarrow> jsstring" where
  "trim_start s = dropWhile is_space s"

definition trim :: "jsstring \<Rightarrow> jsstring" where
  "trim s = rev (trim_start (rev (trim_start s)))"

section \<open>Laws of the matcher\<close>

text \<open>A match consumes a prefix of the input: the end state is determined by that prefix.\<close>

definition consumes :: "mstate \<Rightarrow> mstate \<Rightarrow> bool" where
  "consumes st st' \<longleftrightarrow>
     (\<exists>w. fst (snd st) = w @ fst (snd st') \<and> fst st' = rev w @ fst st)"

lemma consumes_refl: "fst st' = fst st \<Longrightarrow> fst (snd st') = fst (snd st) \<Longrightarrow> consumes st st'"
  by (simp add: consumes_def)

lemma consumes_trans: "consumes st st' \<Longrightarrow> consumes st' st'' \<Longrightarrow> consumes st st''"
proof -
  assume "consumes st st'" "consumes st' st''"
  then obtain v w where
    "fst (snd st) = v @ fst (snd st')" "fst st' = rev v @ fst st"
    "fst (snd st') = w @ fst (snd st'')" "fst st'' = rev w @ fst st'"
    by (auto simp: consumes_def)
  then show ?thesis unfolding consumes_def by (intro exI [of _ "v @ w"]) simp
qed

lemma repeat_match_consumes:
  assumes "\<And>st st'. st' \<in> set (m st) \<Longrightarrow> consumes st st'"
  shows "st' \<in> set (repeat_match g m n st) \<Longrightarrow> consumes st st'"
proof (induction n arbitrary: st)
  case 0
  then show ?case by (simp add: consumes_refl)
next
  case (Suc n)
  then consider "st' = st" | u where "u \<in> set (m st)" "st' \<in> set (repeat_match g m n u)"
    by (auto simp: Let_def split: if_splits)
  then show ?case
    by cases (simp_all add: consumes_refl, blast intro: consumes_trans assms Suc.IH)
qed

lemma rmatch_consumes: "st' \<in> set (rmatch r st) \<Longrightarrow> consumes st st'"
proof (induction r arbitrary: st st')
  case (RChar P)
  then show ?case by (auto simp: consumes_def split: prod.splits list.splits if_splits)
next
  case (RSeq r q)
  then obtain u where "u \<in> set (rmatch r st)" "st' \<in> set (rmatch q u)"
    by (auto simp del: split_paired_Ex)
  with RSeq.IH show ?case by (blast intro: consumes_trans)
next
  case (RStar g r)
  from RStar.prems show ?case
    by (simp, elim repeat_match_consumes [rotated]) (rule RStar.IH)
next
  case (RGroup n r)
  from RGroup.prems obtain u where "u \<in> set (rmatch r st)" "fst st' = fst u"
    "fst (snd st') = fst (snd u)"
    by (auto split: prod.splits)
  with RGroup.IH [of u st] show ?case by (simp add: consumes_def)
next
  case (RLook r)
  then show ?case by (auto simp: consumes_def split: list.splits)
qed (auto simp: consumes_refl split: if_splits)

lemma rmatch_length:
  "st' \<in> set (rmatch r st) \<Longrightarrow> length (fst (snd st')) \<le> length (fst (snd st))"
  by (auto dest!: rmatch_consumes simp: consumes_def)

text \<open>The bound on the number of iterations is never reached: any larger one gives the same list.\<close>

lemma repeat_match_enough:
  "length (fst (snd st)) \<le> n \<Longrightarrow>
    repeat_match g m n st = repeat_match g m (length (fst (snd st))) st"
proof (induction n arbitrary: st rule: less_induct)
  case (less n)
  show ?case
  proof (cases "length (fst (snd st))")
    case 0
    then show ?thesis by (cases n) auto
  next
    case (Suc k)
    with less.prems obtain n' where n: "n = Suc n'" by (cases n) auto
    have "repeat_match g m n' st' = repeat_match g m k st'"
      if "length (fst (snd st')) < length (fst (snd st))" for st'
    proof -
      from that Suc less.prems n
      have "length (fst (snd st')) \<le> n'" "length (fst (snd st')) \<le> k" "n' < n" "k < n" by auto
      then show ?thesis using less.IH [of n' st'] less.IH [of k st'] by simp
    qed
    then have "map (repeat_match g m n') (filter (\<lambda>st'. length (fst (snd st')) < length (fst (snd st))) (m st))
      = map (repeat_match g m k) (filter (\<lambda>st'. length (fst (snd st')) < length (fst (snd st))) (m st))"
      by (intro map_cong) auto
    then show ?thesis using n Suc by (simp add: Let_def del: map_eq_conv)
  qed
qed

lemma rmatch_RStar:
  "rmatch (RStar g r) st =
     (let more = concat (map (rmatch (RStar g r))
                   (filter (\<lambda>st'. length (fst (snd st')) < length (fst (snd st))) (rmatch r st)))
      in if g then more @ [st] else st # more)"
proof (cases "length (fst (snd st))")
  case 0
  then show ?thesis by simp
next
  case (Suc k)
  then have "repeat_match g (rmatch r) k st' = rmatch (RStar g r) st'"
    if "length (fst (snd st')) < length (fst (snd st))" for st'
    using that repeat_match_enough [of st' k g "rmatch r"] by simp
  then have "map (repeat_match g (rmatch r) k) (filter (\<lambda>st'. length (fst (snd st')) < length (fst (snd st))) (rmatch r st))
    = map (rmatch (RStar g r)) (filter (\<lambda>st'. length (fst (snd st')) < length (fst (snd st))) (rmatch r st))"
    by (intro map_cong) auto
  then show ?thesis unfolding Suc rmatch.simps(5) [of g r st] repeat_match.simps
    by (simp only:)
qed

text \<open>Repeating and counting a character class.\<close>

lemma set_rmatch_RStar_RChar:
  "st' \<in> set (rmatch (RStar g (RChar P)) (b, a, cs)) \<longleftrightarrow>
    (\<exists>w a'. a = w @ a' \<and> list_all P w \<and> st' = (rev w @ b, a', cs))"
proof (induction a arbitrary: b)
  case Nil
  then show ?case by simp
next
  case (Cons x a)
  have "st' \<in> set (rmatch (RStar g (RChar P)) (b, x # a, cs)) \<longleftrightarrow>
      st' = (b, x # a, cs) \<or> (P x \<and> st' \<in> set (rmatch (RStar g (RChar P)) (x # b, a, cs)))"
    by (subst rmatch_RStar) (auto simp: Let_def simp del: rmatch.simps(5))
  also have "\<dots> \<longleftrightarrow> (\<exists>w a'. x # a = w @ a' \<and> list_all P w \<and> st' = (rev w @ b, a', cs))"
    unfolding Cons by (auto simp: Cons_eq_append_conv)
  finally show ?case .
qed

lemma rmatch_RTimes_RChar:
  "rmatch (RTimes n (RChar P)) (b, a, cs) =
    (if n \<le> length a \<and> list_all P (take n a) then [(rev (take n a) @ b, drop n a, cs)] else [])"
proof (induction n arbitrary: a b)
  case (Suc n)
  then show ?case by (cases a) auto
qed simp

text \<open>A pattern that starts with \<open>^\<close> can only match at the start of the input.\<close>

lemma search_from_anchored:
  "b \<noteq> [] \<Longrightarrow> search_from (RSeq (RBol False) r) b a = None"
  by (induction a arbitrary: b) auto

lemma test_anchored: "test (RSeq (RBol False) r) s \<longleftrightarrow> rmatch r ([], s, []) \<noteq> []"
  by (cases s) (auto simp: test_def search_from_anchored split: list.splits)

lemma test_class_plus:
  "test (RSeqs [RBol False, RPlus g (RChar P), REol False]) s \<longleftrightarrow> s \<noteq> [] \<and> list_all P s"
proof -
  have "rmatch (RSeq (RPlus g (RChar P)) (REol False)) ([], s, []) \<noteq> [] \<longleftrightarrow>
      (\<exists>st \<in> set (rmatch (RPlus g (RChar P)) ([], s, [])). fst (snd st) = [])"
    by (auto simp: concat_eq_Nil_conv simp del: rmatch.simps(5))
  also have "\<dots> \<longleftrightarrow> s \<noteq> [] \<and> list_all P s"
  proof (cases s)
    case Nil
    then show ?thesis by (simp add: RPlus_def)
  next
    case (Cons x a)
    have "(\<exists>st \<in> set (rmatch (RPlus g (RChar P)) ([], s, [])). fst (snd st) = []) \<longleftrightarrow>
        P x \<and> (\<exists>st \<in> set (rmatch (RStar g (RChar P)) ([x], a, [])). fst (snd st) = [])"
      using Cons by (auto simp: RPlus_def simp del: rmatch.simps(5))
    also have "\<dots> \<longleftrightarrow> P x \<and> list_all P a"
      unfolding Bex_def set_rmatch_RStar_RChar by auto
    finally show ?thesis using Cons by simp
  qed
  finally show ?thesis by (simp add: test_anchored)
qed

lemma test_class_times:
  "test (RSeqs [RBol False, RTimes n (RChar P), REol False]) s \<longleftrightarrow> length s = n \<and> list_all P s"
  by (simp add: test_anchored rmatch_RTimes_RChar) auto

text \<open>Matching a literal, and searching for a pattern that may match anywhere.\<close>

lemma rmatch_RLit:
  "rmatch (RLit l) (b, a, cs) =
    (if take (length l) a = l then [(rev l @ b, drop (length l) a, cs)] else [])"
proof (induction l arbitrary: a b)
  case (Cons c l)
  then show ?case by (cases a) auto
qed simp

lemma search_from_iff:
  "search_from r b a \<noteq> None \<longleftrightarrow> (\<exists>u v. a = u @ v \<and> rmatch r (rev u @ b, v, []) \<noteq> [])"
proof (induction a arbitrary: b)
  case Nil
  then show ?case by (auto split: list.splits)
next
  case (Cons x a)
  let ?P = "\<lambda>u v. rmatch r (rev u @ b, v, []) \<noteq> []"
  have "(\<exists>u v. x # a = u @ v \<and> ?P u v) \<longleftrightarrow> ?P [] (x # a) \<or> (\<exists>u v. a = u @ v \<and> ?P (x # u) v)"
    (is "?L = ?R")
  proof
    assume ?L
    then obtain u v where "x # a = u @ v" "?P u v" by blast
    then show ?R by (cases u) auto
  next
    assume ?R
    then show ?L by (metis append_Cons append_Nil)
  qed
  then show ?case using Cons.IH [of "x # b"] by (auto split: list.splits)
qed

lemma test_iff: "test r s \<longleftrightarrow> (\<exists>u v. s = u @ v \<and> rmatch r (rev u, v, []) \<noteq> [])"
  unfolding test_def search_from_iff by simp

text \<open>The result of \<open>exec\<close> is the first match at some position of the input.\<close>

lemma search_from_SomeD:
  "search_from r b a = Some (b0, st) \<Longrightarrow>
    \<exists>u v. a = u @ v \<and> b0 = rev u @ b \<and> (\<exists>sts. rmatch r (b0, v, []) = st # sts)"
proof (induction a arbitrary: b)
  case Nil
  then show ?case by (auto split: list.splits)
next
  case (Cons x a)
  show ?case
  proof (cases "rmatch r (b, x # a, [])")
    case Nil
    with Cons.prems have "search_from r (x # b) a = Some (b0, st)" by simp
    then obtain u v where "a = u @ v" "b0 = rev u @ x # b" "\<exists>sts. rmatch r (b0, v, []) = st # sts"
      using Cons.IH by blast
    then show ?thesis by (intro exI [of _ "x # u"] exI [of _ v]) auto
  next
    case (Cons st' sts)
    with Cons.prems show ?thesis by (intro exI [of _ "[]"] exI [of _ "x # a"]) auto
  qed
qed

text \<open>What a match and the text before it consist of is in the input.\<close>

lemma search_from_parts:
  assumes "search_from r b a = Some (b0, b', a', cs)"
  shows "rev b' @ a' = rev b @ a"
proof -
  from search_from_SomeD [OF assms] obtain u v sts where
    uv: "a = u @ v" "b0 = rev u @ b" "rmatch r (b0, v, []) = (b', a', cs) # sts" by blast
  then have "consumes (b0, v, []) (b', a', cs)" by (intro rmatch_consumes [where r = r]) simp
  then show ?thesis using uv(1,2) by (auto simp: consumes_def)
qed

lemma match_all_from_parts:
  "(b0, b', a', cs) \<in> set (match_all_from n r b a) \<Longrightarrow> rev b' @ a' = rev b @ a"
proof (induction n arbitrary: b a)
  case (Suc n)
  show ?case
  proof (cases "search_from r b a")
    case (Some h)
    obtain d0 d e ds where h: "h = (d0, d, e, ds)" by (metis prod_cases4)
    have de: "rev d @ e = rev b @ a" using search_from_parts Some h by blast
    consider "(b0, b', a', cs) = h" | x e' where "e = x # e'" "(b0, b', a', cs) \<in> set (match_all_from n r (x # d) e')"
      | "(b0, b', a', cs) \<in> set (match_all_from n r d e)"
      using Suc.prems Some h by (auto split: if_splits list.splits)
    then show ?thesis
    proof cases
      case 1
      then show ?thesis using h de by simp
    next
      case 2
      then show ?thesis using Suc.IH [OF 2(2)] de by simp
    next
      case 3
      then show ?thesis using Suc.IH [OF 3] de by simp
    qed
  qed (use Suc.prems in simp)
qed simp

lemma set_matchAll: "m \<in> set (matchAll r s) \<Longrightarrow> set (m_text m) \<subseteq> set s"
proof -
  assume "m \<in> set (matchAll r s)"
  then have "m \<in> match_of ` set (match_all_from (Suc (length s)) r [] s)" by (simp only: matchAll_def set_map)
  then obtain h where "h \<in> set (match_all_from (Suc (length s)) r [] s)" "m = match_of h" by (rule imageE)
  moreover obtain b0 b a cs where "h = (b0, b, a, cs)" by (metis prod_cases4)
  ultimately have h: "(b0, b, a, cs) \<in> set (match_all_from (Suc (length s)) r [] s)"
    and m: "m = match_of (b0, b, a, cs)" by blast+
  have "rev b @ a = s" using match_all_from_parts [OF h] by simp
  then have "set b \<subseteq> set s" by auto
  then show ?thesis using m set_take_subset [of "length b - length b0" b] by (auto simp: match_of_def)
qed

section \<open>Captures\<close>

text \<open>Captures are only added, and a group every match passes through is set by a match.\<close>

primrec always_captures :: "nat \<Rightarrow> regex \<Rightarrow> bool" where
  "always_captures n REps = False"
| "always_captures n (RChar P) = False"
| "always_captures n (RSeq r q) = (always_captures n r \<or> always_captures n q)"
| "always_captures n (RAlt r q) = (always_captures n r \<and> always_captures n q)"
| "always_captures n (RStar g r) = False"
| "always_captures n (RGroup k r) = (k = n \<or> always_captures n r)"
| "always_captures n (RLook r) = always_captures n r"
| "always_captures n (RBol m) = False"
| "always_captures n (REol m) = False"
| "always_captures n RWordBoundary = False"

lemma repeat_match_captures:
  assumes "\<And>st st'. st' \<in> set (m st) \<Longrightarrow> set (snd (snd st)) \<subseteq> set (snd (snd st'))"
  shows "st' \<in> set (repeat_match g m n st) \<Longrightarrow> set (snd (snd st)) \<subseteq> set (snd (snd st'))"
proof (induction n arbitrary: st)
  case (Suc n)
  then consider "st' = st" | u where "u \<in> set (m st)" "st' \<in> set (repeat_match g m n u)"
    by (auto simp: Let_def split: if_splits)
  then show ?case
  proof cases
    case 2
    then show ?thesis using assms [of u st] Suc.IH [of u] by blast
  qed simp
qed simp

lemma rmatch_captures:
  "st' \<in> set (rmatch r st) \<Longrightarrow>
    set (snd (snd st)) \<subseteq> set (snd (snd st')) \<and>
    (always_captures n r \<longrightarrow> n \<in> fst ` set (snd (snd st')))"
proof (induction r arbitrary: st st')
  case (RChar P)
  then show ?case by (auto split: prod.splits list.splits if_splits)
next
  case (RSeq r q)
  then obtain u where u: "u \<in> set (rmatch r st)" "st' \<in> set (rmatch q u)"
    by (auto simp del: split_paired_Ex)
  have "set (snd (snd st)) \<subseteq> set (snd (snd u))" "set (snd (snd u)) \<subseteq> set (snd (snd st'))"
    "always_captures n r \<longrightarrow> n \<in> fst ` set (snd (snd u))"
    "always_captures n q \<longrightarrow> n \<in> fst ` set (snd (snd st'))"
    using RSeq.IH(1) [OF u(1)] RSeq.IH(2) [OF u(2)] by blast+
  then show ?case unfolding always_captures.simps by blast
next
  case (RAlt r q)
  from RAlt.prems consider "st' \<in> set (rmatch r st)" | "st' \<in> set (rmatch q st)" by auto
  then show ?case
  proof cases
    case 1
    from RAlt.IH(1) [OF 1] show ?thesis by simp
  next
    case 2
    from RAlt.IH(2) [OF 2] show ?thesis by simp
  qed
next
  case (RStar g r)
  from RStar.prems have "set (snd (snd st)) \<subseteq> set (snd (snd st'))"
    unfolding rmatch.simps(5) by (elim repeat_match_captures [rotated]) (use RStar.IH in blast)
  then show ?case by simp
next
  case (RGroup k r)
  from RGroup.prems obtain u w where u: "u \<in> set (rmatch r st)" "snd (snd st') = (k, w) # snd (snd u)"
    by (auto split: prod.splits)
  show ?case using RGroup.IH [OF u(1)] u(2) by auto
next
  case (RLook r)
  from RLook.prems obtain u us where u: "rmatch r st = u # us" "snd (snd st') = snd (snd u)"
    by (cases "rmatch r st") (auto split: prod.splits)
  from u(1) have "u \<in> set (rmatch r st)" by simp
  from RLook.IH [OF this] u(2) show ?case by simp
qed (auto split: if_splits)

lemma exec_group:
  assumes "exec r s = Some m" "always_captures n r"
  obtains w where "group m n = Some w"
proof -
  from assms(1) obtain b0 b a cs where h: "search_from r [] s = Some (b0, b, a, cs)"
    and m: "m = match_of (b0, b, a, cs)"
    by (auto simp: exec_def)
  from search_from_SomeD [OF h] obtain v sts where "rmatch r (b0, v, []) = (b, a, cs) # sts" by blast
  then have "(b, a, cs) \<in> set (rmatch r (b0, v, []))" by simp
  from rmatch_captures [OF this, of n] assms(2) have "n \<in> fst ` set cs" by simp
  then obtain w where "map_of cs n = Some w" by (metis map_of_eq_None_iff option.exhaust)
  then show ?thesis using that m by (simp add: group_def match_of_def)
qed

text \<open>A pattern without groups leaves the captures alone; a group around one records what it consumed.\<close>

primrec no_groups :: "regex \<Rightarrow> bool" where
  "no_groups REps = True"
| "no_groups (RChar P) = True"
| "no_groups (RSeq r q) = (no_groups r \<and> no_groups q)"
| "no_groups (RAlt r q) = (no_groups r \<and> no_groups q)"
| "no_groups (RStar g r) = no_groups r"
| "no_groups (RGroup k r) = False"
| "no_groups (RLook r) = no_groups r"
| "no_groups (RBol m) = True"
| "no_groups (REol m) = True"
| "no_groups RWordBoundary = True"

lemma no_groups_RLit [simp]: "no_groups (RLit l)"
  by (induction l) auto

lemma repeat_match_no_groups:
  assumes "\<And>st st'. st' \<in> set (m st) \<Longrightarrow> snd (snd st') = snd (snd st)"
  shows "st' \<in> set (repeat_match g m n st) \<Longrightarrow> snd (snd st') = snd (snd st)"
proof (induction n arbitrary: st)
  case (Suc n)
  then consider "st' = st" | u where "u \<in> set (m st)" "st' \<in> set (repeat_match g m n u)"
    by (auto simp: Let_def split: if_splits)
  then show ?case
  proof cases
    case 2
    then show ?thesis using assms [of u st] Suc.IH [of u] by simp
  qed simp
qed simp

lemma rmatch_no_groups:
  "st' \<in> set (rmatch r st) \<Longrightarrow> no_groups r \<Longrightarrow> snd (snd st') = snd (snd st)"
proof (induction r arbitrary: st st')
  case (RChar P)
  then show ?case by (auto split: prod.splits list.splits if_splits)
next
  case (RSeq r q)
  then obtain u where u: "u \<in> set (rmatch r st)" "st' \<in> set (rmatch q u)"
    by (auto simp del: split_paired_Ex)
  have "no_groups r" "no_groups q" using RSeq.prems(2) by simp_all
  then show ?case using RSeq.IH(1) [OF u(1)] RSeq.IH(2) [OF u(2)] by simp
next
  case (RAlt r q)
  from RAlt.prems consider "st' \<in> set (rmatch r st)" | "st' \<in> set (rmatch q st)" by auto
  then show ?case
    by cases (use RAlt.prems(2) in \<open>simp_all add: RAlt.IH(1) RAlt.IH(2)\<close>)
next
  case (RStar g r)
  from RStar.prems(1) show ?case
    unfolding rmatch.simps(5) by (elim repeat_match_no_groups [rotated]) (use RStar in simp)
next
  case (RLook r)
  from RLook.prems obtain u us where u: "rmatch r st = u # us" "snd (snd st') = snd (snd u)"
    by (cases "rmatch r st") (auto split: prod.splits)
  from u(1) have "u \<in> set (rmatch r st)" by simp
  from RLook.IH [OF this] u(2) RLook.prems(2) show ?case by simp
qed (auto split: if_splits)

lemma rmatch_group_consumes:
  assumes "st \<in> set (rmatch (RGroup n r) (b, a, cs))" "no_groups r"
  obtains w a' where "a = w @ a'" "st = (rev w @ b, a', (n, w) # cs)"
proof -
  from assms(1) obtain b' a' cs' where u: "(b', a', cs') \<in> set (rmatch r (b, a, cs))"
    and st: "st = (b', a', (n, rev (take (length b' - length b) b')) # cs')"
    by auto
  from rmatch_consumes [OF u] obtain w where "a = w @ a'" "b' = rev w @ b" by (auto simp: consumes_def)
  moreover have "cs' = cs" using rmatch_no_groups [OF u assms(2)] by simp
  ultimately show ?thesis using that st by simp
qed

end
