(* ===== verification/Sha256.thy ===== *)
theory Sha256
  imports Prelude
begin

unbundle bit_operations_syntax

text \<open>
  \<open>crypto.createHmac('sha256', key).update(message).digest()\<close> of Node's standard library: SHA-256 as
  FIPS 180-4 defines it and HMAC as RFC 2104 defines it, on 32-bit words with wrap-around addition.
  The rest of the development uses one fact of it, the length of a digest, and that it is a
  function of key and message.
\<close>

type_synonym u32 = "32 word"
type_synonym sha_state = "u32 \<times> u32 \<times> u32 \<times> u32 \<times> u32 \<times> u32 \<times> u32 \<times> u32"

definition rotr :: "nat \<Rightarrow> u32 \<Rightarrow> u32" where
  "rotr n x = drop_bit n x OR push_bit (32 - n) x"

definition sha_Ch :: "u32 \<Rightarrow> u32 \<Rightarrow> u32 \<Rightarrow> u32" where
  "sha_Ch x y z = (x AND y) XOR (NOT x AND z)"

definition sha_Maj :: "u32 \<Rightarrow> u32 \<Rightarrow> u32 \<Rightarrow> u32" where
  "sha_Maj x y z = (x AND y) XOR (x AND z) XOR (y AND z)"

definition big_sigma0 :: "u32 \<Rightarrow> u32" where
  "big_sigma0 x = rotr 2 x XOR rotr 13 x XOR rotr 22 x"

definition big_sigma1 :: "u32 \<Rightarrow> u32" where
  "big_sigma1 x = rotr 6 x XOR rotr 11 x XOR rotr 25 x"

definition small_sigma0 :: "u32 \<Rightarrow> u32" where
  "small_sigma0 x = rotr 7 x XOR rotr 18 x XOR drop_bit 3 x"

definition small_sigma1 :: "u32 \<Rightarrow> u32" where
  "small_sigma1 x = rotr 17 x XOR rotr 19 x XOR drop_bit 10 x"

text \<open>
  The round constants are the first 32 bits of the fractional parts of the cube roots of the first
  64 primes, the initial state those of the square roots of the first eight: FIPS 180-4, 4.2.2 and
  5.3.3. \<open>root_bits\<close> finds the integer part of a \<open>k\<close>-th root bit by bit.
\<close>

fun root_bits :: "nat \<Rightarrow> nat \<Rightarrow> nat \<Rightarrow> nat \<Rightarrow> nat" where
  "root_bits k n 0 r = r"
| "root_bits k n (Suc b) r = root_bits k n b (if (r + 2 ^ b) ^ k \<le> n then r + 2 ^ b else r)"

definition sha_primes :: "nat list" where
  "sha_primes = filter (\<lambda>p. list_all (\<lambda>d. p mod d \<noteq> 0) [2..<p]) [2..<312]"

definition root_fraction :: "nat \<Rightarrow> nat \<Rightarrow> u32" where
  "root_fraction k p = of_nat (root_bits k (p * 2 ^ (32 * k)) 40 0)"

definition sha_K :: "u32 list" where
  "sha_K = map (root_fraction 3) sha_primes"

definition sha_H0 :: sha_state where
  "sha_H0 = (root_fraction 2 2, root_fraction 2 3, root_fraction 2 5, root_fraction 2 7,
             root_fraction 2 11, root_fraction 2 13, root_fraction 2 17, root_fraction 2 19)"

fun sha_rounds :: "u32 list \<Rightarrow> u32 list \<Rightarrow> sha_state \<Rightarrow> sha_state" where
  "sha_rounds (k # ks) (w # ws) (a, b, c, d, e, f, g, h) =
     (let t1 = h + big_sigma1 e + sha_Ch e f g + k + w;
          t2 = big_sigma0 a + sha_Maj a b c
      in sha_rounds ks ws (t1 + t2, a, b, c, d + t1, e, f, g))"
| "sha_rounds _ _ st = st"

text \<open>The message schedule; the window holds the last sixteen words, the oldest first.\<close>

fun sha_expand :: "nat \<Rightarrow> u32 list \<Rightarrow> u32 list" where
  "sha_expand 0 win = []"
| "sha_expand (Suc n) win =
     (let w = small_sigma1 (win ! 14) + win ! 9 + small_sigma0 (win ! 1) + win ! 0
      in w # sha_expand n (tl win @ [w]))"

fun be_words :: "bytes \<Rightarrow> u32 list" where
  "be_words (a # b # c # d # bs) =
     (push_bit 24 (ucast a) OR push_bit 16 (ucast b) OR push_bit 8 (ucast c) OR ucast d) #
     be_words bs"
| "be_words _ = []"

definition be_bytes :: "u32 \<Rightarrow> bytes" where
  "be_bytes w = [ucast (drop_bit 24 w), ucast (drop_bit 16 w), ucast (drop_bit 8 w), ucast w]"

definition sha_compress :: "sha_state \<Rightarrow> bytes \<Rightarrow> sha_state" where
  "sha_compress st blk =
     (let m = be_words blk in
      case st of (a, b, c, d, e, f, g, h) \<Rightarrow>
      case sha_rounds sha_K (m @ sha_expand 48 m) st of (a', b', c', d', e', f', g', h') \<Rightarrow>
        (a + a', b + b', c + c', d + d', e + e', f + f', g + g', h + h'))"

text \<open>Padding to a multiple of 64 octets: a one bit, zeros, the bit length in 64 bits.\<close>

definition sha_pad :: "bytes \<Rightarrow> bytes" where
  "sha_pad m =
     m @ 0x80 # replicate ((119 - length m mod 64) mod 64) 0 @
     be_bytes (of_nat (8 * length m div 2 ^ 32)) @ be_bytes (of_nat (8 * length m))"

function sha_blocks :: "sha_state \<Rightarrow> bytes \<Rightarrow> sha_state" where
  "sha_blocks st bs =
     (if length bs < 64 then st else sha_blocks (sha_compress st (take 64 bs)) (drop 64 bs))"
  by pat_completeness auto
termination
  by (relation "measure (length \<circ> snd)") auto

definition sha256 :: "bytes \<Rightarrow> bytes" where
  "sha256 m = (case sha_blocks sha_H0 (sha_pad m) of (a, b, c, d, e, f, g, h) \<Rightarrow>
     concat (map be_bytes [a, b, c, d, e, f, g, h]))"

definition hmac_sha256 :: "bytes \<Rightarrow> bytes \<Rightarrow> bytes" where
  "hmac_sha256 key m =
     (let k0 = (if 64 < length key then sha256 key else key);
          k = k0 @ replicate (64 - length k0) 0
      in sha256 (map (\<lambda>b. b XOR 0x5c) k @ sha256 (map (\<lambda>b. b XOR 0x36) k @ m)))"

declare sha_blocks.simps [simp del]

lemma length_sha256 [simp]: "length (sha256 m) = 32"
  by (simp add: sha256_def be_bytes_def split: prod.split)

lemma length_hmac_sha256 [simp]: "length (hmac_sha256 key m) = 32"
  by (simp add: hmac_sha256_def Let_def)

text \<open>The padded message is a whole number of blocks.\<close>

lemma length_sha_pad: "length (sha_pad m) mod 64 = 0"
proof -
  have "length (sha_pad m) = length m + (119 - length m mod 64) mod 64 + 9"
    by (simp add: sha_pad_def be_bytes_def)
  also have "\<dots> mod 64 = (length m mod 64 + (119 - length m mod 64) mod 64 + 9) mod 64"
    by (metis mod_add_left_eq)
  also have "\<dots> = 0"
  proof (cases "length m mod 64 \<le> 55")
    case True
    then have "(119 - length m mod 64) mod 64 = 55 - length m mod 64"
      by (simp add: le_mod_geq)
    with True show ?thesis by simp
  next
    case False
    moreover have "length m mod 64 < 64" by simp
    ultimately have "length m mod 64 + (119 - length m mod 64) mod 64 + 9 = 128" by simp
    then show ?thesis by simp
  qed
  finally show ?thesis .
qed

end
