(* ===== verification/Wire_Token.thy ===== *)
theory Wire_Token
  imports Encoding Regex Sha256
begin

text \<open>
  The pure primitives of \<open>packages/typescript/src/index.ts\<close>: the constants, the wire format
  \<open>nbl.{kid}.{selector}.{verifier}\<close> with its total parser, the two keyed hashes and the comparison
  of hex digests. The main results: the parser accepts exactly the canonical tokens and is undone
  by printing, so a credential has one wire form; a digest comparison is equality on well-formed
  digests and refuses everything else.
\<close>

section \<open>Constants\<close>

definition SPEC_VERSION :: int where "SPEC_VERSION = 1"
definition PREFIX :: jsstring where "PREFIX = js ''nbl''"
definition SELECTOR_BYTES :: nat where "SELECTOR_BYTES = 16"
definition VERIFIER_BYTES :: nat where "VERIFIER_BYTES = 32"
definition SELECTOR_CHARS :: nat where "SELECTOR_CHARS = 22"
definition VERIFIER_CHARS :: nat where "VERIFIER_CHARS = 43"
definition MAX_KID_LENGTH :: nat where "MAX_KID_LENGTH = 64"
definition MAX_TOKEN_LENGTH :: nat where "MAX_TOKEN_LENGTH = 512"
definition MIN_PEPPER_LENGTH :: nat where "MIN_PEPPER_LENGTH = 32"
definition DEFAULT_ABSOLUTE_TTL :: int where "DEFAULT_ABSOLUTE_TTL = 60 * 60 * 24 * 30"
definition DEFAULT_IDLE_TTL :: int where "DEFAULT_IDLE_TTL = 60 * 60 * 24 * 7"
definition DEFAULT_REUSE_GRACE :: int where "DEFAULT_REUSE_GRACE = 0"
definition HASH_HEX_CHARS :: nat where "HASH_HEX_CHARS = 64"

lemmas wire_constants = PREFIX_def SELECTOR_BYTES_def VERIFIER_BYTES_def SELECTOR_CHARS_def
  VERIFIER_CHARS_def MAX_KID_LENGTH_def MAX_TOKEN_LENGTH_def MIN_PEPPER_LENGTH_def
  HASH_HEX_CHARS_def

section \<open>Parsing\<close>

record ParsedToken =
  p_kid :: jsstring
  p_selector :: jsstring
  p_verifier :: bytes

definition DOT :: cu where "DOT = of_char CHR ''.''"

text \<open>\<open>/^[A-Za-z0-9_-]+$/\<close>\<close>

definition B64URL_CHAR :: regex where
  "B64URL_CHAR = RSeqs [RBol False,
     RPlus True (RChar (\<lambda>c. (65 \<le> c \<and> c \<le> 90) \<or> (97 \<le> c \<and> c \<le> 122) \<or> (48 \<le> c \<and> c \<le> 57) \<or>
       c = 95 \<or> c = 45)),
     REol False]"

definition parseToken :: "js_value \<Rightarrow> ParsedToken option" where
  "parseToken token =
    (case token of
       JNonString \<Rightarrow> None
     | JString t \<Rightarrow>
         if length t = 0 then None
         else if byteLength t > MAX_TOKEN_LENGTH then None
         else
           (case split_on (DOT) t of
              [prefix, kid, selector, verifierB64] \<Rightarrow>
                if prefix \<noteq> PREFIX then None
                else if length kid = 0 \<or> length selector = 0 \<or> length verifierB64 = 0 then None
                else if length kid > MAX_KID_LENGTH then None
                else if length selector \<noteq> SELECTOR_CHARS then None
                else if length verifierB64 \<noteq> VERIFIER_CHARS then None
                else if \<not> test B64URL_CHAR kid then None
                else if \<not> test B64URL_CHAR selector then None
                else if \<not> test B64URL_CHAR verifierB64 then None
                else
                  (let verifier = fromBase64url verifierB64 in
                   if length verifier \<noteq> VERIFIER_BYTES then None
                   else if toBase64url verifier \<noteq> verifierB64 then None
                   else Some \<lparr>p_kid = kid, p_selector = selector, p_verifier = verifier\<rparr>)
            | _ \<Rightarrow> None))"

text \<open>The template of \<open>#mint\<close>: \<open>`${PREFIX}.${kid}.${selector}.${verifier.toString('base64url')}`\<close>.\<close>

definition format_token :: "jsstring \<Rightarrow> jsstring \<Rightarrow> bytes \<Rightarrow> jsstring" where
  "format_token kid selector verifier =
     PREFIX @ [DOT] @ kid @ [DOT] @ selector @ [DOT] @
     toBase64url verifier"

section \<open>Hashing and comparison\<close>

datatype hash_error = DeviceIdNotUnicode

definition hashVerifier :: "jsstring \<Rightarrow> bytes \<Rightarrow> jsstring" where
  "hashVerifier pepper verifier = toHex (hmac_sha256 (utf8 pepper) verifier)"

definition hashDeviceId :: "jsstring \<Rightarrow> jsstring \<Rightarrow> hash_error + jsstring" where
  "hashDeviceId pepper deviceId =
     (if \<not> isWellFormedUnicode deviceId then Inl DeviceIdNotUnicode
      else Inr (toHex (hmac_sha256 (utf8 pepper) (utf8 (js ''device:'' @ deviceId)))))"

text \<open>\<open>/^[0-9a-f]{64}$/\<close>\<close>

definition LOWER_HEX_64 :: regex where
  "LOWER_HEX_64 = RSeqs [RBol False,
     RTimes 64 (RChar (\<lambda>c. (48 \<le> c \<and> c \<le> 57) \<or> (97 \<le> c \<and> c \<le> 102))), REol False]"

definition constantTimeEqualHex :: "js_value \<Rightarrow> js_value \<Rightarrow> bool" where
  "constantTimeEqualHex aHex bHex =
     (case (aHex, bHex) of
        (JString a, JString b) \<Rightarrow>
          if length a \<noteq> HASH_HEX_CHARS \<or> length b \<noteq> HASH_HEX_CHARS then False
          else if \<not> test LOWER_HEX_64 a \<or> \<not> test LOWER_HEX_64 b then False
          else fromHex a = fromHex b
      | _ \<Rightarrow> False)"

section \<open>What the patterns accept\<close>

lemma test_B64URL_CHAR: "test B64URL_CHAR s \<longleftrightarrow> s \<noteq> [] \<and> list_all is_b64url s"
  unfolding B64URL_CHAR_def test_class_plus
  by (auto simp: is_b64url_def list_all_iff word_le_nat_alt word_unat_eq_iff)

lemma test_LOWER_HEX_64: "test LOWER_HEX_64 s \<longleftrightarrow> length s = 64 \<and> list_all is_lower_hex s"
  unfolding LOWER_HEX_64_def test_class_times
  by (auto simp: is_lower_hex_def list_all_iff word_le_nat_alt)

definition is_digest :: "jsstring \<Rightarrow> bool" where
  "is_digest s \<longleftrightarrow> length s = HASH_HEX_CHARS \<and> list_all is_lower_hex s"

lemma hashVerifier_digest [simp]: "is_digest (hashVerifier pepper v)"
  by (simp add: is_digest_def hashVerifier_def wire_constants toHex_lower)

lemma hashDeviceId_digest: "hashDeviceId pepper d = Inr h \<Longrightarrow> is_digest h"
  by (auto simp: is_digest_def hashDeviceId_def wire_constants toHex_lower split: if_splits)

lemma constantTimeEqualHex_eq:
  "constantTimeEqualHex (JString a) (JString b) \<longleftrightarrow> is_digest a \<and> a = b"
  using fromHex_inject [of a b]
  by (auto simp: constantTimeEqualHex_def test_LOWER_HEX_64 is_digest_def wire_constants)

text \<open>
  The constant-time comparison holds exactly for two equal digests of 64 lowercase hex
  characters. Truncated, padded, upper-cased or otherwise malformed operands compare unequal, even
  to themselves, and non-strings compare unequal to everything.
\<close>

theorem constantTimeEqualHex_iff:
  "constantTimeEqualHex x y \<longleftrightarrow> (\<exists>s. x = JString s \<and> y = JString s \<and> is_digest s)"
  by (cases x; cases y) (auto simp: constantTimeEqualHex_eq, auto simp: constantTimeEqualHex_def)

section \<open>The parser accepts exactly the canonical tokens\<close>

definition valid_kid :: "jsstring \<Rightarrow> bool" where
  "valid_kid k \<longleftrightarrow> k \<noteq> [] \<and> length k \<le> MAX_KID_LENGTH \<and> list_all is_b64url k"

definition valid_selector :: "jsstring \<Rightarrow> bool" where
  "valid_selector s \<longleftrightarrow> length s = SELECTOR_CHARS \<and> list_all is_b64url s"

lemma dot_not_b64url: "list_all is_b64url s \<Longrightarrow> DOT \<notin> set s"
  by (auto simp: list_all_iff is_b64url_def DOT_def)

lemma PREFIX_alphabet: "list_all is_b64url PREFIX" "length PREFIX = 3"
  by (simp_all add: PREFIX_def js_def is_b64url_def)

lemma valid_selector_toBase64url: "length bs = SELECTOR_BYTES \<Longrightarrow> valid_selector (toBase64url bs)"
  by (simp add: valid_selector_def toBase64url_alphabet length_toBase64url wire_constants)

lemma format_token_ascii:
  assumes "valid_kid k" "valid_selector s" "length v = VERIFIER_BYTES"
  shows "list_all is_ascii (format_token k s v)" "length (format_token k s v) \<le> MAX_TOKEN_LENGTH"
  using assms toBase64url_alphabet [of v] PREFIX_alphabet
  by (auto simp: format_token_def valid_kid_def valid_selector_def list_b64url_ascii is_ascii_def DOT_def
      length_toBase64url SELECTOR_CHARS_def VERIFIER_BYTES_def MAX_KID_LENGTH_def MAX_TOKEN_LENGTH_def)

lemma split_format_token:
  assumes "valid_kid k" "valid_selector s"
  shows "split_on (DOT) (format_token k s v) = [PREFIX, k, s, toBase64url v]"
proof -
  have "format_token k s v =
      PREFIX @ DOT # (k @ DOT # (s @ DOT # toBase64url v))"
    by (simp add: format_token_def)
  moreover have "DOT \<notin> set PREFIX" "DOT \<notin> set k"
    "DOT \<notin> set s" "DOT \<notin> set (toBase64url v)"
    using assms PREFIX_alphabet toBase64url_alphabet
    by (auto simp: valid_kid_def valid_selector_def dot_not_b64url)
  ultimately show ?thesis by (simp add: split_on_append split_on_not_in)
qed

lemma parseToken_format:
  assumes "valid_kid k" "valid_selector s" "length v = VERIFIER_BYTES"
  shows "parseToken (JString (format_token k s v)) =
    Some \<lparr>p_kid = k, p_selector = s, p_verifier = v\<rparr>"
proof -
  have "byteLength (format_token k s v) \<le> MAX_TOKEN_LENGTH" "format_token k s v \<noteq> []"
    using format_token_ascii [OF assms] by (simp_all add: byteLength_ascii format_token_def)
  moreover have "length (toBase64url v) = VERIFIER_CHARS"
    using assms(3) by (simp add: length_toBase64url wire_constants)
  ultimately show ?thesis using assms toBase64url_alphabet [of v]
    by (auto simp: parseToken_def split_format_token test_B64URL_CHAR fromBase64url_toBase64url
        valid_kid_def valid_selector_def VERIFIER_CHARS_def SELECTOR_CHARS_def)
qed

lemma parseToken_Some:
  assumes "parseToken x = Some p"
  shows "x = JString (format_token (p_kid p) (p_selector p) (p_verifier p)) \<and>
    valid_kid (p_kid p) \<and> valid_selector (p_selector p) \<and> length (p_verifier p) = VERIFIER_BYTES"
proof -
  from assms obtain t a k s v where x: "x = JString t"
    and sp: "split_on (DOT) t = [a, k, s, v]"
    by (auto simp: parseToken_def split: js_value.splits if_splits list.splits)
  from assms have p: "a = PREFIX" "k \<noteq> []" "length k \<le> MAX_KID_LENGTH" "length s = SELECTOR_CHARS"
    "list_all is_b64url k" "list_all is_b64url s" "length (fromBase64url v) = VERIFIER_BYTES"
    "toBase64url (fromBase64url v) = v"
    "p = \<lparr>p_kid = k, p_selector = s, p_verifier = fromBase64url v\<rparr>"
    by (auto simp: parseToken_def x sp test_B64URL_CHAR Let_def split: if_splits)
  have "t = join_with [DOT] [a, k, s, v]"
    using join_split [of "DOT" t] by (simp only: sp)
  with p x show ?thesis
    by (simp add: format_token_def valid_kid_def valid_selector_def)
qed

text \<open>
  \<^bold>\<open>C13.\<close> The parser is total and accepts exactly the tokens of the grammar in canonical form:
  the printed form of a key id of 1 to 64 characters, a selector of 22 characters over the base64url
  alphabet, and a verifier of 32 octets. What it returns are those three parts, so parsing and
  printing are inverse to each other and a credential has exactly one wire form.
\<close>

theorem parseToken_iff:
  "parseToken x = Some p \<longleftrightarrow>
    x = JString (format_token (p_kid p) (p_selector p) (p_verifier p)) \<and>
    valid_kid (p_kid p) \<and> valid_selector (p_selector p) \<and> length (p_verifier p) = VERIFIER_BYTES"
  using parseToken_Some [of x p] parseToken_format [of "p_kid p" "p_selector p" "p_verifier p"]
  by auto

end
