(* ===== verification/Store.thy ===== *)
theory Store
  imports Wire_Token
begin

text \<open>
  The record a token has on the server, the six-method storage contract, and how the engine's
  asynchronous operations use it.

  An operation of the engine is a \<open>prog\<close>: the tree of the store calls, clock readings and random
  draws it makes, with a continuation for every answer. An \<open>await\<close> of the source is a constructor of
  the tree, so the points where another operation can run in between are explicit. \<open>run\<close> executes a
  program against any implementation of the contract (a record of functions); a store call that
  rejects ends the operation with that rejection, as an exception that nobody catches does.

  The locale \<open>token_store\<close> is the contract: its laws say what every call returns and does in terms of
  the abstract contents of the store, a map from selectors to records. The abstract store
  \<open>spec_store\<close> satisfies them by definition, and \<open>run_refines\<close> shows that a program cannot tell an
  implementation of the contract from it.
\<close>

section \<open>Records\<close>

datatype TokenStatus = Active | Rotated | Revoked

record TokenRecord =
  selector :: jsstring
  verifierHash :: jsstring
  kid :: jsstring
  familyId :: jsstring
  generation :: int
  userId :: jsstring
  deviceIdHash :: "jsstring option"
  createdAt :: int
  familyExpiresAt :: int
  idleExpiresAt :: int
  status :: TokenStatus
  rotatedAt :: "int option"
  replacedBySelector :: "jsstring option"

text \<open>What a promise of the store rejects with: not a protocol outcome.\<close>

datatype store_error = DuplicateSelector jsstring | StoreUnavailable

record 's RefreshTokenStore =
  findBySelector :: "'s \<Rightarrow> jsstring \<Rightarrow> (store_error + TokenRecord option) \<times> 's"
  insert_record :: "'s \<Rightarrow> TokenRecord \<Rightarrow> (store_error + unit) \<times> 's"
  markRotated :: "'s \<Rightarrow> jsstring \<Rightarrow> TokenStatus \<Rightarrow> int \<Rightarrow> jsstring \<Rightarrow> (store_error + bool) \<times> 's"
  revokeIfActive :: "'s \<Rightarrow> jsstring \<Rightarrow> (store_error + bool) \<times> 's"
  revokeFamily :: "'s \<Rightarrow> jsstring \<Rightarrow> (store_error + nat) \<times> 's"
  revokeUser :: "'s \<Rightarrow> jsstring \<Rightarrow> (store_error + nat) \<times> 's"

section \<open>Programs over the store\<close>

text \<open>
  \<open>'e\<close> is the type of the exceptions the operation itself throws (\<open>NebulaConfigError\<close>).
\<close>

datatype ('e, 'a) prog =
    Return 'a
  | Throw 'e
  | FindBySelector jsstring "TokenRecord option \<Rightarrow> ('e, 'a) prog"
  | Insert TokenRecord "('e, 'a) prog"
  | MarkRotated jsstring TokenStatus int jsstring "bool \<Rightarrow> ('e, 'a) prog"
  | RevokeIfActive jsstring "bool \<Rightarrow> ('e, 'a) prog"
  | RevokeFamily jsstring "nat \<Rightarrow> ('e, 'a) prog"
  | RevokeUser jsstring "nat \<Rightarrow> ('e, 'a) prog"
  | Clock "int \<Rightarrow> ('e, 'a) prog"
  | RandomBytes nat "bytes \<Rightarrow> ('e, 'a) prog"

text \<open>How an operation ends: a value, an exception of its own, or a rejection of the store.\<close>

datatype ('e, 'a) outcome = Value 'a | Thrown 'e | Rejected store_error

record 's world =
  db :: 's
  entropy :: entropy
  clock :: int

primrec run :: "'s RefreshTokenStore \<Rightarrow> ('e, 'a) prog \<Rightarrow> 's world \<Rightarrow> ('e, 'a) outcome \<times> 's world" where
  "run S (Return a) w = (Value a, w)"
| "run S (Throw e) w = (Thrown e, w)"
| "run S (FindBySelector s k) w =
     (case findBySelector S (db w) s of
        (Inl e, d) \<Rightarrow> (Rejected e, w\<lparr>db := d\<rparr>)
      | (Inr r, d) \<Rightarrow> run S (k r) (w\<lparr>db := d\<rparr>))"
| "run S (Insert r p) w =
     (case insert_record S (db w) r of
        (Inl e, d) \<Rightarrow> (Rejected e, w\<lparr>db := d\<rparr>)
      | (Inr _, d) \<Rightarrow> run S p (w\<lparr>db := d\<rparr>))"
| "run S (MarkRotated s st t s' k) w =
     (case markRotated S (db w) s st t s' of
        (Inl e, d) \<Rightarrow> (Rejected e, w\<lparr>db := d\<rparr>)
      | (Inr b, d) \<Rightarrow> run S (k b) (w\<lparr>db := d\<rparr>))"
| "run S (RevokeIfActive s k) w =
     (case revokeIfActive S (db w) s of
        (Inl e, d) \<Rightarrow> (Rejected e, w\<lparr>db := d\<rparr>)
      | (Inr b, d) \<Rightarrow> run S (k b) (w\<lparr>db := d\<rparr>))"
| "run S (RevokeFamily f k) w =
     (case revokeFamily S (db w) f of
        (Inl e, d) \<Rightarrow> (Rejected e, w\<lparr>db := d\<rparr>)
      | (Inr n, d) \<Rightarrow> run S (k n) (w\<lparr>db := d\<rparr>))"
| "run S (RevokeUser u k) w =
     (case revokeUser S (db w) u of
        (Inl e, d) \<Rightarrow> (Rejected e, w\<lparr>db := d\<rparr>)
      | (Inr n, d) \<Rightarrow> run S (k n) (w\<lparr>db := d\<rparr>))"
| "run S (Clock k) w = run S (k (clock w)) w"
| "run S (RandomBytes n k) w =
     (case randomBytes n (entropy w) of (bs, \<rho>) \<Rightarrow> run S (k bs) (w\<lparr>entropy := \<rho>\<rparr>))"

section \<open>The abstract store\<close>

type_synonym rows = "jsstring \<rightharpoonup> TokenRecord"

text \<open>Apply \<open>f\<close> to every record that satisfies \<open>P\<close>.\<close>

definition upd_rows :: "(TokenRecord \<Rightarrow> bool) \<Rightarrow> (TokenRecord \<Rightarrow> TokenRecord) \<Rightarrow> rows \<Rightarrow> rows" where
  "upd_rows P f m = (\<lambda>s. map_option (\<lambda>r. if P r then f r else r) (m s))"

definition revoke :: "TokenRecord \<Rightarrow> TokenRecord" where
  "revoke r = r\<lparr>status := Revoked\<rparr>"

definition rotate_to :: "int \<Rightarrow> jsstring \<Rightarrow> TokenRecord \<Rightarrow> TokenRecord" where
  "rotate_to t s r = r\<lparr>status := Rotated, rotatedAt := Some t, replacedBySelector := Some s\<rparr>"

definition has_status :: "rows \<Rightarrow> jsstring \<Rightarrow> TokenStatus \<Rightarrow> bool" where
  "has_status m s st \<longleftrightarrow> map_option status (m s) = Some st"

definition revoke_where :: "(TokenRecord \<Rightarrow> bool) \<Rightarrow> rows \<Rightarrow> rows" where
  "revoke_where P = upd_rows P revoke"

definition revocable :: "(TokenRecord \<Rightarrow> bool) \<Rightarrow> rows \<Rightarrow> jsstring set" where
  "revocable P m = {s. \<exists>r. m s = Some r \<and> P r \<and> status r \<noteq> Revoked}"

text \<open>The compare-and-set writes on the abstract contents.\<close>

definition mark_rows :: "jsstring \<Rightarrow> TokenStatus \<Rightarrow> int \<Rightarrow> jsstring \<Rightarrow> rows \<Rightarrow> rows" where
  "mark_rows s st t s' m =
     (if has_status m s st then m(s := map_option (rotate_to t s') (m s)) else m)"

definition revoke_active :: "jsstring \<Rightarrow> rows \<Rightarrow> rows" where
  "revoke_active s m = (if has_status m s Active then m(s := map_option revoke (m s)) else m)"

definition spec_store :: "rows RefreshTokenStore" where
  "spec_store = \<lparr>
     findBySelector = (\<lambda>m s. (Inr (m s), m)),
     insert_record = (\<lambda>m r. if m (selector r) = None then (Inr (), m(selector r \<mapsto> r))
                            else (Inl (DuplicateSelector (selector r)), m)),
     markRotated = (\<lambda>m s st t s'. (Inr (has_status m s st), mark_rows s st t s' m)),
     revokeIfActive = (\<lambda>m s. (Inr (has_status m s Active), revoke_active s m)),
     revokeFamily = (\<lambda>m f. (Inr (card (revocable (\<lambda>r. familyId r = f) m)),
                            revoke_where (\<lambda>r. familyId r = f) m)),
     revokeUser = (\<lambda>m u. (Inr (card (revocable (\<lambda>r. userId r = u) m)),
                          revoke_where (\<lambda>r. userId r = u) m)) \<rparr>"

section \<open>The contract\<close>

locale token_store =
  fixes S :: "'s RefreshTokenStore"
    and contents :: "'s \<Rightarrow> rows"
    and valid :: "'s \<Rightarrow> bool"
  assumes find_law: "valid d \<Longrightarrow> findBySelector S d s = (Inr (contents d s), d)"
    and insert_fresh: "valid d \<Longrightarrow> contents d (selector r) = None \<Longrightarrow>
      \<exists>d'. insert_record S d r = (Inr (), d') \<and> valid d' \<and>
        contents d' = (contents d)(selector r \<mapsto> r)"
    and insert_duplicate: "valid d \<Longrightarrow> contents d (selector r) = Some r' \<Longrightarrow>
      insert_record S d r = (Inl (DuplicateSelector (selector r)), d)"
    and mark_law: "valid d \<Longrightarrow>
      \<exists>d'. markRotated S d s st t s' = (Inr (has_status (contents d) s st), d') \<and> valid d' \<and>
        contents d' = mark_rows s st t s' (contents d)"
    and revoke_active_law: "valid d \<Longrightarrow>
      \<exists>d'. revokeIfActive S d s = (Inr (has_status (contents d) s Active), d') \<and> valid d' \<and>
        contents d' = revoke_active s (contents d)"
    and revoke_family_law: "valid d \<Longrightarrow>
      \<exists>d'. revokeFamily S d f = (Inr (card (revocable (\<lambda>r. familyId r = f) (contents d))), d') \<and>
        valid d' \<and> contents d' = revoke_where (\<lambda>r. familyId r = f) (contents d)"
    and revoke_user_law: "valid d \<Longrightarrow>
      \<exists>d'. revokeUser S d u = (Inr (card (revocable (\<lambda>r. userId r = u) (contents d))), d') \<and>
        valid d' \<and> contents d' = revoke_where (\<lambda>r. userId r = u) (contents d)"
begin

definition abs_world :: "'s world \<Rightarrow> rows world" where
  "abs_world w = \<lparr>db = contents (db w), entropy = entropy w, clock = clock w\<rparr>"

text \<open>Running on the implementation and running on the abstract store give the same outcome.\<close>

lemma run_refines:
  assumes "valid (db w)"
  shows "\<exists>w'. run S p w = (fst (run spec_store p (abs_world w)), w') \<and> valid (db w') \<and>
    abs_world w' = snd (run spec_store p (abs_world w))"
  using assms
proof (induction p arbitrary: w)
  case (FindBySelector s k)
  then show ?case
    by (simp add: find_law spec_store_def abs_world_def)
next
  case (Insert r p)
  show ?case
  proof (cases "contents (db w) (selector r)")
    case None
    then obtain d where d: "insert_record S (db w) r = (Inr (), d)" "valid d"
      "contents d = (contents (db w))(selector r \<mapsto> r)"
      using insert_fresh [OF Insert.prems] by blast
    then show ?thesis using Insert.IH [of "w\<lparr>db := d\<rparr>"] None
      by (simp add: spec_store_def abs_world_def)
  next
    case (Some r')
    then show ?thesis using insert_duplicate [OF Insert.prems Some] Insert.prems
      by (simp add: spec_store_def abs_world_def)
  qed
next
  case (MarkRotated s st t s' k)
  obtain d where d: "markRotated S (db w) s st t s' = (Inr (has_status (contents (db w)) s st), d)"
    "valid d" "contents d = mark_rows s st t s' (contents (db w))"
    using mark_law [OF MarkRotated.prems] by blast
  then show ?case using MarkRotated.IH [of _ "w\<lparr>db := d\<rparr>"]
    by (simp add: spec_store_def abs_world_def)
next
  case (RevokeIfActive s k)
  obtain d where d: "revokeIfActive S (db w) s = (Inr (has_status (contents (db w)) s Active), d)"
    "valid d" "contents d = revoke_active s (contents (db w))"
    using revoke_active_law [OF RevokeIfActive.prems] by blast
  then show ?case using RevokeIfActive.IH [of _ "w\<lparr>db := d\<rparr>"]
    by (simp add: spec_store_def abs_world_def)
next
  case (RevokeFamily f k)
  obtain d where d: "revokeFamily S (db w) f =
      (Inr (card (revocable (\<lambda>r. familyId r = f) (contents (db w)))), d)"
    "valid d" "contents d = revoke_where (\<lambda>r. familyId r = f) (contents (db w))"
    using revoke_family_law [OF RevokeFamily.prems] by blast
  then show ?case using RevokeFamily.IH [of _ "w\<lparr>db := d\<rparr>"]
    by (simp add: spec_store_def abs_world_def)
next
  case (RevokeUser u k)
  obtain d where d: "revokeUser S (db w) u =
      (Inr (card (revocable (\<lambda>r. userId r = u) (contents (db w)))), d)"
    "valid d" "contents d = revoke_where (\<lambda>r. userId r = u) (contents (db w))"
    using revoke_user_law [OF RevokeUser.prems] by blast
  then show ?case using RevokeUser.IH [of _ "w\<lparr>db := d\<rparr>"]
    by (simp add: spec_store_def abs_world_def)
next
  case (Clock k)
  then show ?case by (simp add: abs_world_def)
next
  case (RandomBytes n k)
  then show ?case using RandomBytes.IH [of _ "w\<lparr>entropy := snd (randomBytes n (entropy w))\<rparr>"]
    by (simp add: abs_world_def randomBytes_def)
qed (auto simp: abs_world_def)

end

interpretation abstract: token_store spec_store "\<lambda>m. m" "\<lambda>_. True"
  by unfold_locales (auto simp: spec_store_def)

end
