(* ===== verification/Engine.thy ===== *)
theory Engine
  imports Store
begin

text \<open>
  \<open>NebulaEngine\<close> of \<open>packages/typescript/src/index.ts\<close>: the constructor's validation of the
  configuration and the five operations, each as a program over the store. The private methods keep
  their names; \<open>#mint\<close>, which draws randomness, takes the rest of the operation as its continuation.

  A device identifier is optional (\<open>undefined\<close> is \<open>None\<close>), and so distinct from the empty string.
\<close>

section \<open>Configuration\<close>

record NebulaConfig =
  c_peppers :: "(jsstring \<times> js_value) list option" \<comment> \<open>\<open>Object.entries\<close> of the record, if present\<close>
  c_activeKid :: jsstring
  c_absoluteTtlSeconds :: "js_number option"
  c_idleTtlSeconds :: "js_number option"
  c_reuseGraceSeconds :: "js_number option"

text \<open>\<open>NebulaConfigError\<close>, one constructor per message.\<close>

datatype NebulaConfigError =
    InvalidKid jsstring
  | PepperNotUnicode jsstring
  | PepperTooShort jsstring
  | ActiveKidMissing jsstring
  | InvalidAbsoluteTtl
  | InvalidIdleTtl
  | InvalidReuseGrace
  | InvalidDeviceId

record NebulaEngine =
  peppers :: "jsstring \<rightharpoonup> jsstring"
  activeKid :: jsstring
  absoluteTtl :: int
  idleTtl :: int
  reuseGrace :: int

text \<open>The loop over \<open>Object.entries(config.peppers ?? {})\<close> that fills the private copy.\<close>

fun copy_peppers ::
  "(jsstring \<times> js_value) list \<Rightarrow> (jsstring \<rightharpoonup> jsstring) \<Rightarrow> NebulaConfigError + (jsstring \<rightharpoonup> jsstring)" where
  "copy_peppers [] m = Inr m"
| "copy_peppers ((k, v) # es) m =
     (if k = [] \<or> \<not> test B64URL_CHAR k \<or> byteLength k > MAX_KID_LENGTH then Inl (InvalidKid k)
      else case v of
        JNonString \<Rightarrow> Inl (PepperNotUnicode k)
      | JString secret \<Rightarrow>
          if \<not> isWellFormedUnicode secret then Inl (PepperNotUnicode k)
          else if byteLength secret < MIN_PEPPER_LENGTH then Inl (PepperTooShort k)
          else copy_peppers es (m(k \<mapsto> secret)))"

text \<open>\<open>x ?? d\<close>, and the integer a validated number stands for.\<close>

definition or_default :: "js_number option \<Rightarrow> int \<Rightarrow> js_number" where
  "or_default x d = (case x of None \<Rightarrow> JInteger d | Some n \<Rightarrow> n)"

fun js_int :: "js_number \<Rightarrow> int" where
  "js_int (JInteger i) = i"
| "js_int JNonInteger = 0"

definition constructor :: "NebulaConfig \<Rightarrow> NebulaConfigError + NebulaEngine" where
  "constructor config =
     (case copy_peppers (case c_peppers config of None \<Rightarrow> [] | Some es \<Rightarrow> es) Map.empty of
        Inl e \<Rightarrow> Inl e
      | Inr m \<Rightarrow>
          if m (c_activeKid config) = None then Inl (ActiveKidMissing (c_activeKid config))
          else
            (let abs = or_default (c_absoluteTtlSeconds config) DEFAULT_ABSOLUTE_TTL;
                 idle = or_default (c_idleTtlSeconds config) DEFAULT_IDLE_TTL;
                 grace = or_default (c_reuseGraceSeconds config) DEFAULT_REUSE_GRACE
             in
             if \<not> isInteger abs \<or> js_int abs \<le> 0 then Inl InvalidAbsoluteTtl
             else if \<not> isInteger idle \<or> js_int idle \<le> 0 then Inl InvalidIdleTtl
             else if \<not> isInteger grace \<or> js_int grace < 0 then Inl InvalidReuseGrace
             else Inr \<lparr>peppers = m, activeKid = c_activeKid config, absoluteTtl = js_int abs,
                       idleTtl = js_int idle, reuseGrace = js_int grace\<rparr>))"

section \<open>Results\<close>

datatype NebulaErrorCode =
    MALFORMED | UNKNOWN_KID | NOT_FOUND | VERIFIER_MISMATCH | REUSE_DETECTED | REVOKED
  | EXPIRED_ABSOLUTE | EXPIRED_IDLE | DEVICE_MISMATCH | CONFLICT

record IssueResult =
  token :: jsstring
  res_userId :: jsstring
  res_familyId :: jsstring
  res_generation :: int
  res_expiresAt :: int
  res_idleExpiresAt :: int

text \<open>
  \<open>RefreshSuccess\<close> carries the same fields as \<open>IssueResult\<close>. A failure carries the owner and the family
  when the engine resolved a record.
\<close>

datatype RefreshResult =
    RefreshSuccess IssueResult
  | RefreshFailure NebulaErrorCode "jsstring option" "jsstring option"

datatype RevokeResult =
    RevokeSuccess jsstring jsstring nat \<comment> \<open>\<open>userId\<close>, \<open>familyId\<close>, \<open>revoked\<close>\<close>
  | RevokeFailure NebulaErrorCode "jsstring option" "jsstring option"

type_synonym 'a engine_prog = "(NebulaConfigError, 'a) prog"

section \<open>Private methods\<close>

definition activePepper :: "NebulaEngine \<Rightarrow> jsstring" where
  "activePepper eng = the (peppers eng (activeKid eng))"

definition fail :: "NebulaErrorCode \<Rightarrow> TokenRecord \<Rightarrow> RefreshResult" where
  "fail error r = RefreshFailure error (Some (userId r)) (Some (familyId r))"

text \<open>
  \<open>#deviceMatches\<close>, with the exception of \<open>hashDeviceId\<close> as \<open>Inl\<close>: without the test before it, an ill-formed
  identifier would make \<open>refresh\<close> throw. \<open>bindingHolds\<close> is the negation of the condition of its two callers,
  \<open>record.deviceIdHash !== null && !this.#deviceMatches(...)\<close>.
\<close>

definition deviceMatches :: "TokenRecord \<Rightarrow> jsstring \<Rightarrow> jsstring option \<Rightarrow> hash_error + bool" where
  "deviceMatches r recordPepper deviceId =
     (case (deviceId, deviceIdHash r) of
        (Some d, Some h) \<Rightarrow>
          if \<not> isWellFormedUnicode d then Inr False
          else map_sum id (\<lambda>h'. constantTimeEqualHex (JString h') (JString h)) (hashDeviceId recordPepper d)
      | _ \<Rightarrow> Inr False)"

definition bindingHolds :: "TokenRecord \<Rightarrow> jsstring \<Rightarrow> jsstring option \<Rightarrow> hash_error + bool" where
  "bindingHolds r recordPepper deviceId =
     (if deviceIdHash r = None then Inr True else deviceMatches r recordPepper deviceId)"

text \<open>The device is the one the record is bound to, if it is bound.\<close>

definition bound_to :: "TokenRecord \<Rightarrow> jsstring \<Rightarrow> jsstring option \<Rightarrow> bool" where
  "bound_to r pepper d \<longleftrightarrow> deviceIdHash r = None \<or> deviceMatches r pepper d = Inr True"

text \<open>The binding test never throws: the identifier is tested before it is hashed.\<close>

lemma bindingHolds_bound [simp]: "bindingHolds r pepper d = Inr (bound_to r pepper d)"
  by (auto simp: bindingHolds_def bound_to_def deviceMatches_def hashDeviceId_def split: option.splits)

record mint_args =
  a_userId :: jsstring
  a_familyId :: jsstring
  a_generation :: int
  a_deviceIdHash :: "jsstring option"
  a_familyExpiresAt :: int
  a_now :: int

definition mint_record :: "NebulaEngine \<Rightarrow> mint_args \<Rightarrow> bytes \<Rightarrow> bytes \<Rightarrow> TokenRecord" where
  "mint_record eng args sel verifier = \<lparr>
     selector = toBase64url sel,
     verifierHash = hashVerifier (activePepper eng) verifier,
     kid = activeKid eng,
     familyId = a_familyId args,
     generation = a_generation args,
     userId = a_userId args,
     deviceIdHash = a_deviceIdHash args,
     createdAt = a_now args,
     familyExpiresAt = a_familyExpiresAt args,
     idleExpiresAt = min (a_now args + idleTtl eng) (a_familyExpiresAt args),
     status = Active,
     rotatedAt = None,
     replacedBySelector = None \<rparr>"

definition mint ::
  "NebulaEngine \<Rightarrow> mint_args \<Rightarrow> (jsstring \<times> TokenRecord \<Rightarrow> 'a engine_prog) \<Rightarrow> 'a engine_prog" where
  "mint eng args cont =
     RandomBytes SELECTOR_BYTES (\<lambda>sel.
     RandomBytes VERIFIER_BYTES (\<lambda>verifier.
       cont (format_token (activeKid eng) (toBase64url sel) verifier,
             mint_record eng args sel verifier)))"

text \<open>
  The device hash of the successor: re-hashed with the active pepper when the record is bound and
  the identifier is present. The identifier may be ill-formed here only if the binding check let
  it through, so the exception of \<open>hashDeviceId\<close> is kept.
\<close>

definition successorDeviceHash :: "NebulaEngine \<Rightarrow> TokenRecord \<Rightarrow> jsstring option \<Rightarrow> hash_error + jsstring option" where
  "successorDeviceHash eng r deviceId =
     (case (deviceIdHash r, deviceId) of
        (Some _, Some d) \<Rightarrow> map_sum id Some (hashDeviceId (activePepper eng) d)
      | _ \<Rightarrow> Inr (deviceIdHash r))"

definition rotate_token ::
  "NebulaEngine \<Rightarrow> TokenRecord \<Rightarrow> jsstring option \<Rightarrow> int \<Rightarrow> TokenStatus \<Rightarrow> int \<Rightarrow>
    RefreshResult engine_prog" where
  "rotate_token eng r deviceId now fromStatus rotAt =
     (case successorDeviceHash eng r deviceId of
        Inl _ \<Rightarrow> Throw InvalidDeviceId
      | Inr dh \<Rightarrow>
          mint eng \<lparr>a_userId = userId r, a_familyId = familyId r, a_generation = generation r + 1,
            a_deviceIdHash = dh, a_familyExpiresAt = familyExpiresAt r, a_now = now\<rparr> (\<lambda>(tok, next).
          Insert next (
          MarkRotated (selector r) fromStatus rotAt (selector next) (\<lambda>applied.
            if \<not> applied then RevokeIfActive (selector next) (\<lambda>_. Return (fail CONFLICT r))
            else Return (RefreshSuccess \<lparr>token = tok, res_userId = userId r,
              res_familyId = familyId r, res_generation = generation next,
              res_expiresAt = familyExpiresAt next, res_idleExpiresAt = idleExpiresAt next\<rparr>)))))"

text \<open>The first five of the six preconditions of a grace retry.\<close>

definition withinGrace :: "NebulaEngine \<Rightarrow> TokenRecord \<Rightarrow> int \<Rightarrow> bool" where
  "withinGrace eng r now \<longleftrightarrow>
     reuseGrace eng > 0 \<and>
     (case rotatedAt r of None \<Rightarrow> False | Some t \<Rightarrow> now - t \<le> reuseGrace eng) \<and>
     replacedBySelector r \<noteq> None \<and>
     now < familyExpiresAt r"

definition handleReuse ::
  "NebulaEngine \<Rightarrow> TokenRecord \<Rightarrow> jsstring \<Rightarrow> jsstring option \<Rightarrow> int \<Rightarrow> RefreshResult engine_prog" where
  "handleReuse eng r recordPepper deviceId now =
     (let reuse = RevokeFamily (familyId r) (\<lambda>_. Return (fail REUSE_DETECTED r)) in
      if withinGrace eng r now then
        FindBySelector (the (replacedBySelector r)) (\<lambda>found.
          case found of
            Some successor \<Rightarrow>
              if status successor = Active then
                (case bindingHolds r recordPepper deviceId of
                   Inl _ \<Rightarrow> Throw InvalidDeviceId
                 | Inr holds \<Rightarrow>
                     if \<not> holds then RevokeFamily (familyId r) (\<lambda>_. Return (fail DEVICE_MISMATCH r))
                     else RevokeIfActive (selector successor) (\<lambda>won.
                       if \<not> won then Return (fail CONFLICT r)
                       else rotate_token eng r deviceId now Rotated (the (rotatedAt r))))
              else reuse
          | None \<Rightarrow> reuse)
      else reuse)"

section \<open>Public operations\<close>

definition issue :: "NebulaEngine \<Rightarrow> jsstring \<Rightarrow> jsstring option \<Rightarrow> IssueResult engine_prog" where
  "issue eng user deviceId =
     (if (case deviceId of None \<Rightarrow> False | Some d \<Rightarrow> \<not> isWellFormedUnicode d) then Throw InvalidDeviceId
      else
        Clock (\<lambda>now.
        RandomBytes 16 (\<lambda>fam.
          (case (case deviceId of None \<Rightarrow> Inr None
                 | Some d \<Rightarrow> map_sum id Some (hashDeviceId (activePepper eng) d)) of
             Inl _ \<Rightarrow> Throw InvalidDeviceId
           | Inr dh \<Rightarrow>
               mint eng \<lparr>a_userId = user, a_familyId = toHex fam, a_generation = 0,
                 a_deviceIdHash = dh, a_familyExpiresAt = now + absoluteTtl eng, a_now = now\<rparr> (\<lambda>(tok, r).
               Insert r (
                 Return \<lparr>token = tok, res_userId = user, res_familyId = toHex fam,
                   res_generation = 0, res_expiresAt = now + absoluteTtl eng,
                   res_idleExpiresAt = idleExpiresAt r\<rparr>))))))"

definition refresh :: "NebulaEngine \<Rightarrow> js_value \<Rightarrow> jsstring option \<Rightarrow> RefreshResult engine_prog" where
  "refresh eng tok deviceId =
     (case parseToken tok of
        None \<Rightarrow> Return (RefreshFailure MALFORMED None None)
      | Some parsed \<Rightarrow>
          if peppers eng (p_kid parsed) = None then Return (RefreshFailure UNKNOWN_KID None None)
          else
            FindBySelector (p_selector parsed) (\<lambda>found.
              case found of
                None \<Rightarrow> Return (RefreshFailure NOT_FOUND None None)
              | Some r \<Rightarrow>
                  (case peppers eng (kid r) of
                     None \<Rightarrow> Return (RefreshFailure UNKNOWN_KID None None)
                   | Some recordPepper \<Rightarrow>
                       if \<not> constantTimeEqualHex (JString (hashVerifier recordPepper (p_verifier parsed)))
                              (JString (verifierHash r))
                       then Return (fail VERIFIER_MISMATCH r)
                       else
                         Clock (\<lambda>now.
                           if status r = Rotated then handleReuse eng r recordPepper deviceId now
                           else if status r = Revoked then Return (fail REVOKED r)
                           else if now \<ge> familyExpiresAt r then
                             RevokeFamily (familyId r) (\<lambda>_. Return (fail EXPIRED_ABSOLUTE r))
                           else if now \<ge> idleExpiresAt r then
                             RevokeFamily (familyId r) (\<lambda>_. Return (fail EXPIRED_IDLE r))
                           else (case bindingHolds r recordPepper deviceId of
                               Inl _ \<Rightarrow> Throw InvalidDeviceId
                             | Inr holds \<Rightarrow>
                                 if \<not> holds then RevokeFamily (familyId r) (\<lambda>_. Return (fail DEVICE_MISMATCH r))
                                 else rotate_token eng r deviceId now Active now)))))"

definition revokeToken :: "NebulaEngine \<Rightarrow> js_value \<Rightarrow> RevokeResult engine_prog" where
  "revokeToken eng tok =
     (case parseToken tok of
        None \<Rightarrow> Return (RevokeFailure MALFORMED None None)
      | Some parsed \<Rightarrow>
          if peppers eng (p_kid parsed) = None then Return (RevokeFailure UNKNOWN_KID None None)
          else
            FindBySelector (p_selector parsed) (\<lambda>found.
              case found of
                None \<Rightarrow> Return (RevokeFailure NOT_FOUND None None)
              | Some r \<Rightarrow>
                  (case peppers eng (kid r) of
                     None \<Rightarrow> Return (RevokeFailure UNKNOWN_KID None None)
                   | Some recordPepper \<Rightarrow>
                       if \<not> constantTimeEqualHex (JString (hashVerifier recordPepper (p_verifier parsed)))
                              (JString (verifierHash r))
                       then Return (RevokeFailure VERIFIER_MISMATCH (Some (userId r)) (Some (familyId r)))
                       else
                         RevokeFamily (familyId r) (\<lambda>revoked.
                           Return (RevokeSuccess (userId r) (familyId r) revoked)))))"

definition engine_revokeFamily :: "jsstring \<Rightarrow> nat engine_prog" where
  "engine_revokeFamily f = RevokeFamily f Return"

definition revokeAllForUser :: "jsstring \<Rightarrow> nat engine_prog" where
  "revokeAllForUser u = RevokeUser u Return"

declare fail_def [engine_defs] mint_def [engine_defs] rotate_token_def [engine_defs]
  handleReuse_def [engine_defs] issue_def [engine_defs] refresh_def [engine_defs]
  revokeToken_def [engine_defs] engine_revokeFamily_def [engine_defs] revokeAllForUser_def [engine_defs]

section \<open>What the constructor accepts\<close>

definition valid_pepper :: "jsstring \<times> js_value \<Rightarrow> bool" where
  "valid_pepper e = (valid_kid (fst e) \<and>
     (case snd e of JNonString \<Rightarrow> False
      | JString secret \<Rightarrow> isWellFormedUnicode secret \<and> MIN_PEPPER_LENGTH \<le> byteLength secret))"

definition secret_of :: "js_value \<Rightarrow> jsstring" where
  "secret_of v = (case v of JString s \<Rightarrow> s | JNonString \<Rightarrow> [])"

definition pepper_entries :: "NebulaConfig \<Rightarrow> (jsstring \<times> js_value) list" where
  "pepper_entries config = (case c_peppers config of None \<Rightarrow> [] | Some es \<Rightarrow> es)"

definition engine_wf :: "NebulaEngine \<Rightarrow> bool" where
  "engine_wf eng \<longleftrightarrow> (\<forall>k p. peppers eng k = Some p \<longrightarrow> valid_pepper (k, JString p)) \<and>
     peppers eng (activeKid eng) \<noteq> None \<and> 0 < absoluteTtl eng \<and> 0 < idleTtl eng \<and> 0 \<le> reuseGrace eng"

lemma kid_guard:
  "(k = [] \<or> \<not> test B64URL_CHAR k \<or> byteLength k > MAX_KID_LENGTH) \<longleftrightarrow> \<not> valid_kid k"
  by (auto simp: test_B64URL_CHAR valid_kid_def byteLength_ascii list_b64url_ascii)

lemma copy_peppers_Inr:
  "copy_peppers es m = Inr m' \<longleftrightarrow>
     list_all valid_pepper es \<and> m' = m ++ map_of (rev (map (map_prod id secret_of) es))"
proof (induction es arbitrary: m)
  case (Cons e es)
  obtain k v where e: "e = (k, v)" by (cases e)
  have step: "copy_peppers (e # es) m =
     (if \<not> valid_kid k then Inl (InvalidKid k)
      else case v of
        JNonString \<Rightarrow> Inl (PepperNotUnicode k)
      | JString secret \<Rightarrow>
          if \<not> isWellFormedUnicode secret then Inl (PepperNotUnicode k)
          else if byteLength secret < MIN_PEPPER_LENGTH then Inl (PepperTooShort k)
          else copy_peppers es (m(k \<mapsto> secret)))"
    by (simp only: e copy_peppers.simps kid_guard)
  show ?case
  proof (cases v)
    case (JString secret)
    then have "copy_peppers (e # es) m = Inr m' \<longleftrightarrow>
        valid_pepper e \<and> copy_peppers es (m(k \<mapsto> secret)) = Inr m'"
      unfolding step by (simp add: e valid_pepper_def not_less)
    moreover have "m ++ map_of (rev (map (map_prod id secret_of) (e # es))) =
        m(k \<mapsto> secret) ++ map_of (rev (map (map_prod id secret_of) es))"
      by (simp add: e secret_of_def JString)
    ultimately show ?thesis by (simp only: Cons.IH list.pred_inject conj_assoc)
  qed (simp add: e valid_pepper_def)
qed auto

lemma copied_peppers_valid:
  assumes "list_all valid_pepper es" "map_of (rev (map (map_prod id secret_of) es)) k = Some p"
  shows "valid_pepper (k, JString p)"
proof -
  have "(k, p) \<in> set (map (map_prod id secret_of) es)"
    using map_of_SomeD [OF assms(2)] by simp
  then obtain v where "(k, v) \<in> set es" "p = secret_of v" by auto
  then show ?thesis using assms(1)
    by (auto simp: list_all_iff valid_pepper_def secret_of_def split: js_value.splits dest!: bspec)
qed

text \<open>
  \<^bold>\<open>C14.\<close> Construction succeeds exactly when every pepper entry is valid (a key id of 1 to 64
  alphabet characters, a well-formed secret of at least 32 octets) and the resulting engine is well
  formed: the active key is among the peppers, the two lifetimes are positive integers and the grace
  window is a non-negative integer, each taken from the configuration or its default. The engine
  keeps its own copy of the peppers. Every other configuration is rejected.
\<close>

theorem constructor_iff:
  "constructor config = Inr eng \<longleftrightarrow>
     list_all valid_pepper (pepper_entries config) \<and> engine_wf eng \<and>
     peppers eng = map_of (rev (map (map_prod id secret_of) (pepper_entries config))) \<and>
     activeKid eng = c_activeKid config \<and>
     or_default (c_absoluteTtlSeconds config) DEFAULT_ABSOLUTE_TTL = JInteger (absoluteTtl eng) \<and>
     or_default (c_idleTtlSeconds config) DEFAULT_IDLE_TTL = JInteger (idleTtl eng) \<and>
     or_default (c_reuseGraceSeconds config) DEFAULT_REUSE_GRACE = JInteger (reuseGrace eng)"
proof (cases "copy_peppers (pepper_entries config) Map.empty")
  case (Inl e)
  then show ?thesis using copy_peppers_Inr [of "pepper_entries config" Map.empty]
    by (auto simp: constructor_def pepper_entries_def [symmetric])
next
  case (Inr m)
  then have m: "list_all valid_pepper (pepper_entries config)"
    "m = map_of (rev (map (map_prod id secret_of) (pepper_entries config)))"
    using copy_peppers_Inr [of "pepper_entries config" Map.empty m] by auto
  have int: "isInteger n \<longleftrightarrow> n = JInteger (js_int n)" for n
    by (cases n) auto
  have "(\<forall>k p. m k = Some p \<longrightarrow> valid_pepper (k, JString p))"
    using copied_peppers_valid [OF m(1)] m(2) by blast
  then show ?thesis using m(1) m(2) [symmetric] Inr
    by (cases eng) (auto simp: constructor_def pepper_entries_def [symmetric] Let_def engine_wf_def int
        split: if_splits)
qed

end
