(* ===== verification/Memory_Store.thy ===== *)
theory Memory_Store
  imports Store
begin

text \<open>
  \<open>MemoryRefreshTokenStore\<close> of \<open>packages/typescript/src/index.ts\<close>. Its \<open>Map\<close> keeps insertion order,
  so it is an association list; an entry is updated in place and a new one goes to the end. The
  methods return copies (\<open>{ ...r }\<close>), so a caller never holds an alias of a stored row and the rows
  can be plain values. No method awaits between reading and writing: each is one atomic step.

  The interpretation \<open>memory\<close> discharges the contract \<open>token_store\<close> for it, with the invariant that
  keys are distinct and every row is stored under its own selector.
\<close>

type_synonym memory = "(jsstring \<times> TokenRecord) list"

definition mem_get :: "memory \<Rightarrow> jsstring \<Rightarrow> TokenRecord option" where
  "mem_get rows s = map_of rows s"

text \<open>Assignment through the reference that \<open>Map.get\<close> returned.\<close>

definition mem_update :: "jsstring \<Rightarrow> (TokenRecord \<Rightarrow> TokenRecord) \<Rightarrow> memory \<Rightarrow> memory" where
  "mem_update s f rows = upd_where (\<lambda>k _. k = s) f rows"

definition mem_findBySelector :: "memory \<Rightarrow> jsstring \<Rightarrow> (store_error + TokenRecord option) \<times> memory" where
  "mem_findBySelector rows s = (Inr (mem_get rows s), rows)"

definition mem_insert :: "memory \<Rightarrow> TokenRecord \<Rightarrow> (store_error + unit) \<times> memory" where
  "mem_insert rows r =
     (if mem_get rows (selector r) \<noteq> None then (Inl (DuplicateSelector (selector r)), rows)
      else (Inr (), rows @ [(selector r, r)]))"

definition mem_markRotated ::
  "memory \<Rightarrow> jsstring \<Rightarrow> TokenStatus \<Rightarrow> int \<Rightarrow> jsstring \<Rightarrow> (store_error + bool) \<times> memory" where
  "mem_markRotated rows s fromStatus t s' =
     (case mem_get rows s of
        None \<Rightarrow> (Inr False, rows)
      | Some r \<Rightarrow>
          if status r \<noteq> fromStatus then (Inr False, rows)
          else (Inr True, mem_update s
                  (\<lambda>r. r\<lparr>status := Rotated, rotatedAt := Some t, replacedBySelector := Some s'\<rparr>) rows))"

definition mem_revokeIfActive :: "memory \<Rightarrow> jsstring \<Rightarrow> (store_error + bool) \<times> memory" where
  "mem_revokeIfActive rows s =
     (case mem_get rows s of
        None \<Rightarrow> (Inr False, rows)
      | Some r \<Rightarrow>
          if status r \<noteq> Active then (Inr False, rows)
          else (Inr True, mem_update s (\<lambda>r. r\<lparr>status := Revoked\<rparr>) rows))"

text \<open>The loops of \<open>revokeFamily\<close> and \<open>revokeUser\<close>, with their counter.\<close>

fun mem_revoke_loop :: "(TokenRecord \<Rightarrow> bool) \<Rightarrow> nat \<Rightarrow> memory \<Rightarrow> nat \<times> memory" where
  "mem_revoke_loop P n [] = (n, [])"
| "mem_revoke_loop P n ((k, r) # rows) =
     (if P r \<and> status r \<noteq> Revoked
      then (case mem_revoke_loop P (n + 1) rows of (n', rest) \<Rightarrow> (n', (k, r\<lparr>status := Revoked\<rparr>) # rest))
      else (case mem_revoke_loop P n rows of (n', rest) \<Rightarrow> (n', (k, r) # rest)))"

definition mem_revokeFamily :: "memory \<Rightarrow> jsstring \<Rightarrow> (store_error + nat) \<times> memory" where
  "mem_revokeFamily rows f =
     (case mem_revoke_loop (\<lambda>r. familyId r = f) 0 rows of (n, rows') \<Rightarrow> (Inr n, rows'))"

definition mem_revokeUser :: "memory \<Rightarrow> jsstring \<Rightarrow> (store_error + nat) \<times> memory" where
  "mem_revokeUser rows u =
     (case mem_revoke_loop (\<lambda>r. userId r = u) 0 rows of (n, rows') \<Rightarrow> (Inr n, rows'))"

definition mem_all :: "memory \<Rightarrow> TokenRecord list" where
  "mem_all rows = map snd rows"

fun mem_delete_loop :: "int \<Rightarrow> nat \<Rightarrow> memory \<Rightarrow> nat \<times> memory" where
  "mem_delete_loop t n [] = (n, [])"
| "mem_delete_loop t n ((k, r) # rows) =
     (if t \<ge> familyExpiresAt r then mem_delete_loop t (n + 1) rows
      else (case mem_delete_loop t n rows of (n', rest) \<Rightarrow> (n', (k, r) # rest)))"

definition mem_deleteExpired :: "memory \<Rightarrow> int \<Rightarrow> nat \<times> memory" where
  "mem_deleteExpired rows t = mem_delete_loop t 0 rows"

definition memory_store :: "memory RefreshTokenStore" where
  "memory_store = \<lparr>
     findBySelector = mem_findBySelector,
     insert_record = mem_insert,
     markRotated = mem_markRotated,
     revokeIfActive = mem_revokeIfActive,
     revokeFamily = mem_revokeFamily,
     revokeUser = mem_revokeUser \<rparr>"

section \<open>The contract holds\<close>

definition mem_valid :: "memory \<Rightarrow> bool" where
  "mem_valid rows \<longleftrightarrow> distinct (map fst rows) \<and> list_all (\<lambda>(k, r). k = selector r) rows"

lemma mem_revoke_loop_eq:
  "mem_revoke_loop P n rows =
     (n + length (filter (\<lambda>(k, r). P r \<and> status r \<noteq> Revoked) rows),
      upd_where (\<lambda>k r. P r \<and> status r \<noteq> Revoked) revoke rows)"
proof (induction rows arbitrary: n)
  case (Cons kr rows)
  then show ?case by (cases kr) (simp add: upd_where_def revoke_def)
qed (simp add: upd_where_def)

lemma map_of_revoke_loop:
  "map_of (snd (mem_revoke_loop P n rows)) = revoke_where P (map_of rows)"
  by (auto simp: mem_revoke_loop_eq revoke_where_def upd_rows_def revoke_def fun_eq_iff
      intro!: option.map_cong0)

lemma count_revoke_loop:
  "distinct (map fst rows) \<Longrightarrow>
    fst (mem_revoke_loop P 0 rows) = card (revocable P (map_of rows))"
  by (simp add: mem_revoke_loop_eq length_filter_map_of revocable_def)

lemma list_all_upd_where:
  assumes "list_all (\<lambda>(k, r). k = selector r) rows" "\<And>r. selector (f r) = selector r"
  shows "list_all (\<lambda>(k, r). k = selector r) (upd_where P f rows)"
  using assms by (auto simp: list_all_iff upd_where_def)

lemma mem_valid_upd_where:
  "mem_valid rows \<Longrightarrow> (\<And>r. selector (f r) = selector r) \<Longrightarrow> mem_valid (upd_where P f rows)"
  by (simp add: mem_valid_def list_all_upd_where)

lemma mem_valid_revoke_loop: "mem_valid rows \<Longrightarrow> mem_valid (snd (mem_revoke_loop P n rows))"
  by (simp add: mem_revoke_loop_eq mem_valid_upd_where revoke_def)

lemma map_of_snoc:
  "map_of rows k = None \<Longrightarrow> map_of (rows @ [(k, v)]) = (map_of rows)(k \<mapsto> v)"
  by (auto simp: map_add_def fun_eq_iff split: option.splits)

lemmas mem_defs = memory_store_def mem_findBySelector_def mem_insert_def mem_markRotated_def
  mem_revokeIfActive_def mem_revokeFamily_def mem_revokeUser_def mem_get_def mem_update_def

interpretation memory: token_store memory_store map_of mem_valid
proof unfold_locales
  fix d :: memory and s :: jsstring
  show "findBySelector memory_store d s = (Inr (map_of d s), d)"
    by (simp add: mem_defs)
next
  fix d :: memory and r :: TokenRecord
  assume "mem_valid d" "map_of d (selector r) = None"
  then show "\<exists>d'. insert_record memory_store d r = (Inr (), d') \<and> mem_valid d' \<and>
      map_of d' = (map_of d)(selector r \<mapsto> r)"
    by (auto simp: mem_defs map_of_snoc mem_valid_def simp del: map_of_append)
next
  fix d :: memory and r r' :: TokenRecord
  assume "map_of d (selector r) = Some r'"
  then show "insert_record memory_store d r = (Inl (DuplicateSelector (selector r)), d)"
    by (simp add: mem_defs)
next
  fix d :: memory and s s' st t
  assume "mem_valid d"
  then show "\<exists>d'. markRotated memory_store d s st t s' = (Inr (has_status (map_of d) s st), d') \<and>
      mem_valid d' \<and> map_of d' = mark_rows s st t s' (map_of d)"
    by (cases "map_of d s")
       (auto simp: mem_defs has_status_def mark_rows_def rotate_to_def mem_valid_upd_where
         fun_eq_iff option.map_comp)
next
  fix d :: memory and s
  assume "mem_valid d"
  then show "\<exists>d'. revokeIfActive memory_store d s = (Inr (has_status (map_of d) s Active), d') \<and>
      mem_valid d' \<and> map_of d' = revoke_active s (map_of d)"
    by (cases "map_of d s")
       (auto simp: mem_defs has_status_def revoke_active_def revoke_def mem_valid_upd_where fun_eq_iff)
next
  fix d :: memory and f
  assume "mem_valid d"
  then show "\<exists>d'. revokeFamily memory_store d f =
      (Inr (card (revocable (\<lambda>r. familyId r = f) (map_of d))), d') \<and>
      mem_valid d' \<and> map_of d' = revoke_where (\<lambda>r. familyId r = f) (map_of d)"
    using mem_valid_revoke_loop [of d "\<lambda>r. familyId r = f" 0]
      map_of_revoke_loop [of "\<lambda>r. familyId r = f" 0 d]
      count_revoke_loop [of d "\<lambda>r. familyId r = f"]
    by (auto simp: mem_defs mem_valid_def split: prod.splits)
next
  fix d :: memory and u
  assume "mem_valid d"
  then show "\<exists>d'. revokeUser memory_store d u =
      (Inr (card (revocable (\<lambda>r. userId r = u) (map_of d))), d') \<and>
      mem_valid d' \<and> map_of d' = revoke_where (\<lambda>r. userId r = u) (map_of d)"
    using mem_valid_revoke_loop [of d "\<lambda>r. userId r = u" 0]
      map_of_revoke_loop [of "\<lambda>r. userId r = u" 0 d]
      count_revoke_loop [of d "\<lambda>r. userId r = u"]
    by (auto simp: mem_defs mem_valid_def split: prod.splits)
qed

text \<open>
  \<^bold>\<open>C20.\<close> The in-memory store implements the storage contract: whatever program of store calls runs
  on it, the outcome and the resulting contents are those of the abstract store.
\<close>

theorem memory_refines:
  assumes "mem_valid (db w)"
  shows "\<exists>w'. run memory_store p w =
      (fst (run spec_store p \<lparr>db = map_of (db w), entropy = entropy w, clock = clock w\<rparr>), w') \<and>
    mem_valid (db w') \<and> map_of (db w') =
      db (snd (run spec_store p \<lparr>db = map_of (db w), entropy = entropy w, clock = clock w\<rparr>))"
proof -
  obtain w' where w': "run memory_store p w = (fst (run spec_store p (memory.abs_world w)), w')" "mem_valid (db w')"
    "memory.abs_world w' = snd (run spec_store p (memory.abs_world w))"
    using memory.run_refines [of w p] assms by auto
  have "map_of (db w') = db (snd (run spec_store p (memory.abs_world w)))"
    using w'(3) [symmetric] by (simp add: memory.abs_world_def)
  then show ?thesis using w'(1,2) unfolding memory.abs_world_def by blast
qed

definition empty_world :: "memory world" where
  "empty_world = \<lparr>db = [], entropy = (\<lambda>_. 7), clock = 0\<rparr>"

theorem memory_refines_witness:
  "\<exists>w'. run memory_store (RevokeUser (js ''alice'') Return :: (unit, nat) prog) empty_world =
      (fst (run spec_store (RevokeUser (js ''alice'') Return :: (unit, nat) prog)
        \<lparr>db = map_of (db empty_world), entropy = entropy empty_world, clock = clock empty_world\<rparr>), w') \<and>
    mem_valid (db w') \<and> map_of (db w') =
      db (snd (run spec_store (RevokeUser (js ''alice'') Return :: (unit, nat) prog)
        \<lparr>db = map_of (db empty_world), entropy = entropy empty_world, clock = clock empty_world\<rparr>))"
  by (rule memory_refines) (simp add: mem_valid_def empty_world_def)

end
