(* ===== verification/Interleaving.thy ===== *)
theory Interleaving
  imports Memory_Store
begin

text \<open>
  Operations that run concurrently. An operation gives up control exactly where the source awaits the
  store, so a pool of operations advances one effect at a time, in any order, on one shared store;
  the clock may move forward and new operations may start at any moment.
\<close>

section \<open>One effect at a time\<close>

text \<open>
  \<open>first_step\<close> performs the first effect of an operation: \<open>None\<close> when there is nothing left to do,
  \<open>Inl\<close> when the store rejected the call.
\<close>

fun first_step ::
  "'s RefreshTokenStore \<Rightarrow> ('e, 'a) prog \<Rightarrow> 's world \<Rightarrow> ((store_error + ('e, 'a) prog) \<times> 's world) option" where
  "first_step S (Return a) w = None"
| "first_step S (Throw e) w = None"
| "first_step S (FindBySelector s k) w =
     (case findBySelector S (db w) s of (x, d) \<Rightarrow> Some (map_sum id k x, w\<lparr>db := d\<rparr>))"
| "first_step S (Insert r p) w =
     (case insert_record S (db w) r of (x, d) \<Rightarrow> Some (map_sum id (\<lambda>_. p) x, w\<lparr>db := d\<rparr>))"
| "first_step S (MarkRotated s st t s' k) w =
     (case markRotated S (db w) s st t s' of (x, d) \<Rightarrow> Some (map_sum id k x, w\<lparr>db := d\<rparr>))"
| "first_step S (RevokeIfActive s k) w =
     (case revokeIfActive S (db w) s of (x, d) \<Rightarrow> Some (map_sum id k x, w\<lparr>db := d\<rparr>))"
| "first_step S (RevokeFamily f k) w =
     (case revokeFamily S (db w) f of (x, d) \<Rightarrow> Some (map_sum id k x, w\<lparr>db := d\<rparr>))"
| "first_step S (RevokeUser u k) w =
     (case revokeUser S (db w) u of (x, d) \<Rightarrow> Some (map_sum id k x, w\<lparr>db := d\<rparr>))"
| "first_step S (Clock k) w = Some (Inr (k (clock w)), w)"
| "first_step S (RandomBytes n k) w =
     (case randomBytes n (entropy w) of (bs, \<rho>) \<Rightarrow> Some (Inr (k bs), w\<lparr>entropy := \<rho>\<rparr>))"

text \<open>\<open>run\<close> is \<open>first_step\<close> repeated until the operation ends.\<close>

lemma run_first_step:
  "run S p w =
     (case first_step S p w of
        None \<Rightarrow> (case p of Return a \<Rightarrow> (Value a, w) | Throw e \<Rightarrow> (Thrown e, w) | _ \<Rightarrow> undefined)
      | Some (Inl e, w') \<Rightarrow> (Rejected e, w')
      | Some (Inr p', w') \<Rightarrow> run S p' w')"
  by (cases p) (auto split: prod.splits sum.splits)

type_synonym ('e, 'a) thread = "store_error + ('e, 'a) prog"
type_synonym ('e, 'a, 's) pool = "('e, 'a) thread list \<times> 's world"

inductive interleave ::
  "'s RefreshTokenStore \<Rightarrow> (('e, 'a) prog \<Rightarrow> bool) \<Rightarrow> ('e, 'a, 's) pool \<Rightarrow> ('e, 'a, 's) pool \<Rightarrow> bool"
  for S Ops where
  interleave_step: "i < length ts \<Longrightarrow> ts ! i = Inr p \<Longrightarrow> first_step S p w = Some (t', w') \<Longrightarrow>
     interleave S Ops (ts, w) (ts[i := t'], w')"
| interleave_tick: "clock w \<le> t \<Longrightarrow> interleave S Ops (ts, w) (ts, w\<lparr>clock := t\<rparr>)"
| interleave_spawn: "Ops p \<Longrightarrow> interleave S Ops (ts, w) (ts @ [Inr p], w)"

inductive_cases interleaveE: "interleave S Ops (ts, w) c"

abbreviation interleaves where "interleaves S Ops \<equiv> (interleave S Ops)\<^sup>*\<^sup>*"

text \<open>Sequential execution is the interleaving of a single thread.\<close>

fun thread_of :: "('e, 'a) outcome \<Rightarrow> ('e, 'a) thread" where
  "thread_of (Value a) = Inr (Return a)"
| "thread_of (Thrown e) = Inr (Throw e)"
| "thread_of (Rejected e) = Inl e"

lemma interleave_single:
  assumes "first_step S p w = Some (t, w')" "interleaves S Ops ([t], w') c"
  shows "interleaves S Ops ([Inr p], w) c"
proof -
  have "interleave S Ops ([Inr p], w) ([t], w')"
    using interleave_step [of 0 "[Inr p]" p S w t w' Ops] assms(1) by simp
  then show ?thesis using assms(2) by (rule converse_rtranclp_into_rtranclp)
qed

lemma interleaves_answer:
  assumes "first_step S p w = Some (map_sum id k x, w')"
    and "\<And>a. x = Inr a \<Longrightarrow> run S p w = run S (k a) w'"
    and "\<And>e. x = Inl e \<Longrightarrow> run S p w = (Rejected e, w')"
    and "\<And>a. interleaves S Ops ([Inr (k a)], w') ([thread_of (fst (run S (k a) w'))], snd (run S (k a) w'))"
  shows "interleaves S Ops ([Inr p], w) ([thread_of (fst (run S p w))], snd (run S p w))"
  using assms by (cases x) (auto intro: interleave_single)

lemma run_interleaves:
  "interleaves S Ops ([Inr p], w) ([thread_of (fst (run S p w))], snd (run S p w))"
proof (induction p arbitrary: w)
  case (FindBySelector s k)
  show ?case by (cases "findBySelector S (db w) s") (rule interleaves_answer, auto intro: FindBySelector)
next
  case (Insert r p)
  show ?case by (cases "insert_record S (db w) r") (rule interleaves_answer, auto intro: Insert)
next
  case (MarkRotated s st t s' k)
  show ?case by (cases "markRotated S (db w) s st t s'") (rule interleaves_answer, auto intro: MarkRotated)
next
  case (RevokeIfActive s k)
  show ?case by (cases "revokeIfActive S (db w) s") (rule interleaves_answer, auto intro: RevokeIfActive)
next
  case (RevokeFamily f k)
  show ?case by (cases "revokeFamily S (db w) f") (rule interleaves_answer, auto intro: RevokeFamily)
next
  case (RevokeUser u k)
  show ?case by (cases "revokeUser S (db w) u") (rule interleaves_answer, auto intro: RevokeUser)
next
  case (Clock k)
  show ?case by (rule interleave_single) (auto intro: Clock)
next
  case (RandomBytes n k)
  show ?case by (rule interleave_single) (auto simp: randomBytes_def intro: RandomBytes)
qed auto

text \<open>Every step of a pool over an implementation is a step of the same pool over the abstract store.\<close>

context token_store
begin

lemma first_step_refines:
  assumes "valid (db w)"
  shows "\<exists>w'. first_step S p w =
      map_option (\<lambda>(t, _). (t, w')) (first_step spec_store p (abs_world w)) \<and>
    (first_step spec_store p (abs_world w) \<noteq> None \<longrightarrow> valid (db w') \<and>
      abs_world w' = snd (the (first_step spec_store p (abs_world w))))"
proof (cases p)
  case (FindBySelector s k)
  then show ?thesis using assms by (auto simp: find_law spec_store_def abs_world_def)
next
  case (Insert r q)
  show ?thesis
  proof (cases "contents (db w) (selector r)")
    case None
    then obtain d where "insert_record S (db w) r = (Inr (), d)" "valid d"
      "contents d = (contents (db w))(selector r \<mapsto> r)"
      using insert_fresh [OF assms] by blast
    then show ?thesis using Insert None
      by (auto simp: spec_store_def abs_world_def intro!: exI [of _ "w\<lparr>db := d\<rparr>"])
  next
    case (Some r')
    then show ?thesis using insert_duplicate [OF assms Some] Insert assms
      by (auto simp: spec_store_def abs_world_def)
  qed
next
  case (MarkRotated s st t s' k)
  obtain d where "markRotated S (db w) s st t s' = (Inr (has_status (contents (db w)) s st), d)"
    "valid d" "contents d = mark_rows s st t s' (contents (db w))"
    using mark_law [OF assms] by blast
  then show ?thesis using MarkRotated
    by (auto simp: spec_store_def abs_world_def intro!: exI [of _ "w\<lparr>db := d\<rparr>"])
next
  case (RevokeIfActive s k)
  obtain d where "revokeIfActive S (db w) s = (Inr (has_status (contents (db w)) s Active), d)"
    "valid d" "contents d = revoke_active s (contents (db w))"
    using revoke_active_law [OF assms] by blast
  then show ?thesis using RevokeIfActive
    by (auto simp: spec_store_def abs_world_def intro!: exI [of _ "w\<lparr>db := d\<rparr>"])
next
  case (RevokeFamily f k)
  obtain d where "revokeFamily S (db w) f =
      (Inr (card (revocable (\<lambda>r. familyId r = f) (contents (db w)))), d)"
    "valid d" "contents d = revoke_where (\<lambda>r. familyId r = f) (contents (db w))"
    using revoke_family_law [OF assms] by blast
  then show ?thesis using RevokeFamily
    by (auto simp: spec_store_def abs_world_def intro!: exI [of _ "w\<lparr>db := d\<rparr>"])
next
  case (RevokeUser u k)
  obtain d where "revokeUser S (db w) u =
      (Inr (card (revocable (\<lambda>r. userId r = u) (contents (db w)))), d)"
    "valid d" "contents d = revoke_where (\<lambda>r. userId r = u) (contents (db w))"
    using revoke_user_law [OF assms] by blast
  then show ?thesis using RevokeUser
    by (auto simp: spec_store_def abs_world_def intro!: exI [of _ "w\<lparr>db := d\<rparr>"])
next
  case (Clock k)
  then show ?thesis using assms by (auto simp: abs_world_def)
next
  case (RandomBytes n k)
  then show ?thesis using assms
    by (auto simp: abs_world_def randomBytes_def intro!: exI [of _ "w\<lparr>entropy := snd (randomBytes n (entropy w))\<rparr>"])
qed auto

lemma interleave_refines:
  assumes "interleave S Ops (ts, w) (ts', w')" "valid (db w)"
  shows "interleave spec_store Ops (ts, abs_world w) (ts', abs_world w') \<and> valid (db w')"
  using assms(1)
proof cases
  case (interleave_step i p t')
  then obtain a where "first_step spec_store p (abs_world w) = Some (t', abs_world w')" "valid (db w')"
    using first_step_refines [OF assms(2), of p]
    by (cases "first_step spec_store p (abs_world w)") auto
  then show ?thesis using interleave_step interleave.interleave_step by metis
next
  case (interleave_tick t)
  then show ?thesis using assms(2) interleave.interleave_tick [of "abs_world w" t]
    by (simp add: abs_world_def)
next
  case (interleave_spawn p)
  then show ?thesis using assms(2) by (simp add: interleave.interleave_spawn)
qed

lemma interleaves_refine:
  assumes "interleaves S Ops c c'" "valid (db (snd c))"
  shows "interleaves spec_store Ops (fst c, abs_world (snd c)) (fst c', abs_world (snd c')) \<and>
    valid (db (snd c'))"
  using assms
proof (induction rule: rtranclp_induct)
  case (step c' c'')
  then show ?case using interleave_refines [of Ops "fst c'" "snd c'" "fst c''" "snd c''"]
    by (auto intro: rtranclp.rtrancl_into_rtrancl)
qed simp

end

end
