(* ===== verification/Discipline.thy ===== *)
theory Discipline
  imports Interleaving
begin

text \<open>
  The discipline that every operation of the engine follows, and what it gives whatever the
  interleaving.

  An operation may rely on the records it has seen (its \<^emph>\<open>knowledge\<close>): rows only move forward in the
  order \<open>later\<close>, so what it has seen stays true in that sense. In return it inserts only well-formed
  active records, and links a record it has seen to a successor it has seen. \<open>disciplined\<close> checks
  that along every path of the program's tree, and checks the value the program returns against a
  postcondition over its knowledge.
\<close>

section \<open>Well-formed rows, and how they may change\<close>

instantiation TokenStatus :: linorder
begin

fun rank :: "TokenStatus \<Rightarrow> nat" where
  "rank Active = 0"
| "rank Rotated = 1"
| "rank Revoked = 2"

definition less_eq_TokenStatus :: "TokenStatus \<Rightarrow> TokenStatus \<Rightarrow> bool" where
  "less_eq_TokenStatus a b \<longleftrightarrow> rank a \<le> rank b"

definition less_TokenStatus :: "TokenStatus \<Rightarrow> TokenStatus \<Rightarrow> bool" where
  "less_TokenStatus a b \<longleftrightarrow> rank a < rank b"

instance
proof
  fix a b :: TokenStatus
  show "a \<le> b \<Longrightarrow> b \<le> a \<Longrightarrow> a = b"
    by (cases a; cases b) (simp_all add: less_eq_TokenStatus_def)
qed (auto simp: less_eq_TokenStatus_def less_TokenStatus_def)

end

lemma status_order [simp]:
  "Active \<le> st" "st \<le> Revoked" "Revoked \<le> st \<longleftrightarrow> st = Revoked" "st \<le> Active \<longleftrightarrow> st = Active"
  "Rotated \<le> st \<longleftrightarrow> st \<noteq> Active"
  by (cases st; simp add: less_eq_TokenStatus_def)+

text \<open>The fields that no store method changes.\<close>

definition core :: "TokenRecord \<Rightarrow> TokenRecord" where
  "core r = r\<lparr>status := Active, rotatedAt := None, replacedBySelector := None\<rparr>"

lemma core_fields:
  "core r = core r' \<Longrightarrow> selector r = selector r' \<and> verifierHash r = verifierHash r' \<and> kid r = kid r' \<and>
    familyId r = familyId r' \<and> generation r = generation r' \<and> userId r = userId r' \<and>
    deviceIdHash r = deviceIdHash r' \<and> createdAt r = createdAt r' \<and>
    familyExpiresAt r = familyExpiresAt r' \<and> idleExpiresAt r = idleExpiresAt r'"
  by (cases r; cases r') (simp add: core_def)

lemma selector_simps [simp]:
  "selector (revoke r) = selector r" "selector (rotate_to t s r) = selector r"
  by (simp_all add: revoke_def rotate_to_def)

lemma core_simps [simp]:
  "core (revoke r) = core r" "core (rotate_to t s r) = core r"
  by (simp_all add: core_def revoke_def rotate_to_def)

text \<open>A record later in its life: same immutable fields, a status not earlier, a recorded
  rotation time unchanged.\<close>

definition later :: "TokenRecord \<Rightarrow> TokenRecord \<Rightarrow> bool" where
  "later r r' \<longleftrightarrow> core r = core r' \<and> status r \<le> status r' \<and>
     (rotatedAt r \<noteq> None \<longrightarrow> rotatedAt r' = rotatedAt r)"

lemma later_refl [simp]: "later r r"
  by (simp add: later_def)

lemma later_trans [trans]: "later a b \<Longrightarrow> later b c \<Longrightarrow> later a c"
  by (auto simp: later_def)

definition progress :: "rows \<Rightarrow> rows \<Rightarrow> bool" where
  "progress m m' \<longleftrightarrow> (\<forall>s r. m s = Some r \<longrightarrow> (\<exists>r'. m' s = Some r' \<and> later r r'))"

lemma progress_refl [simp]: "progress m m"
  by (auto simp: progress_def)

lemma progress_trans [trans]: "progress a b \<Longrightarrow> progress b c \<Longrightarrow> progress a c"
  unfolding progress_def by (meson later_trans)

text \<open>A successor: the same family, user and absolute deadline, one generation on.\<close>

definition linked :: "TokenRecord \<Rightarrow> TokenRecord \<Rightarrow> bool" where
  "linked r r' \<longleftrightarrow> familyId r' = familyId r \<and> userId r' = userId r \<and>
     familyExpiresAt r' = familyExpiresAt r \<and> generation r' = generation r + 1"

lemma linked_core: "linked r r' \<Longrightarrow> core r = core a \<Longrightarrow> core r' = core b \<Longrightarrow> linked a b"
  by (auto simp: linked_def dest!: core_fields)

definition rec_wf :: "TokenRecord \<Rightarrow> bool" where
  "rec_wf r \<longleftrightarrow> valid_selector (selector r) \<and> is_digest (verifierHash r) \<and>
     (case deviceIdHash r of None \<Rightarrow> True | Some h \<Rightarrow> is_digest h) \<and>
     0 \<le> generation r \<and> idleExpiresAt r \<le> familyExpiresAt r \<and>
     (status r = Active \<longrightarrow> rotatedAt r = None) \<and>
     (status r = Rotated \<longrightarrow> rotatedAt r \<noteq> None) \<and>
     (rotatedAt r = None \<longleftrightarrow> replacedBySelector r = None)"

definition rows_wf :: "rows \<Rightarrow> bool" where
  "rows_wf m \<longleftrightarrow> (\<forall>s r. m s = Some r \<longrightarrow> selector r = s \<and> rec_wf r \<and>
     (\<forall>s'. replacedBySelector r = Some s' \<longrightarrow> (\<exists>r'. m s' = Some r' \<and> linked r r')))"

lemma rows_wfD:
  assumes "rows_wf m" "m s = Some r"
  shows "selector r = s" "rec_wf r"
    "replacedBySelector r = Some s' \<Longrightarrow> \<exists>r'. m s' = Some r' \<and> linked r r'"
  using assms by (auto simp: rows_wf_def)

lemma rec_wf_revoke [simp]: "rec_wf r \<Longrightarrow> rec_wf (revoke r)"
  by (auto simp: rec_wf_def revoke_def)

lemma rec_wf_rotate_to [simp]: "rec_wf r \<Longrightarrow> rec_wf (rotate_to t s r)"
  by (auto simp: rec_wf_def rotate_to_def)

lemma later_revoke [simp]: "later r (revoke r)"
  by (simp add: later_def) (simp add: revoke_def)

lemma later_rotate_to:
  "rec_wf r \<Longrightarrow> status r = Active \<or> status r = Rotated \<and> rotatedAt r = Some t \<Longrightarrow>
    later r (rotate_to t s r)"
  by (auto simp: later_def rec_wf_def) (auto simp: rotate_to_def)

text \<open>
  Rows updated pointwise: if every row only moves forward and links are kept, well-formedness is kept.
\<close>

lemma progress_upd_rows: "(\<And>r. later r (f r)) \<Longrightarrow> progress m (upd_rows P f m)"
  by (auto simp: progress_def upd_rows_def)

lemma rows_wf_upd_rows_revoke:
  assumes "rows_wf m"
  shows "rows_wf (upd_rows P revoke m)"
  unfolding rows_wf_def
proof (intro allI impI, goal_cases)
  case (1 s r)
  then obtain q where q: "m s = Some q" "r = (if P q then revoke q else q)"
    by (auto simp: upd_rows_def)
  have "\<exists>r'. upd_rows P revoke m s' = Some r' \<and> linked r r'"
    if "replacedBySelector r = Some s'" for s'
  proof -
    have "replacedBySelector q = Some s'" using that q by (auto simp: revoke_def split: if_splits)
    then obtain q' where "m s' = Some q'" "linked q q'" using rows_wfD(3) [OF assms q(1)] by blast
    then show ?thesis using q by (auto simp: upd_rows_def linked_def revoke_def)
  qed
  then show ?case using rows_wfD [OF assms q(1)] q by auto
qed

lemma rows_wf_update:
  assumes "rows_wf m" "m s = Some r" "core r' = core r" "rec_wf r'"
    "\<And>s'. replacedBySelector r' = Some s' \<Longrightarrow> \<exists>q. m s' = Some q \<and> linked r' q"
  shows "rows_wf (m(s \<mapsto> r'))"
  unfolding rows_wf_def
proof (intro allI impI, goal_cases)
  case (1 k q)
  have lift: "\<exists>b. (m(s \<mapsto> r')) k' = Some b \<and> linked q b" if "m k' = Some a" "linked q a" for k' a
    using that assms(2,3) linked_core [of q a q r'] by (cases "k' = s") auto
  show ?case
  proof (cases "k = s")
    case True
    then have "q = r'" using 1 by simp
    have "selector q = k" using \<open>q = r'\<close> True rows_wfD(1) [OF assms(1,2)] core_fields [OF assms(3)] by simp
    moreover have "\<exists>b. (m(s \<mapsto> r')) k' = Some b \<and> linked q b" if "replacedBySelector q = Some k'" for k'
      using assms(5) that \<open>q = r'\<close> lift by blast
    ultimately show ?thesis using assms(4) \<open>q = r'\<close> by blast
  next
    case False
    then have "m k = Some q" using 1 by simp
    then show ?thesis using rows_wfD [OF assms(1)] lift by blast
  qed
qed

lemma rows_wf_insert:
  assumes "rows_wf m" "m (selector r) = None" "rec_wf r" "replacedBySelector r = None"
  shows "rows_wf (m(selector r \<mapsto> r))"
  using assms by (fastforce simp: rows_wf_def)

section \<open>Disciplined programs\<close>

definition knows :: "rows \<Rightarrow> TokenRecord set \<Rightarrow> bool" where
  "knows m K \<longleftrightarrow> (\<forall>r\<in>K. \<exists>r'. m (selector r) = Some r' \<and> later r r')"

lemma knows_progress: "knows m K \<Longrightarrow> progress m m' \<Longrightarrow> knows m' K"
  unfolding knows_def progress_def by (meson later_trans)

definition may_link :: "TokenRecord set \<Rightarrow> jsstring \<Rightarrow> TokenStatus \<Rightarrow> int \<Rightarrow> jsstring \<Rightarrow> bool" where
  "may_link K s st t s' \<longleftrightarrow> (\<exists>r\<in>K. \<exists>r'\<in>K. selector r = s \<and> selector r' = s' \<and> linked r r' \<and>
     (st = Active \<or> st = Rotated \<and> rotatedAt r = Some t))"

primrec disciplined ::
  "(TokenRecord set \<Rightarrow> 'a \<Rightarrow> bool) \<Rightarrow> TokenRecord set \<Rightarrow> ('e, 'a) prog \<Rightarrow> bool" where
  "disciplined Q K (Return a) = Q K a"
| "disciplined Q K (Throw e) = True"
| "disciplined Q K (FindBySelector s k) =
     (\<forall>x. (\<forall>r. x = Some r \<longrightarrow> selector r = s \<and> rec_wf r) \<longrightarrow> disciplined Q (K \<union> set_option x) (k x))"
| "disciplined Q K (Insert r p) =
     (rec_wf r \<and> status r = Active \<and> disciplined Q (insert r K) p)"
| "disciplined Q K (MarkRotated s st t s' k) =
     (may_link K s st t s' \<and> (\<forall>b. disciplined Q K (k b)))"
| "disciplined Q K (RevokeIfActive s k) = (\<forall>b. disciplined Q K (k b))"
| "disciplined Q K (RevokeFamily f k) = (\<forall>n. disciplined Q K (k n))"
| "disciplined Q K (RevokeUser u k) = (\<forall>n. disciplined Q K (k n))"
| "disciplined Q K (Clock k) = (\<forall>t. disciplined Q K (k t))"
| "disciplined Q K (RandomBytes n k) = (\<forall>bs. length bs = n \<longrightarrow> disciplined Q K (k bs))"

text \<open>The effects on the abstract store, one by one.\<close>

lemma mark_rows_step:
  assumes "rows_wf m" "knows m K" "may_link K s st t s'"
  shows "rows_wf (mark_rows s st t s' m)" "progress m (mark_rows s st t s' m)"
proof -
  obtain a b where ab: "a \<in> K" "b \<in> K" "selector a = s" "selector b = s'" "linked a b"
    "st = Active \<or> st = Rotated \<and> rotatedAt a = Some t"
    using assms(3) by (auto simp: may_link_def)
  obtain a' where a: "m s = Some a'" "later a a'" using assms(2) ab(1,3) unfolding knows_def by blast
  obtain b' where b: "m s' = Some b'" "later b b'" using assms(2) ab(2,4) unfolding knows_def by blast
  note m = a b
  have "linked a' b'" using linked_core [OF ab(5)] m by (auto simp: later_def)
  then have link: "linked (rotate_to t s' a') b'" by (simp add: linked_def rotate_to_def)
  have "rows_wf (m(s \<mapsto> rotate_to t s' a'))"
    by (rule rows_wf_update [OF assms(1) m(1)])
       (use rows_wfD [OF assms(1) m(1)] m(3) link in \<open>auto simp: rotate_to_def [of t s' a']\<close>,
        simp_all add: rotate_to_def [symmetric])
  then show "rows_wf (mark_rows s st t s' m)" using m(1) assms(1) by (simp add: mark_rows_def)
  show "progress m (mark_rows s st t s' m)"
  proof (cases "status a' = st")
    case True
    have "later a' (rotate_to t s' a')"
      by (rule later_rotate_to) (use rows_wfD(2) [OF assms(1) m(1)] ab(6) True m(2) in \<open>auto simp: later_def\<close>)
    then show ?thesis using m(1) by (auto simp: mark_rows_def progress_def)
  next
    case False
    then show ?thesis using m(1) by (simp add: mark_rows_def has_status_def)
  qed
qed

lemma revoke_active_step:
  assumes "rows_wf m"
  shows "rows_wf (revoke_active s m)" "progress m (revoke_active s m)"
proof -
  have "revoke_active s m = upd_rows (\<lambda>r. selector r = s \<and> status r = Active) revoke m"
  proof
    fix k
    show "revoke_active s m k = upd_rows (\<lambda>r. selector r = s \<and> status r = Active) revoke m k"
      using rows_wfD(1) [OF assms, of k]
      by (cases "m k") (auto simp: revoke_active_def has_status_def upd_rows_def)
  qed
  then show "rows_wf (revoke_active s m)" "progress m (revoke_active s m)"
    using assms by (simp_all add: rows_wf_upd_rows_revoke progress_upd_rows)
qed

lemma revoke_where_step:
  assumes "rows_wf m"
  shows "rows_wf (revoke_where P m)" "progress m (revoke_where P m)"
  using assms by (simp_all add: revoke_where_def rows_wf_upd_rows_revoke progress_upd_rows)

lemma insert_step:
  assumes "rows_wf m" "m (selector r) = None" "rec_wf r" "status r = Active"
  shows "rows_wf (m(selector r \<mapsto> r))" "progress m (m(selector r \<mapsto> r))"
  using assms rows_wf_insert [of m r] by (auto simp: rec_wf_def progress_def)

text \<open>What a thread of a pool may assume of the store, and what a whole pool satisfies.\<close>

definition thread_ok :: "(TokenRecord set \<Rightarrow> 'a \<Rightarrow> bool) \<Rightarrow> rows \<Rightarrow> ('e, 'a) thread \<Rightarrow> bool" where
  "thread_ok Q m t \<longleftrightarrow> (\<forall>p. t = Inr p \<longrightarrow> (\<exists>K. knows m K \<and> disciplined Q K p))"

lemma thread_ok_progress: "thread_ok Q m t \<Longrightarrow> progress m m' \<Longrightarrow> thread_ok Q m' t"
  using knows_progress [of m _ m'] by (fastforce simp: thread_ok_def)

lemma thread_ok_Inl [simp]: "thread_ok Q m (Inl e)"
  by (simp add: thread_ok_def)

lemma thread_okI: "knows m K \<Longrightarrow> disciplined Q K p \<Longrightarrow> thread_ok Q m (Inr p)"
  by (auto simp: thread_ok_def)

lemma first_step_disciplined:
  assumes wf: "rows_wf (db w)" and K: "knows (db w) K" and d: "disciplined Q K p"
    and step: "first_step spec_store p w = Some (t, w')"
  shows "rows_wf (db w') \<and> progress (db w) (db w') \<and> thread_ok Q (db w') t"
proof (cases p)
  case (FindBySelector s k)
  have "knows (db w) (K \<union> set_option (db w s))"
    using K rows_wfD(1) [OF wf] by (cases "db w s") (auto simp: knows_def)
  moreover have "disciplined Q (K \<union> set_option (db w s)) (k (db w s))"
    using d FindBySelector rows_wfD(1,2) [OF wf, of s] by auto
  ultimately show ?thesis using step FindBySelector wf by (auto simp: spec_store_def intro: thread_okI)
next
  case (Insert r q)
  show ?thesis
  proof (cases "db w (selector r)")
    case None
    then have pr: "progress (db w) ((db w)(selector r \<mapsto> r))" "rows_wf ((db w)(selector r \<mapsto> r))"
      using insert_step [OF wf None] d Insert by auto
    then have "knows ((db w)(selector r \<mapsto> r)) (insert r K)"
      using knows_progress [OF K pr(1)] by (simp add: knows_def)
    then show ?thesis using step Insert None d pr by (auto simp: spec_store_def intro: thread_okI)
  next
    case (Some r')
    then show ?thesis using step Insert wf by (auto simp: spec_store_def)
  qed
next
  case (MarkRotated s st u s' k)
  then show ?thesis using step d knows_progress [OF K] mark_rows_step [OF wf K, of s st u s']
    by (auto simp: spec_store_def intro!: thread_okI)
next
  case (RevokeIfActive s k)
  then show ?thesis using step d knows_progress [OF K] revoke_active_step [OF wf, of s]
    by (auto simp: spec_store_def intro!: thread_okI)
next
  case (RevokeFamily f k)
  then show ?thesis using step d knows_progress [OF K] revoke_where_step [OF wf, of "\<lambda>r. familyId r = f"]
    by (auto simp: spec_store_def intro!: thread_okI)
next
  case (RevokeUser u k)
  then show ?thesis using step d knows_progress [OF K] revoke_where_step [OF wf, of "\<lambda>r. userId r = u"]
    by (auto simp: spec_store_def intro!: thread_okI)
next
  case (RandomBytes n k)
  then show ?thesis using step d K wf by (auto simp: randomBytes_def intro!: thread_okI)
qed (use step d K wf in \<open>auto intro!: thread_okI\<close>)

definition pool_ok :: "(TokenRecord set \<Rightarrow> 'a \<Rightarrow> bool) \<Rightarrow> ('e, 'a, rows) pool \<Rightarrow> bool" where
  "pool_ok Q c \<longleftrightarrow> rows_wf (db (snd c)) \<and> list_all (thread_ok Q (db (snd c))) (fst c)"

lemma interleave_disciplined:
  assumes "interleave spec_store Ops c c'" "pool_ok Q c" "\<And>p. Ops p \<Longrightarrow> disciplined Q {} p"
  shows "pool_ok Q c' \<and> progress (db (snd c)) (db (snd c'))"
  using assms(1)
proof cases
  case (interleave_step i ts p w t' w')
  then have "thread_ok Q (db w) (Inr p)" "rows_wf (db w)"
    using assms(2) by (auto simp: pool_ok_def list_all_length dest!: spec [of _ i])
  then have st: "rows_wf (db w')" "progress (db w) (db w')" "thread_ok Q (db w') t'"
    using first_step_disciplined interleave_step(5) unfolding thread_ok_def [of Q "db w"] by blast+
  moreover have "list_all (thread_ok Q (db w')) ts"
    using assms(2) interleave_step thread_ok_progress [OF _ st(2)] by (auto simp: pool_ok_def list_all_iff)
  ultimately show ?thesis using interleave_step
    by (auto simp: pool_ok_def list_all_iff dest!: set_update_subset_insert [THEN subsetD])
next
  case (interleave_tick w t ts)
  then show ?thesis using assms(2) by (auto simp: pool_ok_def)
next
  case (interleave_spawn p ts w)
  then have "thread_ok Q (db w) (Inr p)" using assms(3) by (intro thread_okI [of _ "{}"]) (auto simp: knows_def)
  then show ?thesis using assms(2) interleave_spawn by (auto simp: pool_ok_def)
qed

lemma interleaves_disciplined:
  assumes "interleaves spec_store Ops c c'" "pool_ok Q c" "\<And>p. Ops p \<Longrightarrow> disciplined Q {} p"
  shows "pool_ok Q c' \<and> progress (db (snd c)) (db (snd c'))"
  using assms(1)
proof (induction rule: rtranclp_induct)
  case (step c' c'')
  then show ?case using interleave_disciplined [OF step(2) _ assms(3)] progress_trans by blast
qed (simp add: assms(2))

text \<open>
  Invariants with ghost state: every thread has a ghost that restricts what its program may still do,
  the ghosts together satisfy a property of the store, and a step of one thread changes only that
  thread's ghost.
\<close>

locale ghost_invariant =
  fixes Q :: "TokenRecord set \<Rightarrow> 'a \<Rightarrow> bool"
    and ok :: "rows \<Rightarrow> 'g list \<Rightarrow> bool"
    and follows :: "'g \<Rightarrow> ('e, 'a) prog \<Rightarrow> bool"
    and initial :: 'g
  assumes step_ok: "rows_wf (db w) \<Longrightarrow> knows (db w) K \<Longrightarrow> disciplined Q K p \<Longrightarrow>
      ok (db w) gs \<Longrightarrow> i < length gs \<Longrightarrow> follows (gs ! i) p \<Longrightarrow>
      first_step spec_store p w = Some (t, w') \<Longrightarrow>
      \<exists>g. ok (db w') (gs[i := g]) \<and> (\<forall>p'. t = Inr p' \<longrightarrow> follows g p')"
    and spawn_ok: "ok m gs \<Longrightarrow> ok m (gs @ [initial])"
    and empty_ok: "ok m []"
begin

definition holds :: "('e, 'a, rows) pool \<Rightarrow> 'g list \<Rightarrow> bool" where
  "holds c gs \<longleftrightarrow> ok (db (snd c)) gs \<and> list_all2 (\<lambda>g t. \<forall>p. t = Inr p \<longrightarrow> follows g p) gs (fst c)"

lemma interleave_holds:
  assumes "interleave spec_store Ops c c'" "pool_ok Q c" "holds c gs"
    "\<And>p. Ops p \<Longrightarrow> follows initial p"
  shows "\<exists>gs'. holds c' gs'"
  using assms(1)
proof cases
  case (interleave_step i ts p w t' w')
  have gs: "ok (db w) gs" "list_all2 (\<lambda>g t. \<forall>p. t = Inr p \<longrightarrow> follows g p) gs ts"
    using assms(3) interleave_step by (auto simp: holds_def)
  have i: "i < length gs" "follows (gs ! i) p"
    using gs(2) interleave_step by (auto simp: list_all2_conv_all_nth)
  have "thread_ok Q (db w) (Inr p)" and wf: "rows_wf (db w)"
    using assms(2) interleave_step by (auto simp: pool_ok_def list_all_length dest!: spec [of _ i])
  then obtain K where "knows (db w) K" "disciplined Q K p" by (auto simp: thread_ok_def)
  then obtain g where "ok (db w') (gs[i := g])" "\<forall>p. t' = Inr p \<longrightarrow> follows g p"
    using step_ok [OF wf _ _ gs(1) i interleave_step(5)] by auto
  then show ?thesis using gs(2) interleave_step(2)
    by (auto simp: holds_def intro!: exI [of _ "gs[i := g]"] list_all2_update_cong)
next
  case (interleave_tick w t ts)
  then show ?thesis using assms(3) by (auto simp: holds_def)
next
  case (interleave_spawn p ts w)
  then show ?thesis using assms(3,4) spawn_ok [of "db w" gs]
    by (auto simp: holds_def intro!: exI [of _ "gs @ [initial]"] list_all2_appendI)
qed

lemma interleaves_holds:
  assumes "interleaves spec_store Ops ([], w) c" "rows_wf (db w)"
    "\<And>p. Ops p \<Longrightarrow> disciplined Q {} p" "\<And>p. Ops p \<Longrightarrow> follows initial p"
  shows "\<exists>gs. holds c gs"
  using assms(1)
proof (induction rule: rtranclp_induct)
  case base
  show ?case using empty_ok by (auto simp: holds_def)
next
  case (step c' c'')
  have "pool_ok Q c'" using interleaves_disciplined [OF step(1) _ assms(3)] assms(2) by (auto simp: pool_ok_def)
  then show ?case using interleave_holds [OF step(2) _ _ assms(4)] step(3) by blast
qed

lemma holds_thread:
  assumes "holds (ts, w) gs" "i < length ts" "ts ! i = Inr p"
  shows "follows (gs ! i) p" "i < length gs" "ok (db w) gs"
  using assms by (auto simp: holds_def list_all2_conv_all_nth)

end

text \<open>Sequential execution is the special case of one thread that nobody interrupts.\<close>

lemma run_disciplined:
  assumes "rows_wf (db w)" "disciplined Q {} p" "run spec_store p w = (out, w')"
  shows "rows_wf (db w') \<and> progress (db w) (db w') \<and>
    (\<forall>a. out = Value a \<longrightarrow> (\<exists>K. knows (db w') K \<and> Q K a))"
proof -
  have "pool_ok Q ([Inr p], w)" using assms(1,2)
    by (auto simp: pool_ok_def knows_def intro!: thread_okI [of _ "{}"])
  moreover have "interleaves spec_store (\<lambda>_. False) ([Inr p], w) ([thread_of out], w')"
    using run_interleaves [of spec_store "\<lambda>_. False" p w] assms(3) by simp
  ultimately have "pool_ok Q ([thread_of out], w')" "progress (db w) (db w')"
    using interleaves_disciplined by fastforce+
  then show ?thesis by (auto simp: pool_ok_def thread_ok_def)
qed

end
