(* ===== verification/Server.thy ===== *)
theory Server
  imports Engine Discipline
begin

text \<open>
  The engine's public interface as requests and replies, so that different operations can share one
  pool of threads, and the proof that every operation follows the discipline of theory \<open>Discipline\<close>.
  The engine itself is a parameter of every request: several processes with different peppers and
  settings may serve one store.
\<close>

section \<open>Requests and replies\<close>

datatype request =
    Issue jsstring "jsstring option"
  | Refresh js_value "jsstring option"
  | RevokeToken js_value
  | RevokeFamilyById jsstring
  | RevokeAllForUser jsstring

datatype reply =
    Issued IssueResult
  | Refreshed RefreshResult
  | TokenRevoked RevokeResult
  | Revocations nat

fun serve :: "NebulaEngine \<Rightarrow> request \<Rightarrow> reply engine_prog" where
  "serve eng (Issue u d) = map_prog id Issued (issue eng u d)"
| "serve eng (Refresh t d) = map_prog id Refreshed (refresh eng t d)"
| "serve eng (RevokeToken t) = map_prog id TokenRevoked (revokeToken eng t)"
| "serve eng (RevokeFamilyById f) = map_prog id Revocations (engine_revokeFamily f)"
| "serve eng (RevokeAllForUser u) = map_prog id Revocations (revokeAllForUser u)"

lemma disciplined_map_prog:
  "disciplined Q K (map_prog f g p) = disciplined (\<lambda>K a. Q K (g a)) K p"
  by (induction p arbitrary: K) auto

lemma disciplined_mono:
  "disciplined Q K p \<Longrightarrow> (\<And>K a. Q K a \<Longrightarrow> Q' K a) \<Longrightarrow> disciplined Q' K p"
  by (induction p arbitrary: K) auto

section \<open>What a reply says about the store\<close>

text \<open>
  A token the engine hands out authenticates a record it knows: the selector finds the record, the
  verifier's keyed hash is the stored one, and the other fields of the result are the record's.
\<close>

definition backs :: "TokenRecord \<Rightarrow> NebulaEngine \<Rightarrow> IssueResult \<Rightarrow> bool" where
  "backs r eng res \<longleftrightarrow> (\<exists>v. length v = VERIFIER_BYTES \<and>
     token res = format_token (activeKid eng) (selector r) v \<and> kid r = activeKid eng \<and>
     verifierHash r = hashVerifier (activePepper eng) v \<and>
     res_userId res = userId r \<and> res_familyId res = familyId r \<and> res_generation res = generation r \<and>
     res_expiresAt res = familyExpiresAt r \<and> res_idleExpiresAt res = idleExpiresAt r)"

definition issue_post :: "NebulaEngine \<Rightarrow> TokenRecord set \<Rightarrow> IssueResult \<Rightarrow> bool" where
  "issue_post eng K res \<longleftrightarrow> (\<exists>r\<in>K. backs r eng res \<and> res_generation res = 0)"

text \<open>
  After a success of \<open>refresh\<close> the result is backed by the successor of the record the presented token
  names. A failure names the owner and the family of that record exactly when one was resolved.
\<close>

definition attributed :: "TokenRecord set \<Rightarrow> js_value \<Rightarrow> NebulaErrorCode \<Rightarrow> jsstring option \<Rightarrow> jsstring option \<Rightarrow> bool" where
  "attributed K tok e u f \<longleftrightarrow>
     (if e \<in> {MALFORMED, UNKNOWN_KID, NOT_FOUND} then u = None \<and> f = None
      else \<exists>r\<in>K. \<exists>p. parseToken tok = Some p \<and> selector r = p_selector p \<and>
        u = Some (userId r) \<and> f = Some (familyId r))"

fun refresh_post :: "NebulaEngine \<Rightarrow> js_value \<Rightarrow> TokenRecord set \<Rightarrow> RefreshResult \<Rightarrow> bool" where
  "refresh_post eng tok K (RefreshSuccess res) \<longleftrightarrow>
     (\<exists>r\<in>K. \<exists>r'\<in>K. \<exists>p. parseToken tok = Some p \<and> selector r = p_selector p \<and>
        linked r r' \<and> backs r' eng res)"
| "refresh_post eng tok K (RefreshFailure e u f) \<longleftrightarrow> attributed K tok e u f"

fun revoke_post :: "js_value \<Rightarrow> TokenRecord set \<Rightarrow> RevokeResult \<Rightarrow> bool" where
  "revoke_post tok K (RevokeSuccess u f n) \<longleftrightarrow>
     (\<exists>r\<in>K. \<exists>p. parseToken tok = Some p \<and> selector r = p_selector p \<and> u = userId r \<and> f = familyId r)"
| "revoke_post tok K (RevokeFailure e u f) \<longleftrightarrow> attributed K tok e u f"

fun reply_post :: "NebulaEngine \<Rightarrow> request \<Rightarrow> TokenRecord set \<Rightarrow> reply \<Rightarrow> bool" where
  "reply_post eng (Issue u d) K (Issued res) \<longleftrightarrow> issue_post eng K res \<and> res_userId res = u"
| "reply_post eng (Refresh t d) K (Refreshed res) \<longleftrightarrow> refresh_post eng t K res"
| "reply_post eng (RevokeToken t) K (TokenRevoked res) \<longleftrightarrow> revoke_post t K res"
| "reply_post eng (RevokeFamilyById f) K (Revocations n) \<longleftrightarrow> True"
| "reply_post eng (RevokeAllForUser u) K (Revocations n) \<longleftrightarrow> True"
| "reply_post eng req K rep \<longleftrightarrow> False"

section \<open>Every operation is disciplined\<close>

lemma mint_record_fields [simp]:
  "selector (mint_record eng args sel v) = toBase64url sel"
  "verifierHash (mint_record eng args sel v) = hashVerifier (activePepper eng) v"
  "kid (mint_record eng args sel v) = activeKid eng"
  "familyId (mint_record eng args sel v) = a_familyId args"
  "generation (mint_record eng args sel v) = a_generation args"
  "userId (mint_record eng args sel v) = a_userId args"
  "deviceIdHash (mint_record eng args sel v) = a_deviceIdHash args"
  "createdAt (mint_record eng args sel v) = a_now args"
  "familyExpiresAt (mint_record eng args sel v) = a_familyExpiresAt args"
  "idleExpiresAt (mint_record eng args sel v) = min (a_now args + idleTtl eng) (a_familyExpiresAt args)"
  "status (mint_record eng args sel v) = Active"
  "rotatedAt (mint_record eng args sel v) = None"
  "replacedBySelector (mint_record eng args sel v) = None"
  by (simp_all add: mint_record_def)

lemma mint_record_wf:
  assumes "length sel = SELECTOR_BYTES" "0 \<le> a_generation args"
    "\<And>h. a_deviceIdHash args = Some h \<Longrightarrow> is_digest h"
  shows "rec_wf (mint_record eng args sel v)"
  using assms by (auto simp: rec_wf_def valid_selector_toBase64url split: option.splits)

lemma disciplined_mint:
  assumes "\<And>sel v. length sel = SELECTOR_BYTES \<Longrightarrow> length v = VERIFIER_BYTES \<Longrightarrow>
    disciplined Q K (cont (format_token (activeKid eng) (toBase64url sel) v, mint_record eng args sel v))"
  shows "disciplined Q K (mint eng args cont)"
  using assms by (simp add: mint_def)

lemma disciplined_fail:
  assumes "r \<in> K" "parseToken tok = Some p" "selector r = p_selector p"
    "e \<notin> {MALFORMED, UNKNOWN_KID, NOT_FOUND}"
  shows "refresh_post eng tok K (fail e r)"
  using assms by (auto simp: fail_def attributed_def)

lemma disciplined_issue: "disciplined (\<lambda>K res. issue_post eng K res \<and> res_userId res = u) K (issue eng u d)"
proof -
  have "is_digest h" if "map_sum id Some (hashDeviceId (activePepper eng) x) = Inr (Some h)" for x h
    using that by (cases "hashDeviceId (activePepper eng) x") (auto dest: hashDeviceId_digest)
  then show ?thesis
    by (auto simp: issue_def issue_post_def backs_def intro!: disciplined_mint mint_record_wf
        split: option.splits sum.splits)
qed

lemma map_sum_Inr: "map_sum id f x = Inr y \<longleftrightarrow> (\<exists>z. x = Inr z \<and> y = f z)"
  by (cases x) auto

lemma successorDeviceHash_digest:
  "rec_wf r \<Longrightarrow> successorDeviceHash eng r d = Inr (Some h) \<Longrightarrow> is_digest h"
  by (auto simp: successorDeviceHash_def rec_wf_def map_sum_Inr split: option.splits
      dest: hashDeviceId_digest)

lemma disciplined_rotate:
  assumes "r \<in> K" "rec_wf r" "parseToken tok = Some p" "selector r = p_selector p"
    "st = Active \<or> st = Rotated \<and> rotatedAt r = Some t"
  shows "disciplined (refresh_post eng tok) K (rotate_token eng r d now st t)"
proof (cases "successorDeviceHash eng r d")
  case (Inr dh)
  define args where "args = \<lparr>a_userId = userId r, a_familyId = familyId r,
    a_generation = generation r + 1, a_deviceIdHash = dh, a_familyExpiresAt = familyExpiresAt r, a_now = now\<rparr>"
  show ?thesis unfolding rotate_token_def Inr sum.case args_def [symmetric]
  proof (rule disciplined_mint)
    fix sel v :: bytes
    assume len: "length sel = SELECTOR_BYTES" "length v = VERIFIER_BYTES"
    let ?q = "mint_record eng args sel v"
    have q: "linked r ?q" "rec_wf ?q"
      using len assms(2) successorDeviceHash_digest [OF assms(2), of eng d] Inr
      by (auto simp: linked_def args_def rec_wf_def [of r] intro!: mint_record_wf)
    have lnk: "may_link (insert ?q K) (selector r) st t (selector ?q)"
      using assms(1,5) q(1) unfolding may_link_def by blast
    have bk: "backs ?q eng \<lparr>token = format_token (activeKid eng) (toBase64url sel) v,
       res_userId = userId r, res_familyId = familyId r, res_generation = generation ?q,
       res_expiresAt = familyExpiresAt ?q, res_idleExpiresAt = idleExpiresAt ?q\<rparr>"
      using len by (auto simp: backs_def args_def)
    have pst: "refresh_post eng tok (insert ?q K) (fail CONFLICT r)"
      using assms by (intro disciplined_fail [of _ _ _ p]) auto
    show "disciplined (refresh_post eng tok) K (case (format_token (activeKid eng) (toBase64url sel) v, ?q) of
        (tok, next) \<Rightarrow> Insert next (MarkRotated (selector r) st t (selector next) (\<lambda>applied.
            if \<not> applied then RevokeIfActive (selector next) (\<lambda>_. Return (fail CONFLICT r))
            else Return (RefreshSuccess \<lparr>token = tok, res_userId = userId r, res_familyId = familyId r,
              res_generation = generation next, res_expiresAt = familyExpiresAt next,
              res_idleExpiresAt = idleExpiresAt next\<rparr>))))"
      using q lnk pst bk assms(1,3,4) by (simp del: mint_record_fields(1-10)) blast
  qed
qed (simp add: rotate_token_def)

lemma withinGrace_Some:
  "withinGrace eng r now \<Longrightarrow> \<exists>t s. rotatedAt r = Some t \<and> replacedBySelector r = Some s"
  by (auto simp: withinGrace_def split: option.splits)

lemma disciplined_handleReuse:
  assumes "r \<in> K" "rec_wf r" "parseToken tok = Some p" "selector r = p_selector p"
  shows "disciplined (refresh_post eng tok) K (handleReuse eng r pepper d now)"
proof -
  have f: "refresh_post eng tok K' (fail e r)" if "K \<subseteq> K'" "e \<in> {REUSE_DETECTED, DEVICE_MISMATCH, CONFLICT}" for K' e
    using assms that by (intro disciplined_fail [of _ _ _ p]) auto
  have "disciplined (refresh_post eng tok) (insert s K) (rotate_token eng r d now Rotated (the (rotatedAt r)))"
    if "withinGrace eng r now" for s
    using withinGrace_Some [OF that] assms by (intro disciplined_rotate) auto
  then show ?thesis unfolding handleReuse_def Let_def
    by (auto simp: f subset_insertI split: option.splits)
qed

lemma disciplined_refresh: "disciplined (refresh_post eng tok) K (refresh eng tok d)"
proof (cases "parseToken tok")
  case (Some p)
  have f: "refresh_post eng tok (insert r K) (fail e r)"
    if "selector r = p_selector p" "e \<notin> {MALFORMED, UNKNOWN_KID, NOT_FOUND}" for r e
    using that Some by (intro disciplined_fail [of _ _ _ p]) auto
  have "disciplined (refresh_post eng tok) (insert r K) (handleReuse eng r pepper d now)"
    "disciplined (refresh_post eng tok) (insert r K) (rotate_token eng r d now Active now)"
    if "selector r = p_selector p" "rec_wf r" for r pepper now
    using that Some by (auto intro!: disciplined_handleReuse disciplined_rotate)
  then show ?thesis using Some
    by (auto simp: refresh_def f attributed_def split: option.splits)
qed (simp add: refresh_def attributed_def)

lemma disciplined_revokeToken: "disciplined (revoke_post tok) K (revokeToken eng tok)"
  by (auto simp: revokeToken_def attributed_def split: option.splits)

lemma disciplined_serve: "disciplined (reply_post eng req) K (serve eng req)"
  using disciplined_issue disciplined_refresh disciplined_revokeToken
  by (cases req) (auto simp: disciplined_map_prog engine_revokeFamily_def revokeAllForUser_def)

text \<open>
  The operations a pool may start: any request, to any of the processes that share the store. The
  thread's value pairs the reply with the process and the request it answers.
\<close>

type_synonym exchange = "NebulaEngine \<times> request \<times> reply"

definition handle :: "NebulaEngine \<Rightarrow> request \<Rightarrow> exchange engine_prog" where
  "handle eng req = map_prog id (\<lambda>rep. (eng, req, rep)) (serve eng req)"

definition handled :: "NebulaEngine set \<Rightarrow> exchange engine_prog \<Rightarrow> bool" where
  "handled engines p \<longleftrightarrow> (\<exists>eng\<in>engines. \<exists>req. p = handle eng req)"

definition exchange_post :: "NebulaEngine set \<Rightarrow> TokenRecord set \<Rightarrow> exchange \<Rightarrow> bool" where
  "exchange_post engines K x = (case x of (eng, req, rep) \<Rightarrow> eng \<in> engines \<and> reply_post eng req K rep)"

lemma disciplined_handled: "handled engines p \<Longrightarrow> disciplined (exchange_post engines) {} p"
  unfolding handled_def handle_def exchange_post_def
  by (auto simp: disciplined_map_prog intro: disciplined_mono [OF disciplined_serve])

end
