(* ===== verification/Concurrency.thy ===== *)
theory Concurrency
  imports Server
begin

text \<open>
  Properties of every interleaving of requests on one shared store, stated for the in-memory store and
  proved on the abstract one.

  The proof that a presented token never has two live successors follows one selector \<open>s\<close> through
  the pool. A thread's ghost state says whether it has won the right to replace the successor of \<open>s\<close>
  (by revoking the unused one), which successors of \<open>s\<close> it has seen, and which selectors it inserted.
\<close>

section \<open>Following one selector\<close>

record ghost =
  permit :: bool
  seen :: "jsstring set"
  own :: "jsstring set"

text \<open>A finished exchange that answered a token with selector \<open>s\<close> by one with selector \<open>n\<close>.\<close>

definition wins :: "jsstring \<Rightarrow> jsstring \<Rightarrow> exchange \<Rightarrow> bool" where
  "wins s n x \<longleftrightarrow> (\<exists>eng tok d res p q. x = (eng, Refresh tok d, Refreshed (RefreshSuccess res)) \<and>
     parseToken tok = Some p \<and> p_selector p = s \<and>
     parseToken (JString (token res)) = Some q \<and> p_selector q = n)"

primrec tracked :: "jsstring \<Rightarrow> ghost \<Rightarrow> ('e, exchange) prog \<Rightarrow> bool" where
  "tracked s g (Return x) = (\<forall>n. wins s n x \<longrightarrow> n \<in> seen g \<and> n \<in> own g)"
| "tracked s g (Throw e) = True"
| "tracked s g (FindBySelector s1 k) =
     (\<forall>x. (\<forall>r. x = Some r \<longrightarrow> selector r = s1) \<longrightarrow>
        tracked s (if s1 = s then g\<lparr>seen := seen g \<union> set_option (Option.bind x replacedBySelector)\<rparr> else g) (k x))"
| "tracked s g (Insert r p) = tracked s (g\<lparr>own := insert (selector r) (own g)\<rparr>) p"
| "tracked s g (MarkRotated s1 st t n k) =
     (tracked s g (k False) \<and>
      (if s1 = s then (st = Active \<or> permit g) \<and> tracked s (g\<lparr>permit := False, seen := insert n (seen g)\<rparr>) (k True)
       else tracked s g (k True)))"
| "tracked s g (RevokeIfActive n k) =
     (tracked s g (k False) \<and> tracked s (g\<lparr>permit := permit g \<or> n \<in> seen g\<rparr>) (k True))"
| "tracked s g (RevokeFamily f k) = (\<forall>n. tracked s g (k n))"
| "tracked s g (RevokeUser u k) = (\<forall>n. tracked s g (k n))"
| "tracked s g (Clock k) = (\<forall>t. tracked s g (k t))"
| "tracked s g (RandomBytes n k) = (\<forall>bs. length bs = n \<longrightarrow> tracked s g (k bs))"

definition alive :: "rows \<Rightarrow> jsstring \<Rightarrow> bool" where
  "alive m n \<longleftrightarrow> has_status m n Active"

text \<open>
  A successor of \<open>s\<close> seen at some time is either still the current one or no longer alive. A permit
  means that the current successor is no longer alive.
\<close>

definition link_fact :: "rows \<Rightarrow> jsstring \<Rightarrow> jsstring \<Rightarrow> bool" where
  "link_fact m s n \<longleftrightarrow> n \<in> dom m \<and> (\<exists>r. m s = Some r \<and> status r \<noteq> Active \<and>
     (replacedBySelector r = Some n \<or> \<not> alive m n))"

definition permit_fact :: "rows \<Rightarrow> jsstring \<Rightarrow> bool" where
  "permit_fact m s \<longleftrightarrow> (\<exists>r n. m s = Some r \<and> status r \<noteq> Active \<and> replacedBySelector r = Some n \<and>
     n \<in> dom m \<and> \<not> alive m n)"

definition ghost_ok :: "rows \<Rightarrow> jsstring \<Rightarrow> ghost \<Rightarrow> bool" where
  "ghost_ok m s g \<longleftrightarrow> (\<forall>n\<in>seen g. link_fact m s n) \<and> own g \<subseteq> dom m \<and> (permit g \<longrightarrow> permit_fact m s)"

definition ghosts_ok :: "rows \<Rightarrow> jsstring \<Rightarrow> ghost list \<Rightarrow> bool" where
  "ghosts_ok m s gs \<longleftrightarrow> list_all (ghost_ok m s) gs \<and>
     (\<forall>i j. i < length gs \<longrightarrow> j < length gs \<longrightarrow> i \<noteq> j \<longrightarrow>
        own (gs ! i) \<inter> own (gs ! j) = {} \<and> \<not> (permit (gs ! i) \<and> permit (gs ! j)))"

text \<open>A change of the rows that revives nobody and keeps the links of \<open>s\<close> keeps every ghost fact.\<close>

definition quiet :: "jsstring \<Rightarrow> rows \<Rightarrow> rows \<Rightarrow> bool" where
  "quiet s m m' \<longleftrightarrow> progress m m' \<and> (\<forall>n. n \<in> dom m \<longrightarrow> alive m' n \<longrightarrow> alive m n) \<and>
     (\<forall>r. m s = Some r \<longrightarrow> status r \<noteq> Active \<longrightarrow>
        (\<exists>r'. m' s = Some r' \<and> replacedBySelector r' = replacedBySelector r))"

lemma progress_dom: "progress m m' \<Longrightarrow> dom m \<subseteq> dom m'"
  by (auto simp: progress_def)

lemma progress_status:
  "progress m m' \<Longrightarrow> m s = Some r \<Longrightarrow> status r \<noteq> Active \<Longrightarrow> \<exists>r'. m' s = Some r' \<and> status r' \<noteq> Active"
  by (auto simp: progress_def later_def) (metis status_order(4))

lemma ghost_ok_quiet:
  assumes "quiet s m m'" "ghost_ok m s g"
  shows "ghost_ok m' s g"
proof -
  have pr: "progress m m'" using assms(1) by (simp add: quiet_def)
  have "link_fact m' s n" if "link_fact m s n" for n
  proof -
    obtain r where r: "m s = Some r" "status r \<noteq> Active" "replacedBySelector r = Some n \<or> \<not> alive m n"
      "n \<in> dom m" using \<open>link_fact m s n\<close> by (auto simp: link_fact_def)
    obtain r' where "m' s = Some r'" "replacedBySelector r' = replacedBySelector r" "status r' \<noteq> Active"
      using assms(1) r progress_status [OF pr r(1,2)] by (auto simp: quiet_def)
    then show ?thesis using r assms(1) progress_dom [OF pr] by (auto simp: link_fact_def quiet_def)
  qed
  moreover have "permit_fact m' s" if "permit_fact m s"
  proof -
    obtain r n where r: "m s = Some r" "status r \<noteq> Active" "replacedBySelector r = Some n"
      "n \<in> dom m" "\<not> alive m n" using \<open>permit_fact m s\<close> by (auto simp: permit_fact_def)
    obtain r' where "m' s = Some r'" "replacedBySelector r' = replacedBySelector r" "status r' \<noteq> Active"
      using assms(1) r progress_status [OF pr r(1,2)] by (auto simp: quiet_def)
    then show ?thesis using r assms(1) progress_dom [OF pr] by (auto simp: permit_fact_def quiet_def)
  qed
  ultimately show ?thesis using assms(2) progress_dom [OF pr] unfolding ghost_ok_def by blast
qed

lemma quiet_refl [simp]: "quiet s m m"
  by (auto simp: quiet_def)

lemma quiet_insert: "m (selector r) = None \<Longrightarrow> quiet s m (m(selector r \<mapsto> r))"
  by (auto simp: quiet_def progress_def alive_def has_status_def)

lemma quiet_upd_rows_revoke: "quiet s m (upd_rows P revoke m)"
  unfolding quiet_def
  by (intro conjI progress_upd_rows later_revoke)
     (auto simp: alive_def has_status_def upd_rows_def revoke_def)

lemma quiet_revoke_where: "quiet s m (revoke_where P m)"
  by (simp add: revoke_where_def quiet_upd_rows_revoke)

lemma quiet_revoke_active: "quiet s m (revoke_active n m)"
  by (auto simp: quiet_def revoke_active_def alive_def has_status_def progress_def revoke_def [symmetric]
      intro: later_revoke)

lemma quiet_mark_rows: "progress m (mark_rows s1 st t n m) \<Longrightarrow> s1 \<noteq> s \<Longrightarrow> quiet s m (mark_rows s1 st t n m)"
  by (auto simp: quiet_def mark_rows_def alive_def has_status_def rotate_to_def)

lemma ghosts_ok_update:
  assumes "ghosts_ok m s gs" "i < length gs"
    and "\<And>j. j < length gs \<Longrightarrow> j \<noteq> i \<Longrightarrow> ghost_ok m' s (gs ! j)" "ghost_ok m' s g'"
    and "own g' \<subseteq> own (gs ! i) \<union> - dom m"
    and "permit g' \<Longrightarrow> permit (gs ! i) \<or> (\<forall>j < length gs. j \<noteq> i \<longrightarrow> \<not> permit (gs ! j))"
  shows "ghosts_ok m' s (gs[i := g'])"
proof -
  have old: "own (gs ! k) \<inter> own (gs ! j) = {} \<and> \<not> (permit (gs ! k) \<and> permit (gs ! j))"
    if "k < length gs" "j < length gs" "k \<noteq> j" for k j
    using assms(1) that unfolding ghosts_ok_def by blast
  have new: "own g' \<inter> own (gs ! j) = {} \<and> \<not> (permit g' \<and> permit (gs ! j))"
    if j: "j < length gs" "j \<noteq> i" for j
  proof -
    have "own (gs ! j) \<subseteq> dom m"
      using assms(1) j by (simp add: ghosts_ok_def list_all_length ghost_ok_def)
    then have "own g' \<inter> own (gs ! j) = {}" using old [OF assms(2) j(1)] assms(5) j(2) by blast
    moreover have "\<not> (permit g' \<and> permit (gs ! j))" using old [OF assms(2) j(1)] assms(6) j by blast
    ultimately show ?thesis ..
  qed
  have pair: "own (gs[i := g'] ! k) \<inter> own (gs[i := g'] ! j) = {} \<and>
      \<not> (permit (gs[i := g'] ! k) \<and> permit (gs[i := g'] ! j))"
    if "k < length gs" "j < length gs" "k \<noteq> j" for k j
    using new [OF that(1)] new [OF that(2)] old [OF that] that assms(2)
    by (cases "k = i"; cases "j = i") (simp_all add: Int_commute conj_commute)
  have "ghost_ok m' s (gs[i := g'] ! k)" if "k < length gs" for k
    using assms(2-4) that by (cases "k = i") simp_all
  then show ?thesis unfolding ghosts_ok_def using pair by (simp add: list_all_length)
qed

lemma ghosts_ok_quiet:
  assumes "ghosts_ok m s gs" "i < length gs" "quiet s m m'" "ghost_ok m' s g'"
    "own g' \<subseteq> own (gs ! i) \<union> - dom m" "permit g' \<Longrightarrow> permit (gs ! i)"
  shows "ghosts_ok m' s (gs[i := g'])"
  by (rule ghosts_ok_update [OF assms(1,2)])
     (use assms ghost_ok_quiet [OF assms(3)] in \<open>auto simp: ghosts_ok_def list_all_length\<close>)

section \<open>The critical steps\<close>

lemma no_facts_while_active:
  assumes "alive m s" "ghost_ok m s g"
  shows "seen g = {} \<and> \<not> permit g"
  using assms by (auto simp: alive_def has_status_def ghost_ok_def link_fact_def permit_fact_def)

text \<open>Revoking the unused successor excludes every other permit.\<close>

lemma revoke_successor:
  assumes "ghosts_ok m s gs" "i < length gs" "rows_wf m" "alive m n" "n \<in> seen (gs ! i)"
  shows "ghosts_ok (revoke_active n m) s (gs[i := (gs ! i)\<lparr>permit := True\<rparr>])"
proof (rule ghosts_ok_update [OF assms(1,2)])
  have gi: "ghost_ok m s (gs ! j)" if "j < length gs" for j
    using assms(1) that by (simp add: ghosts_ok_def list_all_length)
  obtain r where r: "m s = Some r" "status r \<noteq> Active" "replacedBySelector r = Some n" "n \<in> dom m"
    using gi [OF assms(2)] assms(4,5) by (auto simp: ghost_ok_def link_fact_def)
  have none: "\<not> permit (gs ! j)" if "j < length gs" for j
    using gi [OF that] r assms(4) by (auto simp: ghost_ok_def permit_fact_def)
  then show "permit ((gs ! i)\<lparr>permit := True\<rparr>) \<Longrightarrow> permit (gs ! i) \<or> (\<forall>j<length gs. j \<noteq> i \<longrightarrow> \<not> permit (gs ! j))"
    by blast
  show q: "ghost_ok (revoke_active n m) s (gs ! j)" if "j < length gs" for j
    using ghost_ok_quiet [OF quiet_revoke_active gi [OF that]] .
  have "s \<noteq> n" using r assms(4) by (auto simp: alive_def has_status_def)
  then have "permit_fact (revoke_active n m) s"
    using r assms(4) by (auto simp: permit_fact_def revoke_active_def alive_def has_status_def revoke_def)
  then show "ghost_ok (revoke_active n m) s ((gs ! i)\<lparr>permit := True\<rparr>)"
    using q [OF assms(2)] by (simp add: ghost_ok_def)
qed simp

text \<open>Replacing the successor needs the permit, or a record that was never rotated.\<close>

lemma replace_successor:
  assumes "ghosts_ok m s gs" "i < length gs" "n \<in> dom m" "has_status m s st"
    and "st = Active \<or> permit (gs ! i)" "progress m (mark_rows s st t n m)"
  shows "ghosts_ok (mark_rows s st t n m) s (gs[i := (gs ! i)\<lparr>permit := False, seen := insert n (seen (gs ! i))\<rparr>])"
proof (rule ghosts_ok_update [OF assms(1,2)])
  have gi: "ghost_ok m s (gs ! j)" if "j < length gs" for j
    using assms(1) that by (simp add: ghosts_ok_def list_all_length)
  have dead: "\<not> alive m k \<and> k \<in> dom m" if k: "k \<in> seen (gs ! j)" "j < length gs" for j k
  proof (cases "st = Active")
    case True
    then show ?thesis using no_facts_while_active [OF _ gi] assms(4) k by (auto simp: alive_def)
  next
    case False
    then have "permit_fact m s" using assms(2,5) gi by (auto simp: ghost_ok_def)
    then show ?thesis using gi [OF k(2)] k by (auto simp: permit_fact_def ghost_ok_def link_fact_def)
  qed
  have alone: "\<not> permit (gs ! j)" if "j < length gs" "j \<noteq> i" for j
  proof (cases "st = Active")
    case True
    then show ?thesis using no_facts_while_active [OF _ gi] assms(4) that by (auto simp: alive_def)
  qed (use assms(1,2,5) that in \<open>auto simp: ghosts_ok_def\<close>)
  obtain r where r: "m s = Some r" "status r = st" using assms(4) by (auto simp: has_status_def)
  then have mk: "mark_rows s st t n m = m(s \<mapsto> rotate_to t n r)" using assms(4) by (simp add: mark_rows_def)
  have lf: "link_fact (mark_rows s st t n m) s k" if "k = n \<or> (\<not> alive m k \<and> k \<in> dom m)" for k
    using that r assms(3) by (auto simp: mk link_fact_def alive_def has_status_def rotate_to_def)
  show "ghost_ok (mark_rows s st t n m) s (gs ! j)" if "j < length gs" "j \<noteq> i" for j
    using gi [OF that(1)] alone [OF that] lf dead [OF _ that(1)] progress_dom [OF assms(6)]
    unfolding ghost_ok_def by blast
  show "ghost_ok (mark_rows s st t n m) s ((gs ! i)\<lparr>permit := False, seen := insert n (seen (gs ! i))\<rparr>)"
    using gi [OF assms(2)] lf dead [OF _ assms(2)] progress_dom [OF assms(6)]
    unfolding ghost_ok_def by (simp, blast)
qed auto

section \<open>The invariant of a pool\<close>

lemma find_successor:
  assumes "rows_wf m" "ghost_ok m s g"
  shows "ghost_ok m s (g\<lparr>seen := seen g \<union> set_option (Option.bind (m s) replacedBySelector)\<rparr>)"
proof (cases "m s")
  case (Some r)
  have "link_fact m s n" if "replacedBySelector r = Some n" for n
    using that rows_wfD(2,3) [OF assms(1) Some] Some by (fastforce simp: rec_wf_def link_fact_def)
  then show ?thesis using assms(2) Some by (auto simp: ghost_ok_def)
qed (use assms(2) in \<open>auto simp: ghost_ok_def\<close>)

text \<open>After a step of thread \<open>i\<close> the ghost states can be brought up to date.\<close>

definition advances :: "jsstring \<Rightarrow> ghost list \<Rightarrow> nat \<Rightarrow> rows \<Rightarrow> ('e, exchange) thread \<Rightarrow> bool" where
  "advances s gs i m t \<longleftrightarrow> (\<exists>g. ghosts_ok m s (gs[i := g]) \<and> (\<forall>p. t = Inr p \<longrightarrow> tracked s g p))"

lemma advancesI: "ghosts_ok m s (gs[i := g]) \<Longrightarrow> (\<And>p. t = Inr p \<Longrightarrow> tracked s g p) \<Longrightarrow> advances s gs i m t"
  by (auto simp: advances_def)

lemma advances_quiet:
  assumes "ghosts_ok m s gs" "i < length gs" "quiet s m m'" "\<And>p. t = Inr p \<Longrightarrow> tracked s (gs ! i) p"
  shows "advances s gs i m' t"
proof (rule advancesI [of _ _ _ _ "gs ! i"])
  have "ghost_ok m' s (gs ! i)"
    using ghost_ok_quiet [OF assms(3)] assms(1,2) by (simp add: ghosts_ok_def list_all_length)
  then show "ghosts_ok m' s (gs[i := gs ! i])" using ghosts_ok_quiet [OF assms(1-3)] by blast
qed (use assms(4) in blast)

lemma advances_find:
  assumes gs: "ghosts_ok m s gs" "i < length gs" and wf: "rows_wf m"
    and tr: "tracked s (gs ! i) (FindBySelector s1 k)"
  shows "advances s gs i m (Inr (k (m s1)))"
proof (cases "s1 = s")
  case True
  have gi: "ghost_ok m s (gs ! i)" using gs by (simp add: ghosts_ok_def list_all_length)
  show ?thesis
    by (rule advancesI [OF ghosts_ok_quiet [OF gs quiet_refl find_successor [OF wf gi]]])
       (use tr True rows_wfD(1) [OF wf] in auto)
qed (use tr rows_wfD(1) [OF wf] in \<open>auto intro!: advances_quiet [OF gs]\<close>)

lemma advances_insert:
  assumes gs: "ghosts_ok m s gs" "i < length gs" and None: "m (selector r) = None"
    and tr: "tracked s (gs ! i) (Insert r p)"
  shows "advances s gs i (m(selector r \<mapsto> r)) (Inr p)"
proof -
  have q: "quiet s m (m(selector r \<mapsto> r))" using None by (rule quiet_insert)
  have "ghost_ok (m(selector r \<mapsto> r)) s (gs ! i)"
    using ghost_ok_quiet [OF q] gs by (simp add: ghosts_ok_def list_all_length)
  then have "ghosts_ok (m(selector r \<mapsto> r)) s (gs[i := (gs ! i)\<lparr>own := insert (selector r) (own (gs ! i))\<rparr>])"
    using None by (intro ghosts_ok_quiet [OF gs q]) (auto simp: ghost_ok_def)
  then show ?thesis using tr by (auto intro: advancesI)
qed

lemma advances_mark:
  assumes gs: "ghosts_ok m s gs" "i < length gs" and pr: "progress m (mark_rows s1 st u n m)"
    and n: "n \<in> dom m" and tr: "tracked s (gs ! i) (MarkRotated s1 st u n k)"
  shows "advances s gs i (mark_rows s1 st u n m) (Inr (k (has_status m s1 st)))"
proof (cases "s1 = s \<and> has_status m s st")
  case True
  then have "ghosts_ok (mark_rows s1 st u n m) s
      (gs[i := (gs ! i)\<lparr>permit := False, seen := insert n (seen (gs ! i))\<rparr>])"
    using replace_successor [OF gs n] tr pr by auto
  then show ?thesis using tr True by (auto intro: advancesI)
next
  case False
  then have "quiet s m (mark_rows s1 st u n m)"
    by (cases "s1 = s") (simp add: mark_rows_def, rule quiet_mark_rows [OF pr])
  moreover have "tracked s (gs ! i) (k (has_status m s1 st))"
    using tr False by (cases "s1 = s"; cases "has_status m s1 st") auto
  ultimately show ?thesis by (auto intro!: advances_quiet [OF gs])
qed

lemma advances_revoke:
  assumes gs: "ghosts_ok m s gs" "i < length gs" and wf: "rows_wf m"
    and tr: "tracked s (gs ! i) (RevokeIfActive n k)"
  shows "advances s gs i (revoke_active n m) (Inr (k (has_status m n Active)))"
proof (cases "alive m n \<and> n \<in> seen (gs ! i)")
  case True
  then show ?thesis using tr revoke_successor [OF gs wf] by (auto simp: alive_def intro: advancesI)
next
  case False
  then have "tracked s (gs ! i) (k (has_status m n Active))"
    using tr by (cases "has_status m n Active") (auto simp: alive_def)
  then show ?thesis by (intro advances_quiet [OF gs quiet_revoke_active]) auto
qed

lemma first_step_tracked:
  assumes wf: "rows_wf (db w)" and d: "knows (db w) K" "disciplined Q K p"
    and gs: "ghosts_ok (db w) s gs" "i < length gs" and tr: "tracked s (gs ! i) p"
    and step: "first_step spec_store p w = Some (t, w')"
  shows "advances s gs i (db w') t"
proof (cases p)
  case (FindBySelector s1 k)
  then show ?thesis using step tr advances_find [OF gs wf] by (auto simp: spec_store_def)
next
  case (Insert r q)
  then show ?thesis using step tr advances_insert [OF gs] advances_quiet [OF gs quiet_refl]
    by (auto simp: spec_store_def split: if_splits)
next
  case (MarkRotated s1 st u n k)
  then have n: "n \<in> dom (db w)" and pr: "progress (db w) (mark_rows s1 st u n (db w))"
    using d mark_rows_step(2) [OF wf d(1)] by (auto simp: may_link_def knows_def)
  have "advances s gs i (mark_rows s1 st u n (db w)) (Inr (k (has_status (db w) s1 st)))"
    by (rule advances_mark [OF gs pr n]) (use tr MarkRotated in simp)
  then show ?thesis using MarkRotated step by (auto simp: spec_store_def)
next
  case (RevokeIfActive n k)
  then have "advances s gs i (revoke_active n (db w)) (Inr (k (has_status (db w) n Active)))"
    using tr by (intro advances_revoke [OF gs wf]) simp
  then show ?thesis using RevokeIfActive step by (auto simp: spec_store_def)
next
  case (RevokeFamily f k)
  then show ?thesis using step tr
    by (auto simp: spec_store_def intro!: advances_quiet [OF gs quiet_revoke_where])
next
  case (RevokeUser u k)
  then show ?thesis using step tr
    by (auto simp: spec_store_def intro!: advances_quiet [OF gs quiet_revoke_where])
next
  case (RandomBytes n k)
  then show ?thesis using step tr
    by (auto simp: randomBytes_def intro!: advances_quiet [OF gs quiet_refl])
next
  case (Clock k)
  then have "advances s gs i (db w) (Inr (k (clock w)))"
    using tr by (intro advances_quiet [OF gs quiet_refl]) auto
  then show ?thesis using Clock step by auto
qed (use step in auto)

definition no_ghost :: ghost where
  "no_ghost = \<lparr>permit = False, seen = {}, own = {}\<rparr>"

lemma ghosts_ok_snoc:
  assumes "ghosts_ok m s gs"
  shows "ghosts_ok m s (gs @ [no_ghost])"
proof -
  have old: "own (gs ! i) \<inter> own (gs ! j) = {} \<and> \<not> (permit (gs ! i) \<and> permit (gs ! j))"
    if "i < length gs" "j < length gs" "i \<noteq> j" for i j
    using assms that unfolding ghosts_ok_def by blast
  have "own ((gs @ [no_ghost]) ! i) \<inter> own ((gs @ [no_ghost]) ! j) = {} \<and>
      \<not> (permit ((gs @ [no_ghost]) ! i) \<and> permit ((gs @ [no_ghost]) ! j))"
    if "i < Suc (length gs)" "j < Suc (length gs)" "i \<noteq> j" for i j
    using old [of i j] that by (cases "i = length gs"; cases "j = length gs") (simp_all add: nth_append no_ghost_def)
  moreover have "ghost_ok m s no_ghost" by (simp add: ghost_ok_def no_ghost_def)
  moreover have "list_all (ghost_ok m s) gs" using assms by (simp add: ghosts_ok_def)
  ultimately show ?thesis unfolding ghosts_ok_def by simp
qed

interpretation forks: ghost_invariant Q "\<lambda>m. ghosts_ok m s" "tracked s" no_ghost for Q s
proof unfold_locales
  fix w w' :: "rows world" and p :: "('e, exchange) prog" and K gs i t
  assume "rows_wf (db w)" "knows (db w) K" "disciplined Q K p" "ghosts_ok (db w) s gs" "i < length gs"
    "tracked s (gs ! i) p" "first_step spec_store p w = Some (t, w')"
  then show "\<exists>g. ghosts_ok (db w') s (gs[i := g]) \<and> (\<forall>p'. t = Inr p' \<longrightarrow> tracked s g p')"
    using first_step_tracked by (fastforce simp: advances_def)
next
  fix m gs
  show "ghosts_ok m s gs \<Longrightarrow> ghosts_ok m s (gs @ [no_ghost])" by (rule ghosts_ok_snoc)
  show "ghosts_ok m s []" by (simp add: ghosts_ok_def)
qed

text \<open>Two finished winners of the same selector cannot both hold a live token.\<close>

lemma ghosts_no_fork:
  assumes gs: "ghosts_ok m s gs" "i < length gs" "j < length gs" "i \<noteq> j"
    and x: "tracked s (gs ! i) (Return x)" "wins s a x" and y: "tracked s (gs ! j) (Return y)" "wins s b y"
  shows "\<not> (alive m a \<and> alive m b)"
proof
  assume al: "alive m a \<and> alive m b"
  have ab: "a \<in> seen (gs ! i)" "a \<in> own (gs ! i)" "b \<in> seen (gs ! j)" "b \<in> own (gs ! j)"
    using x y by auto
  then have "link_fact m s a" "link_fact m s b"
    using gs by (auto simp: ghosts_ok_def list_all_length ghost_ok_def)
  then have "a = b" using al by (auto simp: link_fact_def)
  moreover have "own (gs ! i) \<inter> own (gs ! j) = {}" using gs by (auto simp: ghosts_ok_def)
  ultimately show False using ab by blast
qed

section \<open>Every request is tracked\<close>

definition refreshed :: "NebulaEngine \<Rightarrow> js_value \<Rightarrow> jsstring option \<Rightarrow> RefreshResult \<Rightarrow> exchange" where
  "refreshed eng tok d res = (eng, Refresh tok d, Refreshed res)"

lemma handle_Refresh: "handle eng (Refresh tok d) = map_prog id (refreshed eng tok d) (refresh eng tok d)"
  by (simp add: handle_def refreshed_def [abs_def] prog.map_comp comp_def id_def)

lemma wins_refreshed [simp]:
  "\<not> wins s n (refreshed eng tok d (RefreshFailure e u f))" "\<not> wins s n (refreshed eng tok d (fail e r))"
  by (auto simp: wins_def refreshed_def fail_def)

lemma engine_kid: "engine_wf eng \<Longrightarrow> valid_kid (activeKid eng)"
  by (auto simp: engine_wf_def valid_pepper_def)

lemma tracked_rotate:
  assumes "engine_wf eng" "parseToken tok = Some p" "selector r = p_selector p"
    "selector r = s \<Longrightarrow> st = Active \<or> permit g"
  shows "tracked s g (map_prog id (refreshed eng tok d) (rotate_token eng r d now st t))"
proof -
  have sel: "n = toBase64url sel"
    if "parseToken (JString (format_token (activeKid eng) (toBase64url sel) v)) = Some q" "n = p_selector q"
      "length sel = SELECTOR_BYTES" "length v = VERIFIER_BYTES" for n sel v q
    using that parseToken_format [OF engine_kid [OF assms(1)] valid_selector_toBase64url [OF that(3)] that(4)] by auto
  show ?thesis using assms(2-)
    by (auto simp: rotate_token_def mint_def wins_def refreshed_def fail_def dest: sel split: sum.splits)
qed

lemma tracked_handleReuse:
  assumes "engine_wf eng" "parseToken tok = Some p" "selector r = p_selector p"
    "selector r = s \<Longrightarrow> set_option (replacedBySelector r) \<subseteq> seen g"
  shows "tracked s g (map_prog id (refreshed eng tok d) (handleReuse eng r pepper d now))"
proof -
  have "tracked s g' (map_prog id (refreshed eng tok d) (rotate_token eng r d now Rotated t))"
    if "selector r = s \<Longrightarrow> permit g'" for g' t
    using tracked_rotate [OF assms(1-3)] that by blast
  then show ?thesis using withinGrace_Some [of eng r now] assms(4)
    by (auto simp: handleReuse_def Let_def split: option.splits)
qed

lemma tracked_refresh:
  assumes "engine_wf eng"
  shows "tracked s g (map_prog id (refreshed eng tok d) (refresh eng tok d))"
  by (auto simp: refresh_def intro!: tracked_handleReuse [OF assms] tracked_rotate [OF assms]
      split: option.splits)

lemma tracked_handle:
  assumes "engine_wf eng"
  shows "tracked s no_ghost (handle eng req)"
proof (cases req)
  case (Refresh tok d)
  then show ?thesis using tracked_refresh [OF assms] by (simp only: handle_Refresh)
qed (auto simp: handle_def wins_def issue_def mint_def revokeToken_def engine_revokeFamily_def
      revokeAllForUser_def split: option.splits sum.splits)

section \<open>Without a grace window: one winner\<close>

text \<open>
  When the grace window is off, the only way to a success for \<open>s\<close> is the compare-and-set of an active
  record. The ghost says whether the thread has won it.
\<close>

primrec once :: "jsstring \<Rightarrow> bool \<Rightarrow> ('e, exchange) prog \<Rightarrow> bool" where
  "once s won (Return x) = ((\<exists>n. wins s n x) \<longrightarrow> won)"
| "once s won (Throw e) = True"
| "once s won (FindBySelector s1 k) =
     (\<forall>x. (\<forall>r. x = Some r \<longrightarrow> selector r = s1) \<longrightarrow> once s won (k x))"
| "once s won (Insert r p) = once s won p"
| "once s won (MarkRotated s1 st t n k) =
     (once s won (k False) \<and>
      (if s1 = s then st = Active \<and> once s True (k True) else once s won (k True)))"
| "once s won (RevokeIfActive n k) = (\<forall>b. once s won (k b))"
| "once s won (RevokeFamily f k) = (\<forall>n. once s won (k n))"
| "once s won (RevokeUser u k) = (\<forall>n. once s won (k n))"
| "once s won (Clock k) = (\<forall>t. once s won (k t))"
| "once s won (RandomBytes n k) = (\<forall>bs. once s won (k bs))"

definition spent :: "rows \<Rightarrow> jsstring \<Rightarrow> bool" where
  "spent m s \<longleftrightarrow> (\<exists>r. m s = Some r \<and> status r \<noteq> Active)"

definition winners_ok :: "jsstring \<Rightarrow> rows \<Rightarrow> bool list \<Rightarrow> bool" where
  "winners_ok s m ws \<longleftrightarrow> (True \<in> set ws \<longrightarrow> spent m s) \<and> length (filter id ws) \<le> 1"

lemma winners_ok_progress:
  "winners_ok s m ws \<Longrightarrow> progress m m' \<Longrightarrow> winners_ok s m' ws"
  by (auto simp: winners_ok_def spent_def dest: progress_status)

lemma winners_ok_first:
  assumes "winners_ok s m ws" "\<not> spent m s" "spent m' s" "i < length ws"
  shows "winners_ok s m' (ws[i := True])"
proof -
  have "filter id ws = []" using assms(1,2) by (auto simp: winners_ok_def filter_empty_conv)
  then have "filter id (take i ws) = []" "filter id (drop (Suc i) ws) = []"
    using assms(1,2) by (auto simp: winners_ok_def filter_empty_conv dest: in_set_takeD in_set_dropD)
  then show ?thesis using assms(3,4) by (simp add: winners_ok_def upd_conv_take_nth_drop)
qed

lemma first_step_once:
  assumes wf: "rows_wf (db w)" and d: "knows (db w) K" "disciplined Q K p"
    and ws: "winners_ok s (db w) ws" "i < length ws" and o: "once s (ws ! i) p"
    and step: "first_step spec_store p w = Some (t, w')"
  shows "\<exists>g. winners_ok s (db w') (ws[i := g]) \<and> (\<forall>p'. t = Inr p' \<longrightarrow> once s g p')"
proof (cases "\<exists>st u n k. p = MarkRotated s st u n k \<and> has_status (db w) s st")
  case True
  then obtain st u n k where p: "p = MarkRotated s st u n k" "has_status (db w) s st" by blast
  then have "\<not> spent (db w) s" "spent (mark_rows s st u n (db w)) s" "once s True (k True)"
    using o by (auto simp: spent_def has_status_def mark_rows_def rotate_to_def)
  then show ?thesis using step p winners_ok_first [OF ws(1) _ _ ws(2)]
    by (auto simp: spec_store_def intro!: exI [of _ True])
next
  case False
  have "progress (db w) (db w')" using first_step_disciplined [OF wf d step] by blast
  then have "winners_ok s (db w') (ws[i := ws ! i])" using winners_ok_progress [OF ws(1)] by simp
  moreover have "once s (ws ! i) p'" if "t = Inr p'" for p'
    using o step that False rows_wfD(1) [OF wf]
    by (cases p) (auto simp: spec_store_def randomBytes_def split: if_splits, metis (full_types))
  ultimately show ?thesis by blast
qed

interpretation winners: ghost_invariant Q "winners_ok s" "once s" False for Q s
proof unfold_locales
  fix w w' :: "rows world" and p :: "('e, exchange) prog" and K ws i t
  assume "rows_wf (db w)" "knows (db w) K" "disciplined Q K p" "winners_ok s (db w) ws" "i < length ws"
    "once s (ws ! i) p" "first_step spec_store p w = Some (t, w')"
  then show "\<exists>g. winners_ok s (db w') (ws[i := g]) \<and> (\<forall>p'. t = Inr p' \<longrightarrow> once s g p')"
    by (rule first_step_once)
qed (auto simp: winners_ok_def)

lemma once_handle:
  assumes "reuseGrace eng = 0"
  shows "once s False (handle eng req)"
proof (cases req)
  case (Refresh tok d)
  have "once s False (map_prog id (refreshed eng tok d) (refresh eng tok d))"
    using assms
    by (auto simp: refresh_def handleReuse_def withinGrace_def rotate_token_def mint_def
        wins_def refreshed_def fail_def split: option.splits sum.splits)
  then show ?thesis using Refresh by (simp only: handle_Refresh)
qed (auto simp: handle_def wins_def issue_def mint_def revokeToken_def engine_revokeFamily_def
      revokeAllForUser_def split: option.splits sum.splits)

section \<open>Results\<close>

lemma memory_interleaves:
  assumes "interleaves memory_store Ops ([], w) (ts, w')" "mem_valid (db w)"
  shows "interleaves spec_store Ops ([], memory.abs_world w) (ts, memory.abs_world w')" "mem_valid (db w')"
  using memory.interleaves_refine [OF assms(1)] assms(2) by auto

lemma db_abs_world [simp]: "db (memory.abs_world w) = map_of (db w)"
  by (simp add: memory.abs_world_def)

text \<open>A concrete process and a concrete pool, for the examples.\<close>

definition example_engine :: NebulaEngine where
  "example_engine = \<lparr>peppers = [js ''k1'' \<mapsto> js ''0123456789abcdef0123456789abcdef''], activeKid = js ''k1'',
     absoluteTtl = 1000, idleTtl = 100, reuseGrace = 0\<rparr>"

definition example_world :: "memory world" where
  "example_world = \<lparr>db = [], entropy = (\<lambda>n. of_nat n), clock = 5000\<rparr>"

definition example_pool :: "(NebulaConfigError, exchange) thread list" where
  "example_pool = [Inr (handle example_engine (Issue (js ''alice'') None)),
     Inr (handle example_engine (Refresh (JString (js ''nbl'')) None))]"

lemma example_engine_wf: "engine_wf example_engine"
proof -
  have "valid_pepper (js ''k1'', JString (js ''0123456789abcdef0123456789abcdef''))" by code_simp
  then show ?thesis by (simp add: engine_wf_def example_engine_def)
qed

lemma interleaves_spawn:
  assumes "eng \<in> engines" "interleaves S (handled engines) (ts @ [Inr (handle eng req)], w) c"
  shows "interleaves S (handled engines) (ts, w) c"
  by (rule converse_rtranclp_into_rtranclp [OF interleave_spawn assms(2)])
     (use assms(1) in \<open>auto simp: handled_def\<close>)

lemma example_reachable:
  "interleaves memory_store (handled {example_engine}) ([], example_world) (example_pool, example_world)"
  by (rule interleaves_spawn [of example_engine _ _ _ "Issue (js ''alice'') None"], simp,
      rule interleaves_spawn [of example_engine _ _ _ "Refresh (JString (js ''nbl'')) None"], simp)
     (simp add: example_pool_def)

lemma example_valid: "mem_valid (db example_world)" "rows_wf (map_of (db example_world))"
  by (simp_all add: example_world_def mem_valid_def rows_wf_def)

text \<open>
  \<^bold>\<open>C8.\<close> Whatever requests several processes serve on one store and however their store calls
  interleave, the rows stay well formed (digests, deadlines, every rotated row linked to an existing
  successor of the same family, user and absolute deadline, one generation on), no row disappears,
  the immutable fields of a row never change, its status only moves from active to rotated to revoked,
  and a recorded rotation time is never altered, so the grace window cannot be extended.
\<close>

theorem interleaving_invariant:
  assumes "interleaves memory_store (handled engines) ([], w) (ts, w')"
    and "mem_valid (db w)" "rows_wf (map_of (db w))"
  shows "mem_valid (db w') \<and> rows_wf (map_of (db w')) \<and> progress (map_of (db w)) (map_of (db w'))"
proof -
  note m = memory_interleaves [OF assms(1,2)]
  have "pool_ok (exchange_post engines) ([], memory.abs_world w)" using assms(3) by (simp add: pool_ok_def)
  from interleaves_disciplined [OF m(1) this disciplined_handled] m(2) show ?thesis
    by (simp add: pool_ok_def)
qed

theorem interleaving_invariant_witness:
  "mem_valid (db example_world) \<and> rows_wf (map_of (db example_world)) \<and>
    progress (map_of (db example_world)) (map_of (db example_world))"
  by (rule interleaving_invariant [OF example_reachable example_valid])

text \<open>
  \<^bold>\<open>C1.\<close> No fork: in every interleaving, and whatever the grace windows of the processes, at most
  one of the successful refreshes of the same presented token has handed out a token that is still
  active.
\<close>

theorem no_fork:
  assumes "interleaves memory_store (handled engines) ([], w) (ts, w')"
    and "mem_valid (db w)" "rows_wf (map_of (db w))" "\<And>eng. eng \<in> engines \<Longrightarrow> engine_wf eng"
  shows "card {i. i < length ts \<and> (\<exists>x n. ts ! i = Inr (Return x) \<and> wins s n x \<and> alive (map_of (db w')) n)} \<le> 1"
proof -
  note m = memory_interleaves [OF assms(1,2)]
  have "\<exists>gs. forks.holds s (ts, memory.abs_world w') gs"
    by (rule forks.interleaves_holds [OF m(1), of "exchange_post engines"])
       (use assms(3,4) disciplined_handled in \<open>auto simp: handled_def intro: tracked_handle\<close>)
  then obtain gs where gs: "forks.holds s (ts, memory.abs_world w') gs" by blast
  have "i = j" if "i < length ts" "j < length ts" "ts ! i = Inr (Return x)" "wins s a x"
      "ts ! j = Inr (Return y)" "wins s b y" "alive (map_of (db w')) a" "alive (map_of (db w')) b" for i j x y a b
    using forks.holds_thread [OF gs that(1,3)] forks.holds_thread [OF gs that(2,5)] that
      ghosts_no_fork [of "map_of (db w')" s gs i j x a y b] by auto
  then show ?thesis by (intro card_le_Suc0_iff_eq [THEN iffD2, folded One_nat_def]) auto
qed

theorem no_fork_witness:
  "card {i. i < length example_pool \<and> (\<exists>x n. example_pool ! i = Inr (Return x) \<and> wins (js ''s'') n x \<and>
     alive (map_of (db example_world)) n)} \<le> 1"
  by (rule no_fork [OF example_reachable example_valid]) (simp add: example_engine_wf)

text \<open>
  \<^bold>\<open>C2.\<close> Single use: when the grace window is off in every process, at most one refresh of a given
  token ever succeeds, however many run concurrently.
\<close>

theorem single_winner:
  assumes "interleaves memory_store (handled engines) ([], w) (ts, w')"
    and "mem_valid (db w)" "rows_wf (map_of (db w))" "\<And>eng. eng \<in> engines \<Longrightarrow> reuseGrace eng = 0"
  shows "card {i. i < length ts \<and> (\<exists>x n. ts ! i = Inr (Return x) \<and> wins s n x)} \<le> 1"
proof -
  note m = memory_interleaves [OF assms(1,2)]
  have "\<exists>ws. winners.holds s (ts, memory.abs_world w') ws"
    by (rule winners.interleaves_holds [OF m(1), of "exchange_post engines"])
       (use assms(3,4) disciplined_handled in \<open>auto simp: handled_def intro: once_handle\<close>)
  then obtain ws where ws: "winners.holds s (ts, memory.abs_world w') ws" by blast
  have len: "length ws = length ts" using ws by (auto simp: winners.holds_def dest: list_all2_lengthD)
  have "ws ! i" if "i < length ts" "ts ! i = Inr (Return x)" "wins s n x" for i x n
    using winners.holds_thread(1) [OF ws that(1,2)] that(3) by auto
  then have "{i. i < length ts \<and> (\<exists>x n. ts ! i = Inr (Return x) \<and> wins s n x)} \<subseteq> {i. i < length ws \<and> id (ws ! i)}"
    using len by auto
  then have "card {i. i < length ts \<and> (\<exists>x n. ts ! i = Inr (Return x) \<and> wins s n x)} \<le> length (filter id ws)"
    by (simp add: length_filter_conv_card card_mono)
  also have "\<dots> \<le> 1" using ws by (simp add: winners.holds_def winners_ok_def)
  finally show ?thesis .
qed

theorem single_winner_witness:
  "card {i. i < length example_pool \<and> (\<exists>x n. example_pool ! i = Inr (Return x) \<and> wins (js ''s'') n x)} \<le> 1"
  by (rule single_winner [OF example_reachable example_valid]) (simp add: example_engine_def)

end
