(* ===== verification/Engine_Behaviour.thy ===== *)
theory Engine_Behaviour
  imports Server
begin

text \<open>
  What each operation returns and does when it runs without interference: which tokens \<open>refresh\<close>
  accepts and how the store changes on every outcome, what \<open>revokeToken\<close> does, how a session lives
  and ends. The results are computed on the abstract store and transferred to the in-memory store
  through the refinement of the contract.
\<close>

section \<open>Running on the abstract store\<close>

lemma run_spec_store [store_simps]:
  "run spec_store (FindBySelector s k) w = run spec_store (k (db w s)) w"
  "run spec_store (MarkRotated s st t s' k2) w =
     run spec_store (k2 (has_status (db w) s st)) (w\<lparr>db := mark_rows s st t s' (db w)\<rparr>)"
  "run spec_store (RevokeIfActive s k2) w =
     run spec_store (k2 (has_status (db w) s Active)) (w\<lparr>db := revoke_active s (db w)\<rparr>)"
  "run spec_store (RevokeFamily f k3) w =
     run spec_store (k3 (card (revocable (\<lambda>r. familyId r = f) (db w))))
       (w\<lparr>db := revoke_where (\<lambda>r. familyId r = f) (db w)\<rparr>)"
  "run spec_store (RevokeUser f k3) w =
     run spec_store (k3 (card (revocable (\<lambda>r. userId r = f) (db w))))
       (w\<lparr>db := revoke_where (\<lambda>r. userId r = f) (db w)\<rparr>)"
  "run spec_store (Insert r p) w =
     (if db w (selector r) = None then run spec_store p (w\<lparr>db := (db w)(selector r \<mapsto> r)\<rparr>)
      else (Rejected (DuplicateSelector (selector r)), w))"
  by (simp_all add: spec_store_def)

declare run.simps(3-8) [simp del]

text \<open>The next draws of \<open>#mint\<close>.\<close>

definition next_selector :: "'s world \<Rightarrow> bytes" where
  "next_selector w = fst (randomBytes SELECTOR_BYTES (entropy w))"

definition next_verifier :: "'s world \<Rightarrow> bytes" where
  "next_verifier w = fst (randomBytes VERIFIER_BYTES (snd (randomBytes SELECTOR_BYTES (entropy w))))"

definition drawn :: "'s world \<Rightarrow> 's world" where
  "drawn w = w\<lparr>entropy := snd (randomBytes VERIFIER_BYTES (snd (randomBytes SELECTOR_BYTES (entropy w))))\<rparr>"

definition fresh :: "rows world \<Rightarrow> bool" where
  "fresh w \<longleftrightarrow> db w (toBase64url (next_selector w)) = None"

lemma length_draws [simp]:
  "length (next_selector w) = SELECTOR_BYTES" "length (next_verifier w) = VERIFIER_BYTES"
  by (simp_all add: next_selector_def next_verifier_def)

lemma drawn_simps [simp]:
  "db (drawn w) = db w" "clock (drawn w) = clock w"
  by (simp_all add: drawn_def)

lemma draws_db [simp]:
  "next_selector (w\<lparr>db := d\<rparr>) = next_selector w" "next_verifier (w\<lparr>db := d\<rparr>) = next_verifier w"
  "drawn (w\<lparr>db := d\<rparr>) = (drawn w)\<lparr>db := d\<rparr>"
  by (simp_all add: next_selector_def next_verifier_def drawn_def)

lemma run_mint [store_simps]:
  "run S (mint eng args cont) w =
     run S (cont (format_token (activeKid eng) (toBase64url (next_selector w)) (next_verifier w),
       mint_record eng args (next_selector w) (next_verifier w))) (drawn w)"
  by (simp add: mint_def drawn_def next_selector_def next_verifier_def split: prod.splits)

section \<open>Authentication\<close>

text \<open>Steps 1 to 4 of the protocol, which \<open>refresh\<close> and \<open>revokeToken\<close> share.\<close>

definition authenticates ::
  "NebulaEngine \<Rightarrow> rows \<Rightarrow> js_value \<Rightarrow> TokenRecord \<Rightarrow> jsstring \<Rightarrow> bool" where
  "authenticates eng m tok r pepper \<longleftrightarrow> (\<exists>p. parseToken tok = Some p \<and>
     peppers eng (p_kid p) \<noteq> None \<and> m (p_selector p) = Some r \<and>
     peppers eng (kid r) = Some pepper \<and> verifierHash r = hashVerifier pepper (p_verifier p))"

definition denial :: "NebulaEngine \<Rightarrow> rows \<Rightarrow> js_value \<Rightarrow> NebulaErrorCode" where
  "denial eng m tok = (case parseToken tok of None \<Rightarrow> MALFORMED
     | Some p \<Rightarrow> if peppers eng (p_kid p) = None then UNKNOWN_KID
         else case m (p_selector p) of None \<Rightarrow> NOT_FOUND
           | Some r \<Rightarrow> if peppers eng (kid r) = None then UNKNOWN_KID else VERIFIER_MISMATCH)"

text \<open>
  The record a failure is attributed to: the one the token names, once the key of the token and that of the
  record are known. Whether the verifier is right does not matter.
\<close>

definition named_record :: "NebulaEngine \<Rightarrow> rows \<Rightarrow> js_value \<Rightarrow> TokenRecord option" where
  "named_record eng m tok = (case parseToken tok of None \<Rightarrow> None
     | Some p \<Rightarrow> if peppers eng (p_kid p) = None then None
         else case m (p_selector p) of None \<Rightarrow> None
           | Some r \<Rightarrow> if peppers eng (kid r) = None then None else Some r)"

lemma authenticates_named: "authenticates eng m tok r pepper \<Longrightarrow> named_record eng m tok = Some r"
  by (auto simp: authenticates_def named_record_def)

lemma authenticates_unique:
  "authenticates eng m tok r pepper \<Longrightarrow> authenticates eng m tok r' pepper' \<Longrightarrow> r = r' \<and> pepper = pepper'"
  by (auto simp: authenticates_def)

lemma verifier_check:
  "constantTimeEqualHex (JString (hashVerifier pepper v)) (JString h) \<longleftrightarrow> h = hashVerifier pepper v"
  by (auto simp: constantTimeEqualHex_eq)

text \<open>The part of \<open>refresh\<close> after authentication.\<close>

definition refresh_record ::
  "NebulaEngine \<Rightarrow> TokenRecord \<Rightarrow> jsstring \<Rightarrow> jsstring option \<Rightarrow> int \<Rightarrow> RefreshResult engine_prog" where
  "refresh_record eng r pepper d now =
     (if status r = Rotated then handleReuse eng r pepper d now
      else if status r = Revoked then Return (fail REVOKED r)
      else if now \<ge> familyExpiresAt r then
        RevokeFamily (familyId r) (\<lambda>_. Return (fail EXPIRED_ABSOLUTE r))
      else if now \<ge> idleExpiresAt r then
        RevokeFamily (familyId r) (\<lambda>_. Return (fail EXPIRED_IDLE r))
      else (case bindingHolds r pepper d of
          Inl _ \<Rightarrow> Throw InvalidDeviceId
        | Inr holds \<Rightarrow> if \<not> holds then RevokeFamily (familyId r) (\<lambda>_. Return (fail DEVICE_MISMATCH r))
            else rotate_token eng r d now Active now))"

lemma run_refresh_authenticated:
  assumes "authenticates eng (db w) tok r pepper"
  shows "run spec_store (refresh eng tok d) w = run spec_store (refresh_record eng r pepper d (clock w)) w"
  using assms by (auto simp: authenticates_def refresh_def refresh_record_def store_simps verifier_check)

lemma run_refresh_denied:
  assumes "\<nexists>r pepper. authenticates eng (db w) tok r pepper"
  shows "run spec_store (refresh eng tok d) w =
    (Value (RefreshFailure (denial eng (db w) tok) (map_option userId (named_record eng (db w) tok))
       (map_option familyId (named_record eng (db w) tok))), w)"
  using assms
  by (auto simp: authenticates_def refresh_def denial_def named_record_def store_simps verifier_check fail_def
      split: option.splits)

lemma run_revokeToken_authenticated:
  assumes "authenticates eng (db w) tok r pepper"
  shows "run spec_store (revokeToken eng tok) w =
    (Value (RevokeSuccess (userId r) (familyId r) (card (revocable (\<lambda>q. familyId q = familyId r) (db w)))),
     w\<lparr>db := revoke_where (\<lambda>q. familyId q = familyId r) (db w)\<rparr>)"
  using assms by (auto simp: authenticates_def revokeToken_def store_simps verifier_check)

lemma run_revokeToken_denied:
  assumes "\<nexists>r pepper. authenticates eng (db w) tok r pepper"
  shows "\<exists>u f. run spec_store (revokeToken eng tok) w = (Value (RevokeFailure (denial eng (db w) tok) u f), w)"
  using assms
  by (auto simp: authenticates_def revokeToken_def denial_def store_simps verifier_check split: option.splits)

section \<open>Rotation\<close>

text \<open>The record that replaces \<open>r\<close> when it is rotated now, and the result the client gets.\<close>

definition successor_args :: "TokenRecord \<Rightarrow> jsstring option \<Rightarrow> int \<Rightarrow> mint_args" where
  "successor_args r dh now = \<lparr>a_userId = userId r, a_familyId = familyId r,
     a_generation = generation r + 1, a_deviceIdHash = dh, a_familyExpiresAt = familyExpiresAt r, a_now = now\<rparr>"

definition successor :: "NebulaEngine \<Rightarrow> TokenRecord \<Rightarrow> jsstring option \<Rightarrow> 's world \<Rightarrow> TokenRecord" where
  "successor eng r dh w = mint_record eng (successor_args r dh (clock w)) (next_selector w) (next_verifier w)"

definition rotation_result :: "NebulaEngine \<Rightarrow> TokenRecord \<Rightarrow> 's world \<Rightarrow> IssueResult" where
  "rotation_result eng r w = \<lparr>
     token = format_token (activeKid eng) (toBase64url (next_selector w)) (next_verifier w),
     res_userId = userId r, res_familyId = familyId r, res_generation = generation r + 1,
     res_expiresAt = familyExpiresAt r,
     res_idleExpiresAt = min (clock w + idleTtl eng) (familyExpiresAt r)\<rparr>"

lemma run_rotate:
  assumes "successorDeviceHash eng r d = Inr dh" "fresh w" "has_status (db w) (selector r) st"
  shows "run spec_store (rotate_token eng r d (clock w) st t) w =
    (Value (RefreshSuccess (rotation_result eng r w)),
     (drawn w)\<lparr>db := mark_rows (selector r) st t (toBase64url (next_selector w))
       ((db w)(toBase64url (next_selector w) \<mapsto> successor eng r dh w))\<rparr>)"
proof -
  have "selector r \<noteq> toBase64url (next_selector w)"
    using assms(2,3) by (auto simp: fresh_def has_status_def)
  then show ?thesis using assms
    by (simp add: rotate_token_def store_simps successor_def successor_args_def rotation_result_def fresh_def
        has_status_def)
qed

lemma run_rotate_duplicate:
  assumes "successorDeviceHash eng r d = Inr dh" "\<not> fresh w"
  shows "run spec_store (rotate_token eng r d now st t) w =
    (Rejected (DuplicateSelector (toBase64url (next_selector w))), drawn w)"
  using assms by (auto simp: rotate_token_def store_simps fresh_def)

text \<open>A device that satisfies the binding has a hash under the active pepper.\<close>

lemma bound_successorDeviceHash:
  "bound_to r pepper d \<Longrightarrow> \<exists>dh. successorDeviceHash eng r d = Inr dh"
  by (auto simp: bound_to_def deviceMatches_def successorDeviceHash_def hashDeviceId_def
      split: option.splits if_splits)

section \<open>Which tokens refresh accepts\<close>

definition retryable :: "NebulaEngine \<Rightarrow> rows \<Rightarrow> TokenRecord \<Rightarrow> int \<Rightarrow> bool" where
  "retryable eng m r now \<longleftrightarrow> status r = Rotated \<and> withinGrace eng r now \<and>
     has_status m (the (replacedBySelector r)) Active"

definition current :: "TokenRecord \<Rightarrow> int \<Rightarrow> bool" where
  "current r now \<longleftrightarrow> status r = Active \<and> now < familyExpiresAt r \<and> now < idleExpiresAt r"

definition acceptable :: "NebulaEngine \<Rightarrow> rows \<Rightarrow> js_value \<Rightarrow> jsstring option \<Rightarrow> int \<Rightarrow> bool" where
  "acceptable eng m tok d now \<longleftrightarrow> (\<exists>r pepper. authenticates eng m tok r pepper \<and>
     (current r now \<or> retryable eng m r now) \<and> bound_to r pepper d)"

text \<open>The error an authenticated but unacceptable token gets.\<close>

definition refusal :: "NebulaEngine \<Rightarrow> rows \<Rightarrow> TokenRecord \<Rightarrow> int \<Rightarrow> NebulaErrorCode" where
  "refusal eng m r now =
     (case status r of
        Revoked \<Rightarrow> REVOKED
      | Rotated \<Rightarrow> if retryable eng m r now then DEVICE_MISMATCH else REUSE_DETECTED
      | Active \<Rightarrow> if now \<ge> familyExpiresAt r then EXPIRED_ABSOLUTE
                  else if now \<ge> idleExpiresAt r then EXPIRED_IDLE else DEVICE_MISMATCH)"

lemma run_refused:
  assumes "\<not> ((current r (clock w) \<or> retryable eng (db w) r (clock w)) \<and> bound_to r pepper d)"
  shows "run spec_store (refresh_record eng r pepper d (clock w)) w =
    (Value (fail (refusal eng (db w) r (clock w)) r),
     if status r = Revoked then w else w\<lparr>db := revoke_where (\<lambda>q. familyId q = familyId r) (db w)\<rparr>)"
  using assms
  by (cases "status r")
     (auto simp: refresh_record_def store_simps refusal_def current_def retryable_def bound_to_def
       handleReuse_def has_status_def Let_def split: option.splits)

text \<open>The store just before the rotation write: a retry has consumed the unused successor.\<close>

definition retired :: "TokenRecord \<Rightarrow> rows \<Rightarrow> rows" where
  "retired r m = (if status r = Rotated then revoke_active (the (replacedBySelector r)) m else m)"

definition rotation_time :: "TokenRecord \<Rightarrow> int \<Rightarrow> int" where
  "rotation_time r now = (if status r = Rotated then the (rotatedAt r) else now)"

lemma run_accepted:
  assumes "rows_wf (db w)" "db w (selector r) = Some r" "fresh w" "bound_to r pepper d"
    "current r (clock w) \<or> retryable eng (db w) r (clock w)" "successorDeviceHash eng r d = Inr dh"
  shows "run spec_store (refresh_record eng r pepper d (clock w)) w =
    (Value (RefreshSuccess (rotation_result eng r w)),
     (drawn w)\<lparr>db := (retired r (db w))(toBase64url (next_selector w) \<mapsto> successor eng r dh w,
        selector r \<mapsto> rotate_to (rotation_time r (clock w)) (toBase64url (next_selector w)) r)\<rparr>)"
proof -
  have ne: "toBase64url (next_selector w) \<noteq> selector r" using assms(2,3) by (auto simp: fresh_def)
  show ?thesis
  proof (cases "status r")
    case Active
    then have "run spec_store (refresh_record eng r pepper d (clock w)) w =
        run spec_store (rotate_token eng r d (clock w) Active (clock w)) w"
      using assms(4,5) by (auto simp: refresh_record_def current_def retryable_def bound_to_def)
    then show ?thesis using run_rotate [OF assms(6,3), of Active] Active assms(2) ne
      by (simp add: has_status_def mark_rows_def retired_def rotation_time_def)
  next
    case Rotated
    then have g: "withinGrace eng r (clock w)" "has_status (db w) (the (replacedBySelector r)) Active"
      using assms(5) by (auto simp: current_def retryable_def)
    let ?s = "the (replacedBySelector r)"
    obtain q where q: "db w ?s = Some q" "status q = Active" "selector q = ?s"
      using g(2) rows_wfD(1) [OF assms(1)] by (auto simp: has_status_def)
    let ?w = "w\<lparr>db := revoke_active ?s (db w)\<rparr>"
    have "run spec_store (refresh_record eng r pepper d (clock w)) w =
        run spec_store (rotate_token eng r d (clock ?w) Rotated (the (rotatedAt r))) ?w"
      using Rotated g q assms(4)
      by (auto simp: refresh_record_def handleReuse_def Let_def store_simps bound_to_def has_status_def)
    moreover have "?s \<noteq> selector r" using q assms(2) Rotated by auto
    then have row: "db ?w (selector r) = Some r" by (simp add: revoke_active_def assms(2))
    moreover have "fresh ?w" using assms(3) q by (auto simp: fresh_def revoke_active_def)
    ultimately show ?thesis using run_rotate [OF assms(6), of ?w Rotated] Rotated ne
      by (simp add: has_status_def mark_rows_def retired_def rotation_time_def successor_def
          rotation_result_def)
  next
    case Revoked
    then show ?thesis using assms(5) by (auto simp: current_def retryable_def)
  qed
qed

lemma run_collision:
  assumes "rows_wf (db w)" "db w (selector r) = Some r" "\<not> fresh w" "bound_to r pepper d"
    "current r (clock w) \<or> retryable eng (db w) r (clock w)"
  shows "fst (run spec_store (refresh_record eng r pepper d (clock w)) w) =
    Rejected (DuplicateSelector (toBase64url (next_selector w)))"
proof -
  obtain dh where dh: "successorDeviceHash eng r d = Inr dh"
    using bound_successorDeviceHash [OF assms(4)] by blast
  show ?thesis
  proof (cases "status r")
    case Active
    then show ?thesis using assms run_rotate_duplicate [OF dh assms(3)]
      by (auto simp: refresh_record_def current_def retryable_def bound_to_def)
  next
    case Rotated
    let ?s = "the (replacedBySelector r)"
    have "\<not> fresh (w\<lparr>db := revoke_active ?s (db w)\<rparr>)"
      using assms(3) by (auto simp: fresh_def revoke_active_def)
    note dup = run_rotate_duplicate [OF dh this]
    obtain q where "db w ?s = Some q" "status q = Active" "selector q = ?s"
      using Rotated assms(5) rows_wfD(1) [OF assms(1)] by (auto simp: current_def retryable_def has_status_def)
    then show ?thesis using Rotated assms(4,5) dup
      by (auto simp: refresh_record_def handleReuse_def Let_def store_simps bound_to_def has_status_def
          current_def retryable_def)
  next
    case Revoked
    then show ?thesis using assms(5) by (auto simp: current_def retryable_def)
  qed
qed

end
