(* ===== verification/Engine_Theorems.thy ===== *)
theory Engine_Theorems
  imports Engine_Behaviour Concurrency
begin

text \<open>
  The behaviour of the engine over the in-memory store: the statements of theory \<open>Engine_Behaviour\<close>
  transferred through the refinement, with a concrete session as the example for each.
\<close>

section \<open>Transfer\<close>

lemma memory_run:
  assumes "mem_valid (db w)"
  shows "run spec_store p (memory.abs_world w) =
      (fst (run memory_store p w), memory.abs_world (snd (run memory_store p w)))"
    and "mem_valid (db (snd (run memory_store p w)))"
proof -
  obtain w' where w': "run memory_store p w = (fst (run spec_store p (memory.abs_world w)), w')"
    "mem_valid (db w')" "memory.abs_world w' = snd (run spec_store p (memory.abs_world w))"
    using memory.run_refines [of w p] assms by auto
  then show "run spec_store p (memory.abs_world w) =
      (fst (run memory_store p w), memory.abs_world (snd (run memory_store p w)))"
    by (cases "run spec_store p (memory.abs_world w)") simp
  show "mem_valid (db (snd (run memory_store p w)))" using w' by simp
qed

lemma memory_transfer:
  assumes "mem_valid (db w)" "run spec_store p (memory.abs_world w) = (out, a)"
  shows "\<exists>w'. run memory_store p w = (out, w') \<and> mem_valid (db w') \<and> map_of (db w') = db a \<and>
    entropy w' = entropy a \<and> clock w' = clock a"
proof (intro exI conjI)
  have eq: "fst (run memory_store p w) = out" "memory.abs_world (snd (run memory_store p w)) = a"
    using memory_run(1) [OF assms(1), of p] assms(2) by simp_all
  show "run memory_store p w = (out, snd (run memory_store p w))" using eq(1) by (simp add: prod_eq_iff)
  show "mem_valid (db (snd (run memory_store p w)))" by (rule memory_run(2) [OF assms(1)])
qed (use memory_run(1) [OF assms(1), of p] assms(2) in \<open>auto simp: memory.abs_world_def\<close>)

lemma abs_world_draws [simp]:
  "next_selector (memory.abs_world w) = next_selector w"
  "next_verifier (memory.abs_world w) = next_verifier w"
  "clock (memory.abs_world w) = clock w"
  "rotation_result eng r (memory.abs_world w) = rotation_result eng r w"
  "successor eng r dh (memory.abs_world w) = successor eng r dh w"
  by (simp_all add: memory.abs_world_def next_selector_def next_verifier_def rotation_result_def successor_def)

lemma entropy_drawn_abs: "entropy (drawn (memory.abs_world w)) = entropy (drawn w)"
  by (simp add: drawn_def memory.abs_world_def)

definition unused :: "memory world \<Rightarrow> bool" where
  "unused w \<longleftrightarrow> map_of (db w) (toBase64url (next_selector w)) = None"

lemma fresh_abs_world [simp]: "fresh (memory.abs_world w) \<longleftrightarrow> unused w"
  by (simp add: fresh_def unused_def)

section \<open>A concrete session\<close>

definition example_pepper :: jsstring where
  "example_pepper = js ''0123456789abcdef0123456789abcdef''"

definition example_row :: TokenRecord where
  "example_row = mint_record example_engine \<lparr>a_userId = js ''alice'', a_familyId = js ''fam'',
     a_generation = 0, a_deviceIdHash = None, a_familyExpiresAt = 6000, a_now = 5000\<rparr>
     (replicate 16 1) (replicate 32 2)"

definition example_token :: js_value where
  "example_token = JString (format_token (js ''k1'') (selector example_row) (replicate 32 2))"

definition live_world :: "memory world" where
  "live_world = \<lparr>db = [(selector example_row, example_row)], entropy = (\<lambda>_. 7), clock = 5050\<rparr>"

text \<open>The same session after one refresh at time 5010.\<close>

definition example_next :: TokenRecord where
  "example_next = mint_record example_engine \<lparr>a_userId = js ''alice'', a_familyId = js ''fam'',
     a_generation = 1, a_deviceIdHash = None, a_familyExpiresAt = 6000, a_now = 5010\<rparr>
     (replicate 16 3) (replicate 32 4)"

definition example_old :: TokenRecord where
  "example_old = rotate_to 5010 (selector example_next) example_row"

definition replay_world :: "memory world" where
  "replay_world = live_world\<lparr>db := [(selector example_old, example_old), (selector example_next, example_next)]\<rparr>"

lemma example_kid: "valid_kid (js ''k1'')" "activeKid example_engine = js ''k1''"
  using engine_kid [OF example_engine_wf] by (simp_all add: example_engine_def)

lemma example_parse: "parseToken example_token =
    Some \<lparr>p_kid = js ''k1'', p_selector = selector example_row, p_verifier = replicate 32 2\<rparr>"
  unfolding example_token_def
  by (intro parseToken_format) (auto simp: example_kid example_row_def wire_constants valid_selector_toBase64url)

lemma example_peppers: "peppers example_engine (js ''k1'') = Some example_pepper"
    "activePepper example_engine = example_pepper"
  by (simp_all add: example_engine_def example_pepper_def activePepper_def)

lemma example_row_fields:
  "kid example_row = js ''k1''" "status example_row = Active" "familyExpiresAt example_row = 6000"
  "idleExpiresAt example_row = 5100" "deviceIdHash example_row = None" "familyId example_row = js ''fam''"
  "verifierHash example_row = hashVerifier example_pepper (replicate 32 2)"
  "selector example_row = toBase64url (replicate 16 1)"
  by (simp_all add: example_row_def example_kid example_peppers) (simp add: example_engine_def)

lemma example_old_fields [simp]:
  "kid example_old = kid example_row" "status example_old = Rotated" "familyId example_old = familyId example_row"
  "verifierHash example_old = verifierHash example_row" "selector example_old = selector example_row"
  "rotatedAt example_old = Some 5010" "replacedBySelector example_old = Some (selector example_next)"
  by (simp_all add: example_old_def rotate_to_def)

lemma example_selectors: "selector example_next \<noteq> selector example_row"
proof -
  have "toBase64url (replicate 16 3) \<noteq> toBase64url (replicate 16 1)" by code_simp
  then show ?thesis by (simp add: example_next_def example_row_def)
qed

lemma example_authenticates:
  "authenticates example_engine (map_of (db live_world)) example_token example_row example_pepper"
  "authenticates example_engine (map_of (db replay_world)) example_token example_old example_pepper"
  by (auto simp: authenticates_def example_parse example_peppers live_world_def replay_world_def
      example_row_fields)

lemma example_row_wf: "rec_wf example_row" "rec_wf example_next" "rec_wf example_old"
proof -
  show "rec_wf example_row" "rec_wf example_next"
    unfolding example_row_def example_next_def by (rule mint_record_wf; simp add: wire_constants)+
  then show "rec_wf example_old" by (simp add: example_old_def)
qed

lemma live_world_valid: "mem_valid (db live_world)" "rows_wf (map_of (db live_world))"
proof -
  have "replacedBySelector example_row = None" by (simp add: example_row_def)
  then show "mem_valid (db live_world)" "rows_wf (map_of (db live_world))"
    by (auto simp: live_world_def mem_valid_def rows_wf_def example_row_wf)
qed

lemma replay_world_valid: "mem_valid (db replay_world)" "rows_wf (map_of (db replay_world))"
proof -
  have "replacedBySelector example_next = None" "linked example_old example_next"
    by (simp_all add: example_next_def example_old_def linked_def rotate_to_def example_row_def)
  then show "mem_valid (db replay_world)" "rows_wf (map_of (db replay_world))"
    using example_selectors
    by (auto simp: replay_world_def mem_valid_def rows_wf_def example_row_wf)
qed

lemma live_world_unused: "unused live_world"
proof -
  have "toBase64url (map (\<lambda>_. 7) [0..<16]) \<noteq> toBase64url (replicate 16 1)" by code_simp
  then show ?thesis
    by (simp add: unused_def live_world_def example_row_fields next_selector_def randomBytes_def
        SELECTOR_BYTES_def del: map_replicate_const upt_conv_Cons)
qed

lemma live_accept: "acceptable example_engine (map_of (db live_world)) example_token None (clock live_world)"
  unfolding acceptable_def
  by (rule exI [of _ example_row], rule exI [of _ example_pepper])
     (simp add: example_authenticates current_def bound_to_def example_row_fields, simp add: live_world_def)

section \<open>Refresh\<close>

lemma authenticates_row:
  "authenticates eng m tok r pepper \<Longrightarrow> rows_wf m \<Longrightarrow> m (selector r) = Some r"
  by (auto simp: authenticates_def dest: rows_wfD(1))

lemma memory_refresh_accepted:
  assumes "mem_valid (db w)" "rows_wf (map_of (db w))" "unused w"
    "authenticates eng (map_of (db w)) tok r pepper" "bound_to r pepper d"
    "current r (clock w) \<or> retryable eng (map_of (db w)) r (clock w)"
  shows "\<exists>dh w'. successorDeviceHash eng r d = Inr dh \<and>
    run memory_store (refresh eng tok d) w = (Value (RefreshSuccess (rotation_result eng r w)), w') \<and>
    mem_valid (db w') \<and>
    map_of (db w') = (retired r (map_of (db w)))(toBase64url (next_selector w) \<mapsto> successor eng r dh w,
        selector r \<mapsto> rotate_to (rotation_time r (clock w)) (toBase64url (next_selector w)) r) \<and>
    entropy w' = entropy (drawn w)"
proof -
  obtain dh where dh: "successorDeviceHash eng r d = Inr dh"
    using bound_successorDeviceHash [OF assms(5)] by blast
  let ?a = "memory.abs_world w"
  have "run spec_store (refresh eng tok d) ?a = (Value (RefreshSuccess (rotation_result eng r ?a)),
     (drawn ?a)\<lparr>db := (retired r (db ?a))(toBase64url (next_selector ?a) \<mapsto> successor eng r dh ?a,
        selector r \<mapsto> rotate_to (rotation_time r (clock ?a)) (toBase64url (next_selector ?a)) r)\<rparr>)"
    using assms run_refresh_authenticated [of eng ?a tok r pepper d] authenticates_row [OF assms(4,2)]
      run_accepted [of ?a r pepper d eng dh] dh by simp
  from memory_transfer [OF assms(1) this] show ?thesis using dh by (auto simp: entropy_drawn_abs)
qed

text \<open>Every other run of \<open>refresh\<close>: refused, denied, or stopped by a selector collision.\<close>

definition revoked_family :: "TokenRecord \<Rightarrow> rows \<Rightarrow> rows" where
  "revoked_family r m = revoke_where (\<lambda>q. familyId q = familyId r) m"

lemma memory_refresh_refused:
  assumes "mem_valid (db w)" "authenticates eng (map_of (db w)) tok r pepper"
    "\<not> ((current r (clock w) \<or> retryable eng (map_of (db w)) r (clock w)) \<and> bound_to r pepper d)"
  shows "\<exists>w'. run memory_store (refresh eng tok d) w =
      (Value (fail (refusal eng (map_of (db w)) r (clock w)) r), w') \<and> mem_valid (db w') \<and>
    map_of (db w') = (if status r = Revoked then map_of (db w) else revoked_family r (map_of (db w)))"
proof -
  let ?a = "memory.abs_world w"
  have "run spec_store (refresh eng tok d) ?a = (Value (fail (refusal eng (db ?a) r (clock ?a)) r),
     if status r = Revoked then ?a else ?a\<lparr>db := revoke_where (\<lambda>q. familyId q = familyId r) (db ?a)\<rparr>)"
    using run_refresh_authenticated [of eng ?a tok r pepper d] run_refused [of r ?a eng pepper d] assms(2,3)
    by simp
  from memory_transfer [OF assms(1) this] show ?thesis by (auto simp: revoked_family_def)
qed

lemma memory_refresh_denied:
  assumes "mem_valid (db w)" "\<nexists>r pepper. authenticates eng (map_of (db w)) tok r pepper"
  shows "\<exists>w'. run memory_store (refresh eng tok d) w =
      (Value (RefreshFailure (denial eng (map_of (db w)) tok) (map_option userId (named_record eng (map_of (db w)) tok))
         (map_option familyId (named_record eng (map_of (db w)) tok))), w') \<and> mem_valid (db w') \<and>
    map_of (db w') = map_of (db w)"
proof -
  from run_refresh_denied [of eng "memory.abs_world w" tok d] assms(2) memory_transfer [OF assms(1)]
  show ?thesis unfolding db_abs_world by fastforce
qed

lemma memory_refresh_collision:
  assumes "mem_valid (db w)" "rows_wf (map_of (db w))" "\<not> unused w"
    "authenticates eng (map_of (db w)) tok r pepper" "bound_to r pepper d"
    "current r (clock w) \<or> retryable eng (map_of (db w)) r (clock w)"
  shows "fst (run memory_store (refresh eng tok d) w) =
    Rejected (DuplicateSelector (toBase64url (next_selector w)))"
proof -
  let ?a = "memory.abs_world w"
  have "fst (run spec_store (refresh eng tok d) ?a) = Rejected (DuplicateSelector (toBase64url (next_selector ?a)))"
    using assms run_refresh_authenticated [of eng ?a tok r pepper d] authenticates_row [OF assms(4,2)]
      run_collision [of ?a r pepper d eng] by simp
  then show ?thesis using memory_run(1) [OF assms(1), of "refresh eng tok d"] by simp
qed

text \<open>The four ways a run of \<open>refresh\<close> can go.\<close>

lemma memory_refresh_cases:
  assumes valid: "mem_valid (db w)" "rows_wf (map_of (db w))"
    and run: "run memory_store (refresh eng tok d) w = (out, w')"
  obtains
    (denied) "\<nexists>r pepper. authenticates eng (map_of (db w)) tok r pepper"
      "out = Value (RefreshFailure (denial eng (map_of (db w)) tok) (map_option userId (named_record eng (map_of (db w)) tok))
         (map_option familyId (named_record eng (map_of (db w)) tok)))" "map_of (db w') = map_of (db w)"
  | (refused) r pepper where "authenticates eng (map_of (db w)) tok r pepper"
      "\<not> ((current r (clock w) \<or> retryable eng (map_of (db w)) r (clock w)) \<and> bound_to r pepper d)"
      "out = Value (fail (refusal eng (map_of (db w)) r (clock w)) r)"
      "map_of (db w') = (if status r = Revoked then map_of (db w) else revoked_family r (map_of (db w)))"
  | (accepted) r pepper dh where "authenticates eng (map_of (db w)) tok r pepper" "bound_to r pepper d"
      "current r (clock w) \<or> retryable eng (map_of (db w)) r (clock w)" "unused w"
      "successorDeviceHash eng r d = Inr dh" "out = Value (RefreshSuccess (rotation_result eng r w))"
      "map_of (db w') = (retired r (map_of (db w)))(toBase64url (next_selector w) \<mapsto> successor eng r dh w,
        selector r \<mapsto> rotate_to (rotation_time r (clock w)) (toBase64url (next_selector w)) r)"
  | (collision) r pepper where "authenticates eng (map_of (db w)) tok r pepper" "bound_to r pepper d"
      "current r (clock w) \<or> retryable eng (map_of (db w)) r (clock w)" "\<not> unused w"
      "out = Rejected (DuplicateSelector (toBase64url (next_selector w)))"
proof (cases "\<exists>r pepper. authenticates eng (map_of (db w)) tok r pepper")
  case True
  then obtain r pepper where r: "authenticates eng (map_of (db w)) tok r pepper" by blast
  show thesis
  proof (cases "(current r (clock w) \<or> retryable eng (map_of (db w)) r (clock w)) \<and> bound_to r pepper d")
    case True
    then have c: "current r (clock w) \<or> retryable eng (map_of (db w)) r (clock w)" and b: "bound_to r pepper d"
      by simp_all
    show thesis
    proof (cases "unused w")
      case True
      from memory_refresh_accepted [OF valid True r b c] show thesis using accepted [OF r b c True] run by auto
    next
      case False
      from memory_refresh_collision [OF valid False r b c] show thesis using collision [OF r b c False] run by simp
    qed
  next
    case False
    from memory_refresh_refused [OF valid(1) r False] show thesis using refused [OF r False] run by auto
  qed
next
  case False
  from memory_refresh_denied [OF valid(1) False, of d] show thesis using denied [OF False] run by auto
qed

text \<open>
  \<^bold>\<open>C4.\<close> Whenever the drawn selector is not in use, refresh succeeds exactly for an acceptable token:
  one that parses, names a known key and a stored record, proves the verifier under the pepper of
  the record's key, and whose record is either active and before both deadlines, or rotated, within
  the grace window and before the absolute deadline with a still unused successor; and, when the
  record is bound to a device, with that device.
\<close>

theorem refresh_accepts_iff:
  assumes "mem_valid (db w)" "rows_wf (map_of (db w))" "unused w"
  shows "(\<exists>res w'. run memory_store (refresh eng tok d) w = (Value (RefreshSuccess res), w')) \<longleftrightarrow>
    acceptable eng (map_of (db w)) tok d (clock w)"
proof -
  obtain out w' where run: "run memory_store (refresh eng tok d) w = (out, w')" by fastforce
  from assms(1,2) run show ?thesis
  proof (cases rule: memory_refresh_cases)
    case (refused r pepper)
    then have "\<not> acceptable eng (map_of (db w)) tok d (clock w)"
      unfolding acceptable_def by (metis authenticates_unique)
    then show ?thesis using refused(3) run by (simp add: fail_def)
  qed (use assms(3) run in \<open>auto simp: acceptable_def\<close>)
qed

theorem refresh_accepts_iff_witness:
  "\<exists>res w'. run memory_store (refresh example_engine example_token None) live_world = (Value (RefreshSuccess res), w')"
  using refresh_accepts_iff [OF live_world_valid live_world_unused] live_accept by blast

text \<open>
  \<^bold>\<open>C5.\<close> A successful refresh changes exactly this: the presented record becomes rotated and points to
  the new record (a retry keeps the original rotation time and has revoked the unused successor),
  and the new record is added, active, one generation on, with the same user, family and absolute
  deadline, hashed under the active pepper. The result carries the new record's fields; it comes
  before the absolute deadline and its idle deadline never exceeds it.
\<close>

theorem refresh_success_effect:
  assumes "mem_valid (db w)" "rows_wf (map_of (db w))"
    "run memory_store (refresh eng tok d) w = (Value (RefreshSuccess res), w')"
  shows "\<exists>r pepper dh. authenticates eng (map_of (db w)) tok r pepper \<and> bound_to r pepper d \<and>
    successorDeviceHash eng r d = Inr dh \<and> res = rotation_result eng r w \<and>
    clock w < res_expiresAt res \<and> res_idleExpiresAt res \<le> res_expiresAt res \<and>
    map_of (db w') = (retired r (map_of (db w)))(toBase64url (next_selector w) \<mapsto> successor eng r dh w,
        selector r \<mapsto> rotate_to (rotation_time r (clock w)) (toBase64url (next_selector w)) r)"
  using assms
proof (cases rule: memory_refresh_cases)
  case (accepted r pepper dh)
  have "clock w < familyExpiresAt r"
    using accepted(3) by (auto simp: current_def retryable_def withinGrace_def)
  then show ?thesis using accepted by (auto simp: rotation_result_def)
qed (auto simp: fail_def)

lemma live_run:
  "\<exists>res w'. run memory_store (refresh example_engine example_token None) live_world = (Value (RefreshSuccess res), w')"
proof -
  have "current example_row (clock live_world)" "bound_to example_row example_pepper None"
    by (simp_all add: current_def bound_to_def example_row_fields live_world_def)
  then show ?thesis
    using memory_refresh_accepted [OF live_world_valid live_world_unused example_authenticates(1)] by blast
qed

theorem refresh_success_effect_witness:
  "\<exists>res (w' :: memory world). \<exists>r pepper dh. authenticates example_engine (map_of (db live_world)) example_token r pepper \<and>
    bound_to r pepper None \<and>
    successorDeviceHash example_engine r None = Inr dh \<and> res = rotation_result example_engine r live_world \<and>
    clock live_world < res_expiresAt res \<and> res_idleExpiresAt res \<le> res_expiresAt res \<and>
    map_of (db w') = (retired r (map_of (db live_world)))(toBase64url (next_selector live_world) \<mapsto> successor example_engine r dh live_world,
        selector r \<mapsto> rotate_to (rotation_time r (clock live_world)) (toBase64url (next_selector live_world)) r)"
proof -
  obtain res w' where run: "run memory_store (refresh example_engine example_token None) live_world =
      (Value (RefreshSuccess res), w')" using live_run by blast
  show ?thesis by (rule exI [of _ res], rule exI [of _ w'], rule refresh_success_effect [OF live_world_valid run])
qed

text \<open>
  \<^bold>\<open>C6.\<close> What a failed refresh does to the store and tells the caller, code by code. \<open>MALFORMED\<close>,
  \<open>UNKNOWN_KID\<close> and \<open>NOT_FOUND\<close> are returned exactly when the token names no usable record; they change nothing
  and name nobody. Every other failure names the owner and the family of the record the token names:
  \<open>VERIFIER_MISMATCH\<close> when the verifier is not proved, which changes nothing; \<open>REVOKED\<close> when it is and the record
  is revoked, which changes nothing; and otherwise the code of the refusal (reuse, expiry, wrong device), which
  revokes exactly the rows of the record's family. \<open>CONFLICT\<close> needs a concurrent request.
\<close>

theorem refresh_failure_effect:
  assumes "mem_valid (db w)" "rows_wf (map_of (db w))"
    "run memory_store (refresh eng tok d) w = (Value (RefreshFailure e u f), w')"
  shows "case named_record eng (map_of (db w)) tok of
      None \<Rightarrow> e \<in> {MALFORMED, UNKNOWN_KID, NOT_FOUND} \<and> e = denial eng (map_of (db w)) tok \<and>
        u = None \<and> f = None \<and> map_of (db w') = map_of (db w)
    | Some r \<Rightarrow> u = Some (userId r) \<and> f = Some (familyId r) \<and>
        (if \<nexists>pepper. authenticates eng (map_of (db w)) tok r pepper
         then e = VERIFIER_MISMATCH \<and> map_of (db w') = map_of (db w)
         else if status r = Revoked then e = REVOKED \<and> map_of (db w') = map_of (db w)
         else e \<in> {REUSE_DETECTED, EXPIRED_ABSOLUTE, EXPIRED_IDLE, DEVICE_MISMATCH} \<and>
           e = refusal eng (map_of (db w)) r (clock w) \<and> map_of (db w') = revoked_family r (map_of (db w)))"
  using assms
proof (cases rule: memory_refresh_cases)
  case denied
  then show ?thesis by (auto simp: denial_def named_record_def split: option.splits)
next
  case (refused r pepper)
  then show ?thesis using authenticates_named [OF refused(1)]
    by (cases "status r") (auto simp: fail_def refusal_def)
qed auto

lemma replay_run:
  "\<exists>w'. run memory_store (refresh example_engine example_token None) replay_world =
    (Value (RefreshFailure REUSE_DETECTED (Some (userId example_old)) (Some (familyId example_old))), w')"
  using memory_refresh_refused [OF replay_world_valid(1) example_authenticates(2), of None]
  by (auto simp: fail_def refusal_def current_def retryable_def withinGrace_def example_engine_def)

theorem refresh_failure_effect_witness:
  "\<exists>w'. run memory_store (refresh example_engine example_token None) replay_world =
      (Value (RefreshFailure REUSE_DETECTED (Some (userId example_old)) (Some (familyId example_old))), w') \<and>
    map_of (db w') = revoked_family example_old (map_of (db replay_world))"
proof -
  obtain w' where run: "run memory_store (refresh example_engine example_token None) replay_world =
    (Value (RefreshFailure REUSE_DETECTED (Some (userId example_old)) (Some (familyId example_old))), w')"
    using replay_run by blast
  from refresh_failure_effect [OF replay_world_valid run] authenticates_named [OF example_authenticates(2)]
    example_authenticates(2)
  have "map_of (db w') = revoked_family example_old (map_of (db replay_world))" by (auto split: if_splits)
  with run show ?thesis by blast
qed

text \<open>
  \<^bold>\<open>C19.\<close> Refresh is total: it never throws. It returns a result, or the store rejects the insertion
  because the drawn selector is already in use, and the caller gets that rejection.
\<close>

theorem refresh_total:
  assumes "mem_valid (db w)" "rows_wf (map_of (db w))"
  shows "(\<exists>res. fst (run memory_store (refresh eng tok d) w) = Value res) \<or>
    (\<not> unused w \<and> fst (run memory_store (refresh eng tok d) w) =
      Rejected (DuplicateSelector (toBase64url (next_selector w))))"
proof -
  obtain out w' where run: "run memory_store (refresh eng tok d) w = (out, w')" by fastforce
  from assms run show ?thesis by (cases rule: memory_refresh_cases) (auto simp: run)
qed

theorem refresh_total_witness:
  "(\<exists>res. fst (run memory_store (refresh example_engine example_token None) live_world) = Value res) \<or>
    (\<not> unused live_world \<and> fst (run memory_store (refresh example_engine example_token None) live_world) =
      Rejected (DuplicateSelector (toBase64url (next_selector live_world))))"
  by (rule refresh_total [OF live_world_valid])

text \<open>
  \<^bold>\<open>C10.\<close> A selector alone is no capability: a token that does not prove the verifier of a stored
  record (malformed, unknown or retired key, unknown selector, wrong verifier) changes nothing, whether
  presented to refresh or to revokeToken, and both refuse it with the same code.
\<close>

theorem unauthenticated_harmless:
  assumes "mem_valid (db w)" "\<nexists>r pepper. authenticates eng (map_of (db w)) tok r pepper"
  shows "\<exists>u f u' f' w1 w2.
    run memory_store (refresh eng tok d) w = (Value (RefreshFailure (denial eng (map_of (db w)) tok) u f), w1) \<and>
    run memory_store (revokeToken eng tok) w = (Value (RevokeFailure (denial eng (map_of (db w)) tok) u' f'), w2) \<and>
    map_of (db w1) = map_of (db w) \<and> map_of (db w2) = map_of (db w)"
proof -
  obtain u f where "run spec_store (revokeToken eng tok) (memory.abs_world w) =
      (Value (RevokeFailure (denial eng (map_of (db w)) tok) u f), memory.abs_world w)"
    using run_revokeToken_denied [of eng "memory.abs_world w" tok] assms(2) unfolding db_abs_world by blast
  from memory_transfer [OF assms(1) this] memory_refresh_denied [OF assms, of d] show ?thesis
    unfolding db_abs_world by blast
qed

theorem unauthenticated_harmless_witness:
  "\<exists>u f u' f' w1 w2.
    run memory_store (refresh example_engine example_token None) example_world =
      (Value (RefreshFailure (denial example_engine (map_of (db example_world)) example_token) u f), w1) \<and>
    run memory_store (revokeToken example_engine example_token) example_world =
      (Value (RevokeFailure (denial example_engine (map_of (db example_world)) example_token) u' f'), w2) \<and>
    map_of (db w1) = map_of (db example_world) \<and> map_of (db w2) = map_of (db example_world)"
  by (rule unauthenticated_harmless [OF example_valid(1)]) (simp add: authenticates_def example_world_def)

end
