(* ===== verification/Sessions.thy ===== *)
theory Sessions
  imports Engine_Theorems
begin

text \<open>
  How a session begins, lives and ends: issue, a chain of refreshes across pepper rotations, replay,
  logout, and the deletion of expired rows.
\<close>

section \<open>The end of a family\<close>

lemma revoke_fields [simp]:
  "status (revoke r) = Revoked" "familyId (revoke r) = familyId r" "revoke (revoke r) = revoke r"
  by (simp_all add: revoke_def)

lemma revoked_family_rows:
  "revoked_family r m s = Some q \<Longrightarrow> familyId q = familyId r \<Longrightarrow> status q = Revoked"
  by (auto simp: revoked_family_def revoke_where_def upd_rows_def split: if_splits)
     (metis revoke_fields(1))

lemma revoked_family_others:
  "m s = Some q \<Longrightarrow> familyId q \<noteq> familyId r \<Longrightarrow> revoked_family r m s = Some q"
  by (simp add: revoked_family_def revoke_where_def upd_rows_def)

text \<open>
  \<^bold>\<open>C3.\<close> Replay of a rotated token outside the grace window (or after its successor was used) is
  detected: refresh answers \<open>REUSE_DETECTED\<close> with the owner and the family, every row of the family is
  revoked, the successor a thief may hold included, and the rows of every other family are untouched.
\<close>

theorem replay_detected:
  assumes "mem_valid (db w)" "authenticates eng (map_of (db w)) tok r pepper" "status r = Rotated"
    "\<not> retryable eng (map_of (db w)) r (clock w)"
  shows "\<exists>w'. run memory_store (refresh eng tok d) w =
      (Value (RefreshFailure REUSE_DETECTED (Some (userId r)) (Some (familyId r))), w') \<and>
    (\<forall>s q. map_of (db w') s = Some q \<and> familyId q = familyId r \<longrightarrow> status q = Revoked) \<and>
    (\<forall>s q. map_of (db w) s = Some q \<and> familyId q \<noteq> familyId r \<longrightarrow> map_of (db w') s = Some q)"
proof -
  have "refusal eng (map_of (db w)) r (clock w) = REUSE_DETECTED"
    using assms(3,4) by (simp add: refusal_def)
  moreover have "\<not> current r (clock w)" using assms(3) by (simp add: current_def)
  ultimately obtain w' where "run memory_store (refresh eng tok d) w = (Value (fail REUSE_DETECTED r), w')"
    "map_of (db w') = revoked_family r (map_of (db w))"
    using memory_refresh_refused [OF assms(1,2), of d] assms(3,4) by auto
  then show ?thesis
    using revoked_family_rows [of r "map_of (db w)"] revoked_family_others [of "map_of (db w)" _ _ r]
    unfolding fail_def by metis
qed

theorem replay_detected_witness:
  "\<exists>w'. run memory_store (refresh example_engine example_token None) replay_world =
      (Value (RefreshFailure REUSE_DETECTED (Some (userId example_old)) (Some (familyId example_old))), w') \<and>
    (\<forall>s q. map_of (db w') s = Some q \<and> familyId q = familyId example_old \<longrightarrow> status q = Revoked) \<and>
    (\<forall>s q. map_of (db replay_world) s = Some q \<and> familyId q \<noteq> familyId example_old \<longrightarrow> map_of (db w') s = Some q)"
  by (rule replay_detected [OF replay_world_valid(1) example_authenticates(2)])
     (simp_all add: retryable_def withinGrace_def example_engine_def)

text \<open>
  \<^bold>\<open>C9.\<close> Revocation is final: once a row is revoked, no interleaving of later requests, served by
  whatever processes, brings it back. A refresh with its token always fails and changes nothing.
\<close>

theorem revocation_final:
  assumes "mem_valid (db w)" "rows_wf (map_of (db w))" "map_of (db w) s = Some r" "status r = Revoked"
    "interleaves memory_store (handled engines) ([], w) (ts, w')" "parseToken tok = Some p" "p_selector p = s"
  shows "\<exists>e u f w''. run memory_store (refresh eng tok d) w' = (Value (RefreshFailure e u f), w'') \<and>
    map_of (db w'') = map_of (db w')"
proof -
  note m = memory_interleaves [OF assms(5,1)]
  have "pool_ok (exchange_post engines) ([], memory.abs_world w)" using assms(2) by (simp add: pool_ok_def)
  from interleaves_disciplined [OF m(1) this disciplined_handled]
  have wf: "rows_wf (map_of (db w'))" and pr: "progress (map_of (db w)) (map_of (db w'))"
    by (simp_all add: pool_ok_def)
  obtain r' where r': "map_of (db w') s = Some r'" "status r' = Revoked"
    using pr assms(3,4) unfolding progress_def later_def by (metis status_order(3))
  obtain out w'' where run: "run memory_store (refresh eng tok d) w' = (out, w'')" by fastforce
  have auth: "a = r'" if "authenticates eng (map_of (db w')) tok a pepper" for a pepper
    using that assms(6,7) r'(1) by (auto simp: authenticates_def)
  from m(2) wf run show ?thesis
  proof (cases rule: memory_refresh_cases)
    case (refused a pepper)
    then show ?thesis using run auth [OF refused(1)] r'(2) by (auto simp: fail_def)
  next
    case (accepted a pepper dh)
    then show ?thesis using auth [OF accepted(1)] r'(2) by (auto simp: current_def retryable_def)
  next
    case (collision a pepper)
    then show ?thesis using auth [OF collision(1)] r'(2) by (auto simp: current_def retryable_def)
  qed (use run in auto)
qed

definition dead_world :: "memory world" where
  "dead_world = live_world\<lparr>db := [(selector example_row, revoke example_row)]\<rparr>"

lemma dead_world_valid: "mem_valid (db dead_world)" "rows_wf (map_of (db dead_world))"
proof -
  have "replacedBySelector (revoke example_row) = None" by (simp add: revoke_def example_row_def)
  then show "mem_valid (db dead_world)" "rows_wf (map_of (db dead_world))"
    by (auto simp: dead_world_def mem_valid_def rows_wf_def example_row_wf)
qed

theorem revocation_final_witness:
  "\<exists>e u f w''. run memory_store (refresh example_engine example_token None) dead_world = (Value (RefreshFailure e u f), w'') \<and>
    map_of (db w'') = map_of (db dead_world)"
proof -
  have "map_of (db dead_world) (selector example_row) = Some (revoke example_row)" by (simp add: dead_world_def)
  from revocation_final [OF dead_world_valid this, of "{example_engine}" "[]" dead_world example_token]
  show ?thesis by (simp add: example_parse)
qed

text \<open>
  \<^bold>\<open>C18.\<close> Logout: with an authenticated token, whatever the status of its record, revokeToken revokes
  exactly the rows of its family and reports the owner, the family and how many rows changed; doing
  it again still succeeds, changes nothing and reports zero.
\<close>

theorem revokeToken_effect:
  assumes "mem_valid (db w)" "rows_wf (map_of (db w))" "authenticates eng (map_of (db w)) tok r pepper"
  shows "\<exists>w' w''. run memory_store (revokeToken eng tok) w = (Value (RevokeSuccess (userId r) (familyId r)
      (card {s. \<exists>q. map_of (db w) s = Some q \<and> familyId q = familyId r \<and> status q \<noteq> Revoked})), w') \<and>
    map_of (db w') = revoked_family r (map_of (db w)) \<and>
    run memory_store (revokeToken eng tok) w' = (Value (RevokeSuccess (userId r) (familyId r) 0), w'') \<and>
    map_of (db w'') = map_of (db w')"
proof -
  have first: "\<exists>w'. run memory_store (revokeToken eng tok) v = (Value (RevokeSuccess (userId q) (familyId q)
      (card (revocable (\<lambda>x. familyId x = familyId q) (map_of (db v))))), w') \<and> mem_valid (db w') \<and>
      map_of (db w') = revoked_family q (map_of (db v))"
    if "mem_valid (db v)" "authenticates eng (map_of (db v)) tok q pepper" for v q
    using memory_transfer [OF that(1) run_revokeToken_authenticated [of eng "memory.abs_world v" tok q pepper]] that(2)
    by (auto simp: revoked_family_def)
  obtain w' where w': "run memory_store (revokeToken eng tok) w = (Value (RevokeSuccess (userId r) (familyId r)
      (card (revocable (\<lambda>x. familyId x = familyId r) (map_of (db w))))), w')" "mem_valid (db w')"
      "map_of (db w') = revoked_family r (map_of (db w))" using first [OF assms(1,3)] by blast
  have "authenticates eng (map_of (db w')) tok (revoke r) pepper"
    using assms(3) w'(3)
    by (auto simp: authenticates_def revoked_family_def revoke_where_def upd_rows_def revoke_def)
  from first [OF w'(2) this] obtain w'' where w'': "run memory_store (revokeToken eng tok) w' =
      (Value (RevokeSuccess (userId r) (familyId r)
      (card (revocable (\<lambda>x. familyId x = familyId r) (map_of (db w'))))), w'')"
      "map_of (db w'') = revoked_family r (map_of (db w'))"
    by (auto simp: revoke_def revoked_family_def)
  have "revocable (\<lambda>x. familyId x = familyId r) (map_of (db w')) = {}"
    using revoked_family_rows [of r "map_of (db w)"] by (auto simp: revocable_def w'(3))
  then have none: "card (revocable (\<lambda>x. familyId x = familyId r) (map_of (db w'))) = 0" by simp
  have same: "revoked_family r (map_of (db w')) = map_of (db w')"
    by (auto simp: w'(3) revoked_family_def revoke_where_def upd_rows_def option.map_comp
        intro!: ext option.map_cong0)
  show ?thesis
    using w'(1) [unfolded revocable_def] w'(3) w''(1) [unfolded none] w''(2) [unfolded same] by blast
qed

theorem revokeToken_effect_witness:
  "\<exists>w' w''. run memory_store (revokeToken example_engine example_token) replay_world =
      (Value (RevokeSuccess (userId example_old) (familyId example_old)
      (card {s. \<exists>q. map_of (db replay_world) s = Some q \<and> familyId q = familyId example_old \<and> status q \<noteq> Revoked})), w') \<and>
    map_of (db w') = revoked_family example_old (map_of (db replay_world)) \<and>
    run memory_store (revokeToken example_engine example_token) w' =
      (Value (RevokeSuccess (userId example_old) (familyId example_old) 0), w'') \<and>
    map_of (db w'') = map_of (db w')"
  by (rule revokeToken_effect [OF replay_world_valid example_authenticates(2)])

section \<open>Issue\<close>

definition device_ok :: "jsstring option \<Rightarrow> bool" where
  "device_ok d = (case d of None \<Rightarrow> True | Some x \<Rightarrow> isWellFormedUnicode x)"

definition binding :: "NebulaEngine \<Rightarrow> jsstring option \<Rightarrow> jsstring option" where
  "binding eng d = (case d of None \<Rightarrow> None
     | Some x \<Rightarrow> (case hashDeviceId (activePepper eng) x of Inl _ \<Rightarrow> None | Inr h \<Rightarrow> Some h))"

definition new_family :: "'s world \<Rightarrow> jsstring" where
  "new_family w = toHex (fst (randomBytes 16 (entropy w)))"

definition after_family :: "'s world \<Rightarrow> 's world" where
  "after_family w = w\<lparr>entropy := snd (randomBytes 16 (entropy w))\<rparr>"

definition issued :: "NebulaEngine \<Rightarrow> jsstring \<Rightarrow> jsstring option \<Rightarrow> 's world \<Rightarrow> TokenRecord" where
  "issued eng user d w = mint_record eng \<lparr>a_userId = user, a_familyId = new_family w, a_generation = 0,
     a_deviceIdHash = binding eng d, a_familyExpiresAt = clock w + absoluteTtl eng, a_now = clock w\<rparr>
     (next_selector (after_family w)) (next_verifier (after_family w))"

definition issue_result :: "NebulaEngine \<Rightarrow> jsstring \<Rightarrow> 's world \<Rightarrow> IssueResult" where
  "issue_result eng user w = \<lparr>
     token = format_token (activeKid eng) (toBase64url (next_selector (after_family w))) (next_verifier (after_family w)),
     res_userId = user, res_familyId = new_family w, res_generation = 0,
     res_expiresAt = clock w + absoluteTtl eng,
     res_idleExpiresAt = min (clock w + idleTtl eng) (clock w + absoluteTtl eng)\<rparr>"

declare run.simps(3-8) [simp del]

lemma after_family_fields [simp]:
  "db (after_family w) = db w" "clock (after_family w) = clock w"
  by (simp_all add: after_family_def)

lemma after_family_abs [simp]:
  "after_family (memory.abs_world w) = memory.abs_world (after_family w)"
  "new_family (memory.abs_world w) = new_family w"
  by (simp_all add: after_family_def memory.abs_world_def new_family_def)

lemma run_issue:
  assumes "device_ok d" "fresh (after_family w)"
  shows "run spec_store (issue eng user d) w = (Value (issue_result eng user w),
    (drawn (after_family w))\<lparr>db := (db w)(selector (issued eng user d w) \<mapsto> issued eng user d w)\<rparr>)"
proof -
  have "(case d of None \<Rightarrow> Inr None | Some d \<Rightarrow> map_sum id Some (hashDeviceId (activePepper eng) d)) =
      Inr (binding eng d)"
    using assms(1) by (auto simp: device_ok_def binding_def hashDeviceId_def split: option.splits)
  moreover have "\<not> (case d of None \<Rightarrow> False | Some d \<Rightarrow> \<not> isWellFormedUnicode d)"
    using assms(1) by (auto simp: device_ok_def split: option.splits)
  moreover have "run spec_store (issue eng user d) w = run spec_store (
      case (case d of None \<Rightarrow> Inr None | Some d \<Rightarrow> map_sum id Some (hashDeviceId (activePepper eng) d)) of
        Inl _ \<Rightarrow> Throw InvalidDeviceId
      | Inr dh \<Rightarrow> mint eng \<lparr>a_userId = user, a_familyId = new_family w, a_generation = 0,
          a_deviceIdHash = dh, a_familyExpiresAt = clock w + absoluteTtl eng, a_now = clock w\<rparr> (\<lambda>(tok, r).
          Insert r (Return \<lparr>token = tok, res_userId = user, res_familyId = new_family w,
            res_generation = 0, res_expiresAt = clock w + absoluteTtl eng,
            res_idleExpiresAt = idleExpiresAt r\<rparr>))) (after_family w)"
    using calculation(2) unfolding issue_def new_family_def after_family_def by (simp add: prod.case_eq_if)
  ultimately show ?thesis using assms(2)
    by (simp add: store_simps fresh_def issued_def issue_result_def)
qed

lemma run_issue_invalid:
  "\<not> device_ok d \<Longrightarrow> run spec_store (issue eng user d) w = (Thrown InvalidDeviceId, w)"
  by (auto simp: issue_def device_ok_def split: option.splits)

lemma issued_abs [simp]:
  "issued eng user d (memory.abs_world w) = issued eng user d w"
  "issue_result eng user (memory.abs_world w) = issue_result eng user w"
  by (simp_all add: issued_def issue_result_def)

lemma memory_issue:
  assumes "mem_valid (db w)" "device_ok d" "unused (after_family w)"
  shows "\<exists>w'. run memory_store (issue eng user d) w = (Value (issue_result eng user w), w') \<and> mem_valid (db w') \<and>
    map_of (db w') = (map_of (db w))(selector (issued eng user d w) \<mapsto> issued eng user d w) \<and>
    entropy w' = entropy (drawn (after_family w)) \<and> clock w' = clock w"
  using memory_transfer [OF assms(1) run_issue [of d "memory.abs_world w" eng user]] assms(2,3)
  by (simp add: entropy_drawn_abs)

text \<open>
  \<^bold>\<open>C17.\<close> Issue, when the drawn selector is not in use, adds exactly one row: active, generation zero, of
  a new family, for the given user, bound to the device under the active pepper when one is given,
  with the two deadlines counted from now. The result describes that row. A device identifier with
  an unpaired surrogate is refused with an exception before anything happens.
\<close>

theorem issue_effect:
  assumes "mem_valid (db w)" "unused (after_family w)"
  shows "\<exists>w'. run memory_store (issue eng user d) w =
      (if device_ok d then Value (issue_result eng user w) else Thrown InvalidDeviceId, w') \<and>
    map_of (db w') = (if device_ok d
      then (map_of (db w))(selector (issued eng user d w) \<mapsto> issued eng user d w) else map_of (db w))"
proof (cases "device_ok d")
  case True
  then show ?thesis using memory_issue [OF assms(1) True assms(2)] by auto
next
  case False
  then show ?thesis using memory_transfer [OF assms(1) run_issue_invalid [OF False, of eng user]] by auto
qed

lemma example_unused: "unused (after_family example_world)"
  by (simp add: unused_def example_world_def after_family_def)

theorem issue_effect_witness:
  "\<exists>w'. run memory_store (issue example_engine (js ''alice'') (Some [0xD800])) example_world =
      (if device_ok (Some [0xD800]) then Value (issue_result example_engine (js ''alice'') example_world)
       else Thrown InvalidDeviceId, w') \<and>
    map_of (db w') = (if device_ok (Some [0xD800])
      then (map_of (db example_world))(selector (issued example_engine (js ''alice'') (Some [0xD800]) example_world) \<mapsto>
        issued example_engine (js ''alice'') (Some [0xD800]) example_world) else map_of (db example_world))"
  by (rule issue_effect [OF example_valid(1) example_unused])

end
