(* ===== verification/Session_Life.thy ===== *)
theory Session_Life
  imports Sessions
begin

text \<open>
  A session that keeps being refreshed in time survives every pepper rotation that keeps the previous
  key, up to its absolute deadline; deleting expired rows never changes what refresh accepts; and in
  every interleaving the replies are backed by stored rows.
\<close>

section \<open>A chain of refreshes\<close>

text \<open>
  The client presents each time the token it got last, at the given times, to the given processes.
  The result is \<open>None\<close> as soon as one refresh does not succeed.
\<close>

fun session :: "(NebulaEngine \<times> int) list \<Rightarrow> jsstring \<Rightarrow> jsstring option \<Rightarrow> memory world \<Rightarrow> IssueResult list option" where
  "session [] tok d w = Some []"
| "session ((eng, t) # es) tok d w =
     (case run memory_store (refresh eng (JString tok) d) (w\<lparr>clock := t\<rparr>) of
        (Value (RefreshSuccess res), w') \<Rightarrow> map_option ((#) res) (session es (token res) d w')
      | _ \<Rightarrow> None)"

text \<open>
  On time: before the idle deadline that the previous process set and before the absolute deadline
  \<open>T\<close>, at a process that still has the previous process's active pepper.
\<close>

fun on_schedule :: "NebulaEngine \<Rightarrow> int \<Rightarrow> int \<Rightarrow> (NebulaEngine \<times> int) list \<Rightarrow> bool" where
  "on_schedule e t T [] = True"
| "on_schedule e t T ((e', t') # es) =
     (engine_wf e' \<and> peppers e' (activeKid e) = peppers e (activeKid e) \<and>
      t' < t + idleTtl e \<and> t' < T \<and> on_schedule e' t' T es)"

text \<open>The selectors that the next \<open>n\<close> rotations draw.\<close>

fun selectors :: "nat \<Rightarrow> entropy \<Rightarrow> jsstring list" where
  "selectors 0 \<rho> = []"
| "selectors (Suc n) \<rho> = toBase64url (fst (randomBytes SELECTOR_BYTES \<rho>)) #
     selectors n (snd (randomBytes VERIFIER_BYTES (snd (randomBytes SELECTOR_BYTES \<rho>))))"

definition no_collision :: "nat \<Rightarrow> memory world \<Rightarrow> bool" where
  "no_collision n w \<longleftrightarrow> distinct (selectors n (entropy w)) \<and>
     set (selectors n (entropy w)) \<inter> dom (map_of (db w)) = {}"

text \<open>The client holds the current token of a session that \<open>e\<close> minted at time \<open>t\<close>.\<close>

definition holds_current :: "NebulaEngine \<Rightarrow> int \<Rightarrow> jsstring option \<Rightarrow> jsstring \<Rightarrow> TokenRecord \<Rightarrow> memory world \<Rightarrow> bool" where
  "holds_current e t d tok r w \<longleftrightarrow> mem_valid (db w) \<and> rows_wf (map_of (db w)) \<and> engine_wf e \<and> device_ok d \<and>
     map_of (db w) (selector r) = Some r \<and> status r = Active \<and> kid r = activeKid e \<and>
     deviceIdHash r = binding e d \<and> idleExpiresAt r = min (t + idleTtl e) (familyExpiresAt r) \<and>
     (\<exists>v. length v = VERIFIER_BYTES \<and> tok = format_token (activeKid e) (selector r) v \<and>
        verifierHash r = hashVerifier (activePepper e) v)"

lemma activePepper_Some: "engine_wf e \<Longrightarrow> peppers e (activeKid e) = Some (activePepper e)"
  by (auto simp: engine_wf_def activePepper_def)

lemma holds_current_authenticates:
  assumes "holds_current e t d tok r w" "peppers e' (activeKid e) = peppers e (activeKid e)"
  shows "authenticates e' (map_of (db w)) (JString tok) r (activePepper e)"
proof -
  obtain v where v: "length v = VERIFIER_BYTES" "tok = format_token (activeKid e) (selector r) v"
    "verifierHash r = hashVerifier (activePepper e) v"
    using assms(1) by (auto simp: holds_current_def)
  have "valid_kid (activeKid e)" "valid_selector (selector r)" "peppers e (activeKid e) = Some (activePepper e)"
    using assms(1) engine_kid activePepper_Some rows_wfD(2) [of "map_of (db w)" "selector r" r]
    by (auto simp: holds_current_def rec_wf_def)
  then show ?thesis using v assms parseToken_format [of "activeKid e" "selector r" v]
    by (auto simp: authenticates_def holds_current_def)
qed

lemma binding_bound:
  assumes "device_ok d" "deviceIdHash r = binding e d"
  shows "bound_to r (activePepper e) d" "successorDeviceHash e' r d = Inr (binding e' d)"
  using assms
  by (auto simp: bound_to_def deviceMatches_def binding_def device_ok_def successorDeviceHash_def
      hashDeviceId_def constantTimeEqualHex_eq is_digest_def toHex_lower HASH_HEX_CHARS_def split: option.splits)

lemma refresh_keeps_wf:
  assumes "mem_valid (db w)" "rows_wf (map_of (db w))" "run memory_store (refresh eng tok d) w = (out, w')"
  shows "mem_valid (db w')" "rows_wf (map_of (db w'))"
proof -
  have "run spec_store (refresh eng tok d) (memory.abs_world w) = (out, memory.abs_world w')"
    using memory_run(1) [OF assms(1), of "refresh eng tok d"] assms(3) by simp
  then show "rows_wf (map_of (db w'))"
    using run_disciplined [of "memory.abs_world w" "refresh_post eng tok" "refresh eng tok d"]
      disciplined_refresh assms(2) by fastforce
  show "mem_valid (db w')" using memory_run(2) [OF assms(1), of "refresh eng tok d"] assms(3) by simp
qed

lemma session_step:
  assumes hold: "holds_current e t d tok r w" and unused: "unused w" and e': "engine_wf e'"
    and pep: "peppers e' (activeKid e) = peppers e (activeKid e)"
    and time: "clock w < t + idleTtl e" "clock w < familyExpiresAt r"
  shows "\<exists>w' r'. run memory_store (refresh e' (JString tok) d) w = (Value (RefreshSuccess (rotation_result e' r w)), w') \<and>
    holds_current e' (clock w) d (token (rotation_result e' r w)) r' w' \<and> linked r r' \<and>
    entropy w' = entropy (drawn w) \<and> dom (map_of (db w')) = insert (toBase64url (next_selector w)) (dom (map_of (db w)))"
proof -
  let ?s = "toBase64url (next_selector w)" and ?r = "successor e' r (binding e' d) w"
  have h: "mem_valid (db w)" "rows_wf (map_of (db w))" "device_ok d" "deviceIdHash r = binding e d"
    "status r = Active" "map_of (db w) (selector r) = Some r" "idleExpiresAt r = min (t + idleTtl e) (familyExpiresAt r)"
    using hold by (auto simp: holds_current_def)
  note b = binding_bound [OF h(3,4)]
  have cur: "current r (clock w)" using time h(5,7) by (simp add: current_def)
  obtain w' where w': "run memory_store (refresh e' (JString tok) d) w = (Value (RefreshSuccess (rotation_result e' r w)), w')"
    "map_of (db w') = (retired r (map_of (db w)))(?s \<mapsto> ?r,
        selector r \<mapsto> rotate_to (rotation_time r (clock w)) ?s r)"
    "entropy w' = entropy (drawn w)"
    using memory_refresh_accepted [OF h(1,2) unused holds_current_authenticates [OF hold pep] b(1)] cur b(2) [of e'] by auto
  note wf = refresh_keeps_wf [OF h(1,2) w'(1)]
  have ne: "?s \<noteq> selector r" using unused h(6) by (auto simp: unused_def)
  have m: "map_of (db w') = (map_of (db w))(?s \<mapsto> ?r, selector r \<mapsto> rotate_to (rotation_time r (clock w)) ?s r)"
    using w'(2) h(5) by (simp add: retired_def)
  have "holds_current e' (clock w) d (token (rotation_result e' r w)) ?r w'"
    using wf e' h(3) m ne
    by (auto simp: holds_current_def successor_def successor_args_def rotation_result_def
        intro!: exI [of _ "next_verifier w"])
  moreover have "linked r ?r" by (simp add: linked_def successor_def successor_args_def)
  moreover have "dom (map_of (db w')) = insert ?s (dom (map_of (db w)))" using m h(6) by auto
  ultimately show ?thesis using w'(1,3) by blast
qed

lemma session_chain:
  assumes "holds_current e t d tok r w" "on_schedule e t (familyExpiresAt r) es" "no_collision (length es) w"
  shows "\<exists>rs. session es tok d w = Some rs \<and>
    map res_generation rs = map (\<lambda>i. generation r + int i) [1..<Suc (length es)] \<and>
    list_all (\<lambda>x. res_userId x = userId r \<and> res_familyId x = familyId r \<and> res_expiresAt x = familyExpiresAt r) rs"
  using assms
proof (induction es arbitrary: e t tok r w)
  case (Cons x es)
  obtain e' t' where x: "x = (e', t')" by (cases x)
  let ?w = "w\<lparr>clock := t'\<rparr>"
  have hold: "holds_current e t d tok r ?w" using Cons.prems(1) by (simp add: holds_current_def)
  have sel: "next_selector ?w = fst (randomBytes SELECTOR_BYTES (entropy w))"
    "entropy (drawn ?w) = snd (randomBytes VERIFIER_BYTES (snd (randomBytes SELECTOR_BYTES (entropy w))))"
    by (simp_all add: next_selector_def drawn_def)
  have "unused ?w" using Cons.prems(3) sel by (auto simp: unused_def no_collision_def dom_def)
  then obtain w' r' where st: "run memory_store (refresh e' (JString tok) d) ?w =
      (Value (RefreshSuccess (rotation_result e' r ?w)), w')"
    "holds_current e' t' d (token (rotation_result e' r ?w)) r' w'" "linked r r'"
    "entropy w' = entropy (drawn ?w)"
    "dom (map_of (db w')) = insert (toBase64url (next_selector ?w)) (dom (map_of (db w)))"
    using session_step [OF hold, of e'] Cons.prems(2) x by auto
  have "no_collision (length es) w'" using Cons.prems(3) st(4,5) sel by (auto simp: no_collision_def)
  moreover have "on_schedule e' t' (familyExpiresAt r') es"
    using Cons.prems(2) x st(3) by (simp add: linked_def)
  ultimately obtain rs where rs: "session es (token (rotation_result e' r ?w)) d w' = Some rs"
    "map res_generation rs = map (\<lambda>i. generation r' + int i) [1..<Suc (length es)]"
    "list_all (\<lambda>x. res_userId x = userId r' \<and> res_familyId x = familyId r' \<and> res_expiresAt x = familyExpiresAt r') rs"
    using Cons.IH [OF st(2)] by blast
  have "map (\<lambda>i. generation r + 1 + int i) [1..<Suc (length es)] =
      map (\<lambda>i. generation r + int i) [2..<Suc (Suc (length es))]"
    by (rule nth_equalityI) (simp_all del: upt_Suc)
  then have "map res_generation (rotation_result e' r ?w # rs) =
      map (\<lambda>i. generation r + int i) [1..<Suc (length (x # es))]"
    using rs(2) st(3) by (simp add: linked_def rotation_result_def upt_conv_Cons numeral_2_eq_2 del: upt_Suc)
  moreover have "session (x # es) tok d w = Some (rotation_result e' r ?w # rs)" using st(1) rs(1) x by simp
  ultimately show ?case using rs(3) st(3) by (auto simp: linked_def rotation_result_def)
qed simp

lemma issue_holds_current:
  assumes "mem_valid (db w)" "rows_wf (map_of (db w))" "engine_wf eng" "device_ok d" "unused (after_family w)"
  shows "\<exists>w'. run memory_store (issue eng user d) w = (Value (issue_result eng user w), w') \<and>
    holds_current eng (clock w) d (token (issue_result eng user w)) (issued eng user d w) w' \<and>
    entropy w' = entropy (drawn (after_family w)) \<and>
    dom (map_of (db w')) = insert (toBase64url (next_selector (after_family w))) (dom (map_of (db w)))"
proof -
  let ?r = "issued eng user d w"
  have sel: "selector ?r = toBase64url (next_selector (after_family w))" by (simp add: issued_def)
  have "is_digest h" if "binding eng d = Some h" for h
    using that by (auto simp: binding_def split: option.splits sum.splits dest: hashDeviceId_digest)
  then have r: "rec_wf ?r" "status ?r = Active" by (auto simp: issued_def intro!: mint_record_wf)
  have fresh: "map_of (db w) (selector ?r) = None" using assms(5) by (simp add: unused_def sel)
  obtain w' where w': "run memory_store (issue eng user d) w = (Value (issue_result eng user w), w')" "mem_valid (db w')"
    "map_of (db w') = (map_of (db w))(selector ?r \<mapsto> ?r)" "entropy w' = entropy (drawn (after_family w))"
    using memory_issue [OF assms(1,4,5)] by blast
  have "rows_wf (map_of (db w'))" unfolding w'(3) by (rule insert_step [OF assms(2) fresh r])
  then have "holds_current eng (clock w) d (token (issue_result eng user w)) ?r w'"
    using w'(2,3) assms(3,4)
    by (auto simp: holds_current_def issued_def issue_result_def intro!: exI [of _ "next_verifier (after_family w)"])
  then show ?thesis using w' sel by (auto simp: dom_def)
qed

text \<open>
  \<^bold>\<open>C7.\<close> A session lives as long as it should. After issue, a client that presents the token it got
  last, with the same device, each time before the idle deadline and before the absolute deadline,
  to processes that each still hold the pepper the previous token was hashed with, succeeds every
  time. The generations count up one by one, user, family and absolute deadline never change,
  and the device binding follows the pepper rotations.
\<close>

theorem session_survives:
  assumes "mem_valid (db w)" "rows_wf (map_of (db w))" "engine_wf eng" "device_ok d" "unused (after_family w)"
    and "run memory_store (issue eng user d) w = (Value res, w')"
    and "on_schedule eng (clock w) (res_expiresAt res) es" "no_collision (length es) w'"
  shows "\<exists>rs. session es (token res) d w' = Some rs \<and> map res_generation rs = map int [1..<Suc (length es)] \<and>
    list_all (\<lambda>x. res_userId x = user \<and> res_familyId x = res_familyId res \<and> res_expiresAt x = res_expiresAt res) rs"
proof -
  have w': "res = issue_result eng user w" "holds_current eng (clock w) d (token res) (issued eng user d w) w'"
    using issue_holds_current [OF assms(1-5), of user] assms(6) by auto
  have "userId (issued eng user d w) = user" "familyId (issued eng user d w) = res_familyId res"
    "familyExpiresAt (issued eng user d w) = res_expiresAt res" "generation (issued eng user d w) = 0"
    by (simp_all add: issued_def w'(1) issue_result_def)
  then show ?thesis using session_chain [OF w'(2) _ assms(8)] assms(7) by simp
qed

text \<open>The example rotates to a new pepper between the two refreshes, with a device of two code units.\<close>

definition rotated_engine :: NebulaEngine where
  "rotated_engine = example_engine\<lparr>peppers := (peppers example_engine)(js ''k2'' \<mapsto> js ''fedcba9876543210fedcba9876543210''),
     activeKid := js ''k2''\<rparr>"

lemma rotated_engine_wf: "engine_wf rotated_engine"
proof -
  have "valid_pepper (js ''k2'', JString (js ''fedcba9876543210fedcba9876543210''))" by code_simp
  then show ?thesis using example_engine_wf by (auto simp: rotated_engine_def engine_wf_def)
qed

definition visits :: "(NebulaEngine \<times> int) list" where
  "visits = [(rotated_engine, 5050), (rotated_engine, 5120)]"

lemma example_schedule:
  "on_schedule example_engine 5000 6000 visits"
proof -
  have "js ''k1'' \<noteq> js ''k2''" by code_simp
  then show ?thesis by (simp add: visits_def rotated_engine_wf) (simp add: rotated_engine_def example_engine_def)
qed

lemma example_draws:
  "distinct (selectors 2 (entropy (drawn (after_family example_world)))) \<and>
   toBase64url (next_selector (after_family example_world)) \<notin>
     set (selectors 2 (entropy (drawn (after_family example_world))))"
  unfolding example_world_def by code_simp

theorem session_survives_witness:
  "\<exists>res w' rs. run memory_store (issue example_engine (js ''alice'') (Some (js ''ab''))) example_world = (Value res, w') \<and>
    session visits (token res) (Some (js ''ab'')) w' = Some rs \<and>
    map res_generation rs = map int [1..<Suc (length visits)] \<and>
    list_all (\<lambda>x. res_userId x = js ''alice'' \<and> res_familyId x = res_familyId res \<and> res_expiresAt x = res_expiresAt res) rs"
proof -
  let ?d = "Some (js ''ab'')"
  have d: "device_ok ?d" by code_simp
  obtain w' where w': "run memory_store (issue example_engine (js ''alice'') ?d) example_world =
      (Value (issue_result example_engine (js ''alice'') example_world), w')"
    "entropy w' = entropy (drawn (after_family example_world))"
    "dom (map_of (db w')) = insert (toBase64url (next_selector (after_family example_world))) (dom (map_of (db example_world)))"
    using issue_holds_current [OF example_valid example_engine_wf d example_unused] by blast
  have "no_collision (length visits) w'"
    using w'(2,3) example_draws by (simp add: no_collision_def visits_def numeral_2_eq_2) (simp add: example_world_def)
  moreover have "on_schedule example_engine (clock example_world)
      (res_expiresAt (issue_result example_engine (js ''alice'') example_world)) visits"
    using example_schedule by (simp add: issue_result_def example_world_def) (simp add: example_engine_def)
  ultimately show ?thesis
    using session_survives [OF example_valid example_engine_wf d example_unused w'(1)] w'(1) by blast
qed

section \<open>Deleting expired rows\<close>

lemma mem_delete_loop_eq:
  "mem_delete_loop t n rows = (n + length (filter (\<lambda>(k, r). familyExpiresAt r \<le> t) rows),
     filter (\<lambda>(k, r). t < familyExpiresAt r) rows)"
  by (induction t n rows rule: mem_delete_loop.induct) auto

lemma deleteExpired_rows:
  assumes "mem_valid rows"
  shows "map_of (snd (mem_deleteExpired rows t)) s =
    (case map_of rows s of None \<Rightarrow> None | Some r \<Rightarrow> if t < familyExpiresAt r then Some r else None)"
  using assms map_of_filter_value [of rows "\<lambda>r. t < familyExpiresAt r" s]
  by (simp add: mem_deleteExpired_def mem_delete_loop_eq mem_valid_def)

lemma deleteExpired_count:
  "mem_valid rows \<Longrightarrow> fst (mem_deleteExpired rows t) = card {s. \<exists>r. map_of rows s = Some r \<and> familyExpiresAt r \<le> t}"
  using length_filter_map_of [of rows "\<lambda>r. familyExpiresAt r \<le> t"]
  by (simp add: mem_deleteExpired_def mem_delete_loop_eq mem_valid_def)

lemma deleteExpired_valid: "mem_valid rows \<Longrightarrow> mem_valid (snd (mem_deleteExpired rows t))"
  by (auto simp: mem_deleteExpired_def mem_delete_loop_eq mem_valid_def list_all_iff distinct_map_filter)

text \<open>\<open>m'\<close> is \<open>m\<close> without the rows whose absolute deadline has come.\<close>

definition pruned :: "int \<Rightarrow> rows \<Rightarrow> rows \<Rightarrow> bool" where
  "pruned t m m' \<longleftrightarrow> (\<forall>s r. m' s = Some r \<longleftrightarrow> m s = Some r \<and> t < familyExpiresAt r)"

lemma prunedD: "pruned t m m' \<Longrightarrow> m' s = Some r \<longleftrightarrow> m s = Some r \<and> t < familyExpiresAt r"
  by (simp add: pruned_def)

lemma deleteExpired_pruned:
  "mem_valid rows \<Longrightarrow> pruned t (map_of rows) (map_of (snd (mem_deleteExpired rows t)))"
  by (auto simp: pruned_def deleteExpired_rows split: option.splits)

lemma pruned_wf:
  assumes "rows_wf m" "pruned t m m'"
  shows "rows_wf m'"
  unfolding rows_wf_def
proof (intro allI impI)
  fix s r
  assume "m' s = Some r"
  then have r: "m s = Some r" "t < familyExpiresAt r" using prunedD [OF assms(2)] by simp_all
  have "\<exists>q. m' s' = Some q \<and> linked r q" if s': "replacedBySelector r = Some s'" for s'
  proof -
    obtain q where "m s' = Some q" "linked r q" using rows_wfD(3) [OF assms(1) r(1) s'] by blast
    then show ?thesis using prunedD [OF assms(2)] r(2) by (auto simp: linked_def)
  qed
  then show "selector r = s \<and> rec_wf r \<and> (\<forall>s'. replacedBySelector r = Some s' \<longrightarrow> (\<exists>q. m' s' = Some q \<and> linked r q))"
    using rows_wfD(1,2) [OF assms(1) r(1)] by blast
qed

lemma pruned_authenticates:
  assumes "pruned t m m'"
  shows "authenticates eng m' tok r pepper \<longleftrightarrow> authenticates eng m tok r pepper \<and> t < familyExpiresAt r"
  by (auto simp: authenticates_def prunedD [OF assms])

lemma pruned_retryable:
  assumes "rows_wf m" "pruned t m m'" "m (selector r) = Some r" "t < familyExpiresAt r"
  shows "retryable eng m' r now \<longleftrightarrow> retryable eng m r now"
proof (cases "replacedBySelector r")
  case (Some s)
  then obtain q where q: "m s = Some q" "linked r q" using rows_wfD(3) [OF assms(1,3)] by blast
  then have "m' s = Some q" using prunedD [OF assms(2)] assms(4) by (simp add: linked_def)
  then show ?thesis using Some q(1) by (simp add: retryable_def has_status_def)
qed (simp add: retryable_def withinGrace_def)

lemma pruned_acceptable:
  assumes "rows_wf m" "pruned t m m'" "t \<le> now"
  shows "acceptable eng m' tok d now \<longleftrightarrow> acceptable eng m tok d now"
proof -
  have "t < familyExpiresAt r" if "current r now \<or> retryable eng m r now" for r
    using that assms(3) by (auto simp: current_def retryable_def withinGrace_def)
  then have "authenticates eng m' tok r pepper \<and> (current r now \<or> retryable eng m' r now) \<longleftrightarrow>
      authenticates eng m tok r pepper \<and> (current r now \<or> retryable eng m r now)" for r pepper
    using pruned_retryable [OF assms(1,2), of r] authenticates_row [OF _ assms(1), of eng tok r pepper]
    unfolding pruned_authenticates [OF assms(2)] by blast
  then show ?thesis unfolding acceptable_def by (metis (no_types, opaque_lifting))
qed

text \<open>
  \<^bold>\<open>C22.\<close> Deleting expired rows at time \<open>now\<close> removes exactly the rows whose absolute deadline has
  come and reports how many. It keeps the store well formed, every remaining row with its successor,
  and it does not change which tokens refresh accepts at that time or later: reuse detection needs a
  rotated row only until the absolute deadline of its family.
\<close>

theorem deleteExpired_safe:
  assumes "mem_valid rows" "rows_wf (map_of rows)" "now \<le> t"
  shows "(\<forall>s r. map_of (snd (mem_deleteExpired rows now)) s = Some r \<longleftrightarrow>
      map_of rows s = Some r \<and> now < familyExpiresAt r) \<and>
    fst (mem_deleteExpired rows now) = card {s. \<exists>r. map_of rows s = Some r \<and> familyExpiresAt r \<le> now} \<and>
    mem_valid (snd (mem_deleteExpired rows now)) \<and> rows_wf (map_of (snd (mem_deleteExpired rows now))) \<and>
    acceptable eng (map_of (snd (mem_deleteExpired rows now))) tok d t = acceptable eng (map_of rows) tok d t"
  using deleteExpired_pruned [OF assms(1), of now] pruned_wf [OF assms(2)] pruned_acceptable [OF assms(2) _ assms(3)]
    deleteExpired_count [OF assms(1)] deleteExpired_valid [OF assms(1)]
  unfolding pruned_def by blast

theorem deleteExpired_safe_witness:
  "(\<forall>s r. map_of (snd (mem_deleteExpired (db live_world) 6000)) s = Some r \<longleftrightarrow>
      map_of (db live_world) s = Some r \<and> 6000 < familyExpiresAt r) \<and>
    fst (mem_deleteExpired (db live_world) 6000) =
      card {s. \<exists>r. map_of (db live_world) s = Some r \<and> familyExpiresAt r \<le> 6000} \<and>
    mem_valid (snd (mem_deleteExpired (db live_world) 6000)) \<and>
    rows_wf (map_of (snd (mem_deleteExpired (db live_world) 6000))) \<and>
    acceptable example_engine (map_of (snd (mem_deleteExpired (db live_world) 6000))) example_token None 6001 =
      acceptable example_engine (map_of (db live_world)) example_token None 6001"
  by (rule deleteExpired_safe [OF live_world_valid]) simp

section \<open>Bounds\<close>

lemma format_token_length:
  assumes "valid_kid k" "valid_selector s" "length v = VERIFIER_BYTES"
  shows "length (format_token k s v) = 71 + length k"
proof -
  have "length (toBase64url v) = 43" using assms(3) by (simp add: length_toBase64url wire_constants)
  then show ?thesis using assms(2) by (simp add: format_token_def valid_selector_def wire_constants js_def)
qed

text \<open>
  \<^bold>\<open>C15.\<close> Bounds of what is issued. A token has 71 characters and those of the key id, so between 72
  and 135, all of them single octets; it is far below the limit of the parser, which accepts it and reads
  the active key id. Its idle deadline is later than now and no later than the deadline of the family.
\<close>

theorem issued_token_bounds:
  assumes "mem_valid (db w)" "engine_wf eng" "unused (after_family w)"
    and "run memory_store (issue eng user d) w = (Value res, w')"
  shows "length (token res) = 71 + length (activeKid eng) \<and> 72 \<le> length (token res) \<and> length (token res) \<le> 135 \<and>
    byteLength (token res) = length (token res) \<and> length (token res) \<le> MAX_TOKEN_LENGTH \<and>
    map_option p_kid (parseToken (JString (token res))) = Some (activeKid eng) \<and>
    clock w < res_idleExpiresAt res \<and> res_idleExpiresAt res \<le> res_expiresAt res"
proof -
  obtain w1 where "run memory_store (issue eng user d) w =
      (if device_ok d then Value (issue_result eng user w) else Thrown InvalidDeviceId, w1)"
    using memory_issue [OF assms(1) _ assms(3)] memory_transfer [OF assms(1) run_issue_invalid]
    by (cases "device_ok d") fastforce+
  then have res: "res = issue_result eng user w" using assms(4) by (auto split: if_splits)
  let ?k = "activeKid eng" and ?s = "toBase64url (next_selector (after_family w))"
    and ?v = "next_verifier (after_family w)"
  have tok: "token res = format_token ?k ?s ?v" by (simp add: res issue_result_def)
  have k: "valid_kid ?k" by (rule engine_kid [OF assms(2)])
  have s: "valid_selector ?s" by (simp add: valid_selector_toBase64url)
  have v: "length ?v = VERIFIER_BYTES" by simp
  have "1 \<le> length ?k" "length ?k \<le> 64" using k by (auto simp: valid_kid_def wire_constants Suc_le_eq)
  moreover have "byteLength (token res) = length (token res)"
    using format_token_ascii [OF k s v] by (simp add: tok byteLength_ascii)
  ultimately show ?thesis
    using format_token_length [OF k s v] parseToken_format [OF k s v] assms(2)
    by (auto simp: tok res issue_result_def engine_wf_def wire_constants)
qed

theorem issued_token_bounds_witness:
  "\<exists>res w'. run memory_store (issue example_engine (js ''alice'') None) example_world = (Value res, w') \<and>
    length (token res) = 71 + length (activeKid example_engine) \<and> 72 \<le> length (token res) \<and>
    length (token res) \<le> 135 \<and> byteLength (token res) = length (token res) \<and>
    length (token res) \<le> MAX_TOKEN_LENGTH \<and>
    map_option p_kid (parseToken (JString (token res))) = Some (activeKid example_engine) \<and>
    clock example_world < res_idleExpiresAt res \<and> res_idleExpiresAt res \<le> res_expiresAt res"
proof -
  have "device_ok None" by code_simp
  then obtain w' where w': "run memory_store (issue example_engine (js ''alice'') None) example_world =
      (Value (issue_result example_engine (js ''alice'') example_world), w')"
    using memory_issue [OF example_valid(1) _ example_unused] by blast
  from issued_token_bounds [OF example_valid(1) example_engine_wf example_unused w'] w' show ?thesis by blast
qed

end
