(* ===== verification/Replies.thy ===== *)
theory Replies
  imports Engine_Theorems
begin

text \<open>
  What a reply says about the store, in every interleaving: the token handed out authenticates a stored
  row, and a failure is attributed to the row the token named.
\<close>

section \<open>Replies in a pool\<close>

lemma pool_replies:
  assumes "interleaves memory_store (handled engines) ([], w) (ts, w')" "mem_valid (db w)" "rows_wf (map_of (db w))"
    "i < length ts" "ts ! i = Inr (Return (eng, req, rep))"
  shows "eng \<in> engines \<and> (\<exists>K. knows (map_of (db w')) K \<and> reply_post eng req K rep)"
proof -
  note m = memory_interleaves [OF assms(1,2)]
  have "pool_ok (exchange_post engines) ([], memory.abs_world w)" using assms(3) by (simp add: pool_ok_def)
  from interleaves_disciplined [OF m(1) this disciplined_handled]
  have "thread_ok (exchange_post engines) (map_of (db w')) (ts ! i)"
    using assms(4) by (simp add: pool_ok_def list_all_length)
  then show ?thesis using assms(5) by (auto simp: thread_ok_def exchange_post_def)
qed

lemma knows_row:
  assumes "knows m K" "r \<in> K"
  shows "\<exists>r'. m (selector r) = Some r' \<and> core r' = core r"
  using assms by (auto simp: knows_def later_def)

definition backed :: "rows \<Rightarrow> NebulaEngine \<Rightarrow> IssueResult \<Rightarrow> TokenRecord \<Rightarrow> bool" where
  "backed m eng res r \<longleftrightarrow> (\<exists>q. parseToken (JString (token res)) = Some q \<and> m (p_selector q) = Some r \<and>
     kid r = activeKid eng \<and> verifierHash r = hashVerifier (activePepper eng) (p_verifier q) \<and>
     res_userId res = userId r \<and> res_familyId res = familyId r \<and> res_generation res = generation r \<and>
     res_expiresAt res = familyExpiresAt r \<and> res_idleExpiresAt res = idleExpiresAt r \<and>
     idleExpiresAt r \<le> familyExpiresAt r)"

lemma backs_backed:
  assumes "engine_wf eng" "rows_wf m" "m (selector r) = Some r'" "core r' = core r" "backs r eng res"
  shows "backed m eng res r'"
proof -
  obtain v where v: "length v = VERIFIER_BYTES" "token res = format_token (activeKid eng) (selector r) v"
    "verifierHash r = hashVerifier (activePepper eng) v"
    using assms(5) by (auto simp: backs_def)
  have "valid_selector (selector r)" "idleExpiresAt r' \<le> familyExpiresAt r'"
    using rows_wfD(1,2) [OF assms(2,3)] core_fields [OF assms(4)] by (auto simp: rec_wf_def)
  then show ?thesis
    using parseToken_format [OF engine_kid [OF assms(1)], of "selector r" v] v assms(3,5) core_fields [OF assms(4)]
    by (auto simp: backed_def backs_def)
qed

text \<open>
  \<^bold>\<open>C11.\<close> In every interleaving, a token that refresh handed out authenticates a stored row under the
  active key of the process that served it, and that row is the successor of the row the presented
  token names: same user, family and absolute deadline, one generation on, idle deadline within the
  absolute one. The result reports exactly that row.
\<close>

theorem refresh_reply_backed:
  assumes "interleaves memory_store (handled engines) ([], w) (ts, w')" "mem_valid (db w)" "rows_wf (map_of (db w))"
    "\<And>eng. eng \<in> engines \<Longrightarrow> engine_wf eng"
    "i < length ts" "ts ! i = Inr (Return (eng, Refresh tok d, Refreshed (RefreshSuccess res)))"
  shows "\<exists>p r r'. parseToken tok = Some p \<and> map_of (db w') (p_selector p) = Some r \<and>
    backed (map_of (db w')) eng res r' \<and> linked r r'"
proof -
  obtain K a b p where K: "eng \<in> engines" "knows (map_of (db w')) K" "a \<in> K" "b \<in> K"
    "parseToken tok = Some p" "selector a = p_selector p" "linked a b" "backs b eng res"
    using pool_replies [OF assms(1-3,5,6)] by auto
  have "rows_wf (map_of (db w'))"
    using memory_interleaves [OF assms(1,2)] assms(3)
      interleaves_disciplined [of "handled engines" "([], memory.abs_world w)" _ "exchange_post engines"] disciplined_handled
    by (fastforce simp: pool_ok_def)
  moreover obtain a' b' where "map_of (db w') (p_selector p) = Some a'" "core a' = core a"
    "map_of (db w') (selector b) = Some b'" "core b' = core b"
    using knows_row [OF K(2,3)] knows_row [OF K(2,4)] K(6) by auto
  ultimately show ?thesis
    using backs_backed [OF assms(4) [OF K(1)]] K(5,8) linked_core [OF K(7)] by metis
qed

text \<open>
  \<^bold>\<open>C12.\<close> In every interleaving, a failed refresh names the owner and the family of the row its token
  names, except for \<open>MALFORMED\<close>, \<open>UNKNOWN_KID\<close> and \<open>NOT_FOUND\<close>, which name nobody.
\<close>

theorem refresh_failure_attributed:
  assumes "interleaves memory_store (handled engines) ([], w) (ts, w')" "mem_valid (db w)" "rows_wf (map_of (db w))"
    "i < length ts" "ts ! i = Inr (Return (eng, Refresh tok d, Refreshed (RefreshFailure e u f)))"
  shows "if e \<in> {MALFORMED, UNKNOWN_KID, NOT_FOUND} then u = None \<and> f = None
    else \<exists>p r. parseToken tok = Some p \<and> map_of (db w') (p_selector p) = Some r \<and>
      u = Some (userId r) \<and> f = Some (familyId r)"
proof -
  obtain K where K: "knows (map_of (db w')) K" "attributed K tok e u f"
    using pool_replies [OF assms] by auto
  show ?thesis
  proof (cases "e \<in> {MALFORMED, UNKNOWN_KID, NOT_FOUND}")
    case False
    then obtain a p where a: "a \<in> K" "parseToken tok = Some p" "selector a = p_selector p"
      "u = Some (userId a)" "f = Some (familyId a)" using K(2) unfolding attributed_def by auto
    obtain r where r: "map_of (db w') (selector a) = Some r" "core r = core a" using knows_row [OF K(1) a(1)] by blast
    have "userId r = userId a" "familyId r = familyId a" using core_fields [OF r(2)] by simp_all
    then show ?thesis using False a r(1) by simp
  qed (use K(2) in \<open>auto simp: attributed_def\<close>)
qed

section \<open>A finished exchange\<close>

primrec map_outcome :: "('a \<Rightarrow> 'b) \<Rightarrow> ('e, 'a) outcome \<Rightarrow> ('e, 'b) outcome" where
  "map_outcome g (Value a) = Value (g a)"
| "map_outcome g (Thrown e) = Thrown e"
| "map_outcome g (Rejected e) = Rejected e"

lemma run_map_prog: "run S (map_prog id g p) w = map_prod (map_outcome g) id (run S p w)"
  by (induction p arbitrary: w) (auto simp: run.simps split: prod.splits sum.splits)

lemma finished_exchange:
  assumes "eng \<in> engines" "run memory_store (refresh eng tok d) w = (Value res, w')"
  shows "interleaves memory_store (handled engines) ([], w)
    ([Inr (Return (eng, Refresh tok d, Refreshed res))], w')"
proof (rule interleaves_spawn [OF assms(1), of _ _ "Refresh tok d"])
  have "run memory_store (handle eng (Refresh tok d)) w = (Value (eng, Refresh tok d, Refreshed res), w')"
    using assms(2) by (simp add: handle_Refresh run_map_prog refreshed_def)
  then show "interleaves memory_store (handled engines) ([] @ [Inr (handle eng (Refresh tok d))], w)
      ([Inr (Return (eng, Refresh tok d, Refreshed res))], w')"
    using run_interleaves [of memory_store "handled engines" "handle eng (Refresh tok d)" w] by simp
qed

theorem refresh_reply_backed_witness:
  "\<exists>res (w' :: memory world). \<exists>p r r'. parseToken example_token = Some p \<and> map_of (db w') (p_selector p) = Some r \<and>
    backed (map_of (db w')) example_engine res r' \<and> linked r r'"
proof -
  obtain res w' where run: "run memory_store (refresh example_engine example_token None) live_world =
      (Value (RefreshSuccess res), w')" using live_run by blast
  show ?thesis
    by (rule exI [of _ res], rule exI [of _ w'],
        rule refresh_reply_backed [OF finished_exchange [of _ "{example_engine}", OF _ run] live_world_valid, of 0])
       (auto simp: example_engine_wf)
qed

theorem refresh_failure_attributed_witness:
  "\<exists>w' :: memory world. if REUSE_DETECTED \<in> {MALFORMED, UNKNOWN_KID, NOT_FOUND}
    then Some (userId example_old) = None \<and> Some (familyId example_old) = None
    else \<exists>p r. parseToken example_token = Some p \<and> map_of (db w') (p_selector p) = Some r \<and>
      Some (userId example_old) = Some (userId r) \<and> Some (familyId example_old) = Some (familyId r)"
proof -
  obtain w' where run: "run memory_store (refresh example_engine example_token None) replay_world =
      (Value (RefreshFailure REUSE_DETECTED (Some (userId example_old)) (Some (familyId example_old))), w')"
    using replay_run by blast
  show ?thesis
    by (rule exI [of _ w'],
        rule refresh_failure_attributed [OF finished_exchange [of _ "{example_engine}", OF _ run] replay_world_valid, of 0])
       auto
qed

end
