(* ===== verification/Failing_Store.thy ===== *)
theory Failing_Store
  imports Store
begin

text \<open>
  The storage contract of \<open>packages/typescript/src/index.ts\<close> for a store whose calls can fail: the abstract
  store with a schedule of failures, the locale \<open>failing_store\<close> of the stores that behave like it, and what a
  program sees on such a store.
\<close>

section \<open>Stores that can fail\<close>

text \<open>
  A call of a real store can fail, and then the promise rejects ([N-20] of the specification). The call has had
  no effect, or it took effect and only its answer was lost; nothing in between, because each call is one
  atomic statement.
\<close>

definition answers ::
  "(rows \<Rightarrow> (store_error + 'a) \<times> rows) \<Rightarrow> rows \<Rightarrow> store_error + 'a \<Rightarrow> rows \<Rightarrow> bool" where
  "answers call m out m' \<longleftrightarrow> call m = (out, m') \<or> (\<exists>e. out = Inl e \<and> (m' = m \<or> m' = snd (call m)))"

text \<open>The abstract store with a schedule of failures, one entry per call; behind its end every call works.\<close>

datatype fault = Works | Refused store_error | Lost store_error

fun with_fault ::
  "(rows \<Rightarrow> (store_error + 'a) \<times> rows) \<Rightarrow> fault list \<times> rows \<Rightarrow> (store_error + 'a) \<times> fault list \<times> rows" where
  "with_fault call ([], m) = (case call m of (out, m') \<Rightarrow> (out, [], m'))"
| "with_fault call (Works # fs, m) = (case call m of (out, m') \<Rightarrow> (out, fs, m'))"
| "with_fault call (Refused e # fs, m) = (Inl e, fs, m)"
| "with_fault call (Lost e # fs, m) = (Inl e, fs, snd (call m))"

definition failing_spec :: "(fault list \<times> rows) RefreshTokenStore" where
  "failing_spec = \<lparr>
     findBySelector = (\<lambda>d s. with_fault (\<lambda>m. findBySelector spec_store m s) d),
     insert_record = (\<lambda>d r. with_fault (\<lambda>m. insert_record spec_store m r) d),
     markRotated = (\<lambda>d s st t s'. with_fault (\<lambda>m. markRotated spec_store m s st t s') d),
     revokeIfActive = (\<lambda>d s. with_fault (\<lambda>m. revokeIfActive spec_store m s) d),
     revokeFamily = (\<lambda>d f. with_fault (\<lambda>m. revokeFamily spec_store m f) d),
     revokeUser = (\<lambda>d u. with_fault (\<lambda>m. revokeUser spec_store m u) d) \<rparr>"

lemma failing_spec_simps [simp]:
  "findBySelector failing_spec d s = with_fault (\<lambda>m. findBySelector spec_store m s) d"
  "insert_record failing_spec d r = with_fault (\<lambda>m. insert_record spec_store m r) d"
  "markRotated failing_spec d s st t s' = with_fault (\<lambda>m. markRotated spec_store m s st t s') d"
  "revokeIfActive failing_spec d s = with_fault (\<lambda>m. revokeIfActive spec_store m s) d"
  "revokeFamily failing_spec d f = with_fault (\<lambda>m. revokeFamily spec_store m f) d"
  "revokeUser failing_spec d u = with_fault (\<lambda>m. revokeUser spec_store m u) d"
  by (simp_all add: failing_spec_def)

definition with_faults :: "fault list \<Rightarrow> rows world \<Rightarrow> (fault list \<times> rows) world" where
  "with_faults fs w = \<lparr>db = (fs, db w), entropy = entropy w, clock = clock w\<rparr>"

definition without_faults :: "(fault list \<times> rows) world \<Rightarrow> rows world" where
  "without_faults w = \<lparr>db = snd (db w), entropy = entropy w, clock = clock w\<rparr>"

lemma world_faults [simp]:
  "db (with_faults fs w) = (fs, db w)" "entropy (with_faults fs w) = entropy w" "clock (with_faults fs w) = clock w"
  "without_faults (with_faults fs w) = w" "db (without_faults v) = snd (db v)"
  "(with_faults fs w)\<lparr>db := (gs, m)\<rparr> = with_faults gs (w\<lparr>db := m\<rparr>)"
  "(with_faults fs w)\<lparr>entropy := \<rho>\<rparr> = with_faults fs (w\<lparr>entropy := \<rho>\<rparr>)"
  by (simp_all add: with_faults_def without_faults_def)

lemma answers_fault:
  "answers call m out m' \<Longrightarrow> \<exists>f. \<forall>fs. with_fault call (f # fs, m) = (out, fs, m')"
proof -
  assume "answers call m out m'"
  then consider "call m = (out, m')" | e where "out = Inl e" "m' = m" | e where "out = Inl e" "m' = snd (call m)"
    by (auto simp: answers_def)
  then show ?thesis
  proof cases
    case 1
    then show ?thesis by (intro exI [of _ Works]) simp
  next
    case (2 e)
    then show ?thesis by (intro exI [of _ "Refused e"]) simp
  next
    case (3 e)
    then show ?thesis by (intro exI [of _ "Lost e"]) simp
  qed
qed

text \<open>What a store can represent: the texts with \<open>T\<close> and the integers with \<open>I\<close>.\<close>

definition record_fits :: "(jsstring \<Rightarrow> bool) \<Rightarrow> (int \<Rightarrow> bool) \<Rightarrow> TokenRecord \<Rightarrow> bool" where
  "record_fits T I r \<longleftrightarrow> T (selector r) \<and> T (verifierHash r) \<and> T (kid r) \<and> T (familyId r) \<and> T (userId r) \<and>
     pred_option T (deviceIdHash r) \<and> pred_option T (replacedBySelector r) \<and>
     I (generation r) \<and> I (createdAt r) \<and> I (familyExpiresAt r) \<and> I (idleExpiresAt r) \<and> pred_option I (rotatedAt r)"

text \<open>Every call that the program makes on the abstract store, without failures, has arguments that fit.\<close>

primrec calls_fit :: "(jsstring \<Rightarrow> bool) \<Rightarrow> (int \<Rightarrow> bool) \<Rightarrow> ('e, 'a) prog \<Rightarrow> rows world \<Rightarrow> bool" where
  "calls_fit T I (Return a) w = True"
| "calls_fit T I (Throw e) w = True"
| "calls_fit T I (FindBySelector s k) w = (T s \<and> calls_fit T I (k (db w s)) w)"
| "calls_fit T I (Insert r p) w =
     (record_fits T I r \<and> (db w (selector r) = None \<longrightarrow> calls_fit T I p (w\<lparr>db := (db w)(selector r \<mapsto> r)\<rparr>)))"
| "calls_fit T I (MarkRotated s st t s' k) w =
     (T s \<and> I t \<and> T s' \<and> calls_fit T I (k (has_status (db w) s st)) (w\<lparr>db := mark_rows s st t s' (db w)\<rparr>))"
| "calls_fit T I (RevokeIfActive s k) w =
     (T s \<and> calls_fit T I (k (has_status (db w) s Active)) (w\<lparr>db := revoke_active s (db w)\<rparr>))"
| "calls_fit T I (RevokeFamily f k) w =
     (T f \<and> calls_fit T I (k (card (revocable (\<lambda>r. familyId r = f) (db w))))
        (w\<lparr>db := revoke_where (\<lambda>r. familyId r = f) (db w)\<rparr>))"
| "calls_fit T I (RevokeUser u k) w =
     (T u \<and> calls_fit T I (k (card (revocable (\<lambda>r. userId r = u) (db w))))
        (w\<lparr>db := revoke_where (\<lambda>r. userId r = u) (db w)\<rparr>))"
| "calls_fit T I (Clock k) w = calls_fit T I (k (clock w)) w"
| "calls_fit T I (RandomBytes n k) w =
     (case randomBytes n (entropy w) of (bs, \<rho>) \<Rightarrow> calls_fit T I (k bs) (w\<lparr>entropy := \<rho>\<rparr>))"

locale failing_store =
  fixes S :: "'s RefreshTokenStore"
    and contents :: "'s \<Rightarrow> rows"
    and valid :: "'s \<Rightarrow> bool"
    and T :: "jsstring \<Rightarrow> bool"
    and I :: "int \<Rightarrow> bool"
  assumes find_answers: "valid d \<Longrightarrow> T s \<Longrightarrow> \<exists>out d'. findBySelector S d s = (out, d') \<and> valid d' \<and>
      answers (\<lambda>m. findBySelector spec_store m s) (contents d) out (contents d')"
    and insert_answers: "valid d \<Longrightarrow> record_fits T I r \<Longrightarrow> \<exists>out d'. insert_record S d r = (out, d') \<and> valid d' \<and>
      answers (\<lambda>m. insert_record spec_store m r) (contents d) out (contents d')"
    and mark_answers: "valid d \<Longrightarrow> T s \<Longrightarrow> I t \<Longrightarrow> T s' \<Longrightarrow>
      \<exists>out d'. markRotated S d s st t s' = (out, d') \<and> valid d' \<and>
        answers (\<lambda>m. markRotated spec_store m s st t s') (contents d) out (contents d')"
    and revoke_active_answers: "valid d \<Longrightarrow> T s \<Longrightarrow> \<exists>out d'. revokeIfActive S d s = (out, d') \<and> valid d' \<and>
      answers (\<lambda>m. revokeIfActive spec_store m s) (contents d) out (contents d')"
    and revoke_family_answers: "valid d \<Longrightarrow> T f \<Longrightarrow> \<exists>out d'. revokeFamily S d f = (out, d') \<and> valid d' \<and>
      answers (\<lambda>m. revokeFamily spec_store m f) (contents d) out (contents d')"
    and revoke_user_answers: "valid d \<Longrightarrow> T u \<Longrightarrow> \<exists>out d'. revokeUser S d u = (out, d') \<and> valid d' \<and>
      answers (\<lambda>m. revokeUser spec_store m u) (contents d) out (contents d')"
begin

definition seen_world :: "'s world \<Rightarrow> rows world" where
  "seen_world w = \<lparr>db = contents (db w), entropy = entropy w, clock = clock w\<rparr>"

lemma seen_simps [simp]:
  "db (seen_world w) = contents (db w)" "entropy (seen_world w) = entropy w" "clock (seen_world w) = clock w"
  "seen_world (w\<lparr>db := d\<rparr>) = (seen_world w)\<lparr>db := contents d\<rparr>"
  "seen_world (w\<lparr>entropy := \<rho>\<rparr>) = (seen_world w)\<lparr>entropy := \<rho>\<rparr>"
  by (simp_all add: seen_world_def)

lemma seen_unchanged: "contents (db w) = contents d \<Longrightarrow> (seen_world w)\<lparr>db := contents d\<rparr> = seen_world w"
  by (simp add: seen_world_def)

definition failing_run :: "('e, 'a) prog \<Rightarrow> 's world \<Rightarrow> fault list \<Rightarrow> bool" where
  "failing_run p w fs \<longleftrightarrow> (\<exists>w'. run S p w = (fst (run failing_spec p (with_faults fs (seen_world w))), w') \<and>
     valid (db w') \<and> seen_world w' = without_faults (snd (run failing_spec p (with_faults fs (seen_world w)))))"

text \<open>One call: it fails and ends the run, or it answers and the rest of the program runs.\<close>

lemma failing_call:
  fixes k :: "'b \<Rightarrow> ('e, 'a) prog"
  assumes run_S: "run S p w = (case out of Inl e \<Rightarrow> (Rejected e, w\<lparr>db := d\<rparr>) | Inr r \<Rightarrow> run S (k r) (w\<lparr>db := d\<rparr>))"
    and run_spec: "\<And>v. run failing_spec p v = (case with_fault call (db v) of
      (Inl e, d) \<Rightarrow> (Rejected e, v\<lparr>db := d\<rparr>) | (Inr r, d) \<Rightarrow> run failing_spec (k r) (v\<lparr>db := d\<rparr>))"
    and d: "valid d" and a: "answers call (contents (db w)) out (contents d)"
    and rest: "\<And>r. out = Inr r \<Longrightarrow> call (contents (db w)) = (Inr r, contents d) \<Longrightarrow> \<exists>fs. failing_run (k r) (w\<lparr>db := d\<rparr>) fs"
  shows "\<exists>fs. failing_run p w fs"
proof -
  obtain f where f: "\<And>fs. with_fault call (f # fs, contents (db w)) = (out, fs, contents d)"
    using answers_fault [OF a] by blast
  show ?thesis
  proof (cases out)
    case (Inl e)
    then have "failing_run p w [f]" using d f [of "[]"]
      by (simp add: failing_run_def run_S run_spec)
    then show ?thesis by blast
  next
    case (Inr r)
    then have "call (contents (db w)) = (Inr r, contents d)" using a by (auto simp: answers_def)
    then obtain fs where "failing_run (k r) (w\<lparr>db := d\<rparr>) fs" using rest [OF Inr] by blast
    then have "failing_run p w (f # fs)" using f [of fs] Inr by (simp add: failing_run_def run_S run_spec)
    then show ?thesis by blast
  qed
qed

text \<open>A run on the store is a run on the abstract store with some of its calls failing.\<close>

lemma run_failing:
  assumes "valid (db w)" "calls_fit T I p (seen_world w)"
  shows "\<exists>fs. failing_run p w fs"
  using assms
proof (induction p arbitrary: w)
  case (FindBySelector s k)
  then obtain out d where d: "findBySelector S (db w) s = (out, d)" "valid d"
      "answers (\<lambda>m. findBySelector spec_store m s) (contents (db w)) out (contents d)"
    using find_answers [of "db w" s] by auto
  show ?case
  proof (rule failing_call [OF _ _ d(2,3)])
    show "\<exists>fs. failing_run (k r) (w\<lparr>db := d\<rparr>) fs" if "findBySelector spec_store (contents (db w)) s = (Inr r, contents d)" for r
      using that FindBySelector.IH [of "k r" "w\<lparr>db := d\<rparr>"] FindBySelector.prems d(2) seen_unchanged [of w d]
      by (auto simp: spec_store_def)
  qed (simp_all add: d(1) split: sum.split)
next
  case (Insert r p)
  then obtain out d where d: "insert_record S (db w) r = (out, d)" "valid d"
      "answers (\<lambda>m. insert_record spec_store m r) (contents (db w)) out (contents d)"
    using insert_answers [of "db w" r] by auto
  show ?case
  proof (rule failing_call [OF _ _ d(2,3)])
    show "\<exists>fs. failing_run ((\<lambda>_. p) b) (w\<lparr>db := d\<rparr>) fs" if "insert_record spec_store (contents (db w)) r = (Inr b, contents d)" for b
      using that Insert d(2) by (auto simp: spec_store_def split: if_splits)
  qed (simp_all add: d(1) split: sum.split)
next
  case (MarkRotated s st t s' k)
  then obtain out d where d: "markRotated S (db w) s st t s' = (out, d)" "valid d"
      "answers (\<lambda>m. markRotated spec_store m s st t s') (contents (db w)) out (contents d)"
    using mark_answers [of "db w" s t s' st] by auto
  show ?case
  proof (rule failing_call [OF _ _ d(2,3)])
    show "\<exists>fs. failing_run (k b) (w\<lparr>db := d\<rparr>) fs" if "markRotated spec_store (contents (db w)) s st t s' = (Inr b, contents d)" for b
      using that MarkRotated d(2) by (auto simp: spec_store_def)
  qed (simp_all add: d(1) split: sum.split)
next
  case (RevokeIfActive s k)
  then obtain out d where d: "revokeIfActive S (db w) s = (out, d)" "valid d"
      "answers (\<lambda>m. revokeIfActive spec_store m s) (contents (db w)) out (contents d)"
    using revoke_active_answers [of "db w" s] by auto
  show ?case
  proof (rule failing_call [OF _ _ d(2,3)])
    show "\<exists>fs. failing_run (k b) (w\<lparr>db := d\<rparr>) fs" if "revokeIfActive spec_store (contents (db w)) s = (Inr b, contents d)" for b
      using that RevokeIfActive d(2) by (auto simp: spec_store_def)
  qed (simp_all add: d(1) split: sum.split)
next
  case (RevokeFamily f k)
  then obtain out d where d: "revokeFamily S (db w) f = (out, d)" "valid d"
      "answers (\<lambda>m. revokeFamily spec_store m f) (contents (db w)) out (contents d)"
    using revoke_family_answers [of "db w" f] by auto
  show ?case
  proof (rule failing_call [OF _ _ d(2,3)])
    show "\<exists>fs. failing_run (k n) (w\<lparr>db := d\<rparr>) fs" if "revokeFamily spec_store (contents (db w)) f = (Inr n, contents d)" for n
      using that RevokeFamily d(2) by (auto simp: spec_store_def)
  qed (simp_all add: d(1) split: sum.split)
next
  case (RevokeUser u k)
  then obtain out d where d: "revokeUser S (db w) u = (out, d)" "valid d"
      "answers (\<lambda>m. revokeUser spec_store m u) (contents (db w)) out (contents d)"
    using revoke_user_answers [of "db w" u] by auto
  show ?case
  proof (rule failing_call [OF _ _ d(2,3)])
    show "\<exists>fs. failing_run (k n) (w\<lparr>db := d\<rparr>) fs" if "revokeUser spec_store (contents (db w)) u = (Inr n, contents d)" for n
      using that RevokeUser d(2) by (auto simp: spec_store_def)
  qed (simp_all add: d(1) split: sum.split)
next
  case (RandomBytes n k)
  then show ?case using RandomBytes.IH [of _ "w\<lparr>entropy := snd (randomBytes n (entropy w))\<rparr>"]
    by (auto simp: failing_run_def randomBytes_def)
next
  case (Clock k)
  then show ?case using Clock.IH [of "k (clock w)" w] by (simp add: failing_run_def)
qed (auto simp: failing_run_def)

lemma run_refines_failing:
  assumes "valid (db w)" "calls_fit T I p \<lparr>db = contents (db w), entropy = entropy w, clock = clock w\<rparr>"
  shows "\<exists>fs w' a. run S p w = (fst a, w') \<and> valid (db w') \<and>
    a = run failing_spec p (with_faults fs \<lparr>db = contents (db w), entropy = entropy w, clock = clock w\<rparr>) \<and>
    \<lparr>db = contents (db w'), entropy = entropy w', clock = clock w'\<rparr> = without_faults (snd a)"
  using run_failing [OF assms(1), of p] assms(2) unfolding failing_run_def seen_world_def by blast

end

text \<open>Fail closed: a run that no failure ends is a run without failures.\<close>

lemma with_fault_Inr: "with_fault call d = (Inr r, d') \<Longrightarrow> call (snd d) = (Inr r, snd d')"
  by (cases "(call, d)" rule: with_fault.cases) (auto split: prod.splits)

lemma without_faults_simps [simp]:
  "without_faults (w\<lparr>db := d\<rparr>) = (without_faults w)\<lparr>db := snd d\<rparr>" "clock (without_faults w) = clock w"
  "without_faults (w\<lparr>entropy := \<rho>\<rparr>) = (without_faults w)\<lparr>entropy := \<rho>\<rparr>" "entropy (without_faults w) = entropy w"
  by (simp_all add: without_faults_def)

lemma value_call:
  assumes out: "run failing_spec p w = (out, w')" "\<nexists>e. out = Rejected e"
    and run_spec: "run failing_spec p w = (case with_fault call (db w) of
      (Inl e, d) \<Rightarrow> (Rejected e, w\<lparr>db := d\<rparr>) | (Inr r, d) \<Rightarrow> run failing_spec (k r) (w\<lparr>db := d\<rparr>))"
    and run_rows: "run spec_store p (without_faults w) = (case call (snd (db w)) of
      (Inl e, m) \<Rightarrow> (Rejected e, (without_faults w)\<lparr>db := m\<rparr>) | (Inr r, m) \<Rightarrow> run spec_store (k r) ((without_faults w)\<lparr>db := m\<rparr>))"
    and rest: "\<And>r d v. run failing_spec (k r) (w\<lparr>db := d\<rparr>) = (out, w') \<Longrightarrow> v = without_faults (w\<lparr>db := d\<rparr>) \<Longrightarrow>
      run spec_store (k r) v = (out, without_faults w')"
  shows "run spec_store p (without_faults w) = (out, without_faults w')"
proof -
  obtain r d where d: "with_fault call (db w) = (Inr r, d)" "run failing_spec (k r) (w\<lparr>db := d\<rparr>) = (out, w')"
    using out unfolding run_spec by (auto split: prod.splits sum.splits)
  from rest [OF d(2) refl] with_fault_Inr [OF d(1)] show ?thesis by (simp add: run_rows)
qed

lemma failing_value:
  "run failing_spec p w = (out, w') \<Longrightarrow> \<nexists>e. out = Rejected e \<Longrightarrow>
    run spec_store p (without_faults w) = (out, without_faults w')"
proof (induction p arbitrary: w)
  case (RandomBytes n k)
  then show ?case using RandomBytes.IH [of _ "w\<lparr>entropy := snd (randomBytes n (entropy w))\<rparr>"]
    by (simp add: randomBytes_def)
next
  case (FindBySelector s k)
  show ?case
  proof (rule value_call [where call = "\<lambda>m. findBySelector spec_store m s" and k = "k", OF FindBySelector.prems])
    show "run spec_store (k r) v = (out, without_faults w')"
      if "run failing_spec (k r) (w\<lparr>db := d\<rparr>) = (out, w')" "v = without_faults (w\<lparr>db := d\<rparr>)" for r d v
      using FindBySelector.IH [of "k r" "w\<lparr>db := d\<rparr>"] that FindBySelector.prems(2) by simp
  qed (simp_all split: sum.split)
next
  case (Insert q p)
  show ?case
  proof (rule value_call [where call = "\<lambda>m. insert_record spec_store m q" and k = "\<lambda>_. p", OF Insert.prems])
    show "run spec_store ((\<lambda>_. p) r) v = (out, without_faults w')"
      if "run failing_spec ((\<lambda>_. p) r) (w\<lparr>db := d\<rparr>) = (out, w')" "v = without_faults (w\<lparr>db := d\<rparr>)" for r d v
      using Insert.IH [of "w\<lparr>db := d\<rparr>"] that Insert.prems(2) by simp
  qed (simp_all split: sum.split)
next
  case (MarkRotated s st t s' k)
  show ?case
  proof (rule value_call [where call = "\<lambda>m. markRotated spec_store m s st t s'" and k = "k", OF MarkRotated.prems])
    show "run spec_store (k r) v = (out, without_faults w')"
      if "run failing_spec (k r) (w\<lparr>db := d\<rparr>) = (out, w')" "v = without_faults (w\<lparr>db := d\<rparr>)" for r d v
      using MarkRotated.IH [of "k r" "w\<lparr>db := d\<rparr>"] that MarkRotated.prems(2) by simp
  qed (simp_all split: sum.split)
next
  case (RevokeIfActive s k)
  show ?case
  proof (rule value_call [where call = "\<lambda>m. revokeIfActive spec_store m s" and k = "k", OF RevokeIfActive.prems])
    show "run spec_store (k r) v = (out, without_faults w')"
      if "run failing_spec (k r) (w\<lparr>db := d\<rparr>) = (out, w')" "v = without_faults (w\<lparr>db := d\<rparr>)" for r d v
      using RevokeIfActive.IH [of "k r" "w\<lparr>db := d\<rparr>"] that RevokeIfActive.prems(2) by simp
  qed (simp_all split: sum.split)
next
  case (RevokeFamily f k)
  show ?case
  proof (rule value_call [where call = "\<lambda>m. revokeFamily spec_store m f" and k = "k", OF RevokeFamily.prems])
    show "run spec_store (k r) v = (out, without_faults w')"
      if "run failing_spec (k r) (w\<lparr>db := d\<rparr>) = (out, w')" "v = without_faults (w\<lparr>db := d\<rparr>)" for r d v
      using RevokeFamily.IH [of "k r" "w\<lparr>db := d\<rparr>"] that RevokeFamily.prems(2) by simp
  qed (simp_all split: sum.split)
next
  case (RevokeUser u k)
  show ?case
  proof (rule value_call [where call = "\<lambda>m. revokeUser spec_store m u" and k = "k", OF RevokeUser.prems])
    show "run spec_store (k r) v = (out, without_faults w')"
      if "run failing_spec (k r) (w\<lparr>db := d\<rparr>) = (out, w')" "v = without_faults (w\<lparr>db := d\<rparr>)" for r d v
      using RevokeUser.IH [of "k r" "w\<lparr>db := d\<rparr>"] that RevokeUser.prems(2) by simp
  qed (simp_all split: sum.split)
qed auto

text \<open>A store that never fails is one that may fail.\<close>

sublocale token_store \<subseteq> maybe: failing_store S contents valid "\<lambda>_. True" "\<lambda>_. True"
proof
  fix d and r :: TokenRecord
  assume "valid d"
  then show "\<exists>out d'. insert_record S d r = (out, d') \<and> valid d' \<and>
      answers (\<lambda>m. insert_record spec_store m r) (contents d) out (contents d')"
    using insert_fresh [of d r] insert_duplicate [of d r]
    by (cases "contents d (selector r)") (auto simp: answers_def spec_store_def)
next
  fix d s st t s'
  assume "valid d"
  from mark_law [OF this, of s st t s'] show "\<exists>out d'. markRotated S d s st t s' = (out, d') \<and> valid d' \<and>
      answers (\<lambda>m. markRotated spec_store m s st t s') (contents d) out (contents d')"
    by (auto simp: answers_def spec_store_def)
next
  fix d s
  assume "valid d"
  from revoke_active_law [OF this, of s] show "\<exists>out d'. revokeIfActive S d s = (out, d') \<and> valid d' \<and>
      answers (\<lambda>m. revokeIfActive spec_store m s) (contents d) out (contents d')"
    by (auto simp: answers_def spec_store_def)
next
  fix d f
  assume "valid d"
  from revoke_family_law [OF this, of f] show "\<exists>out d'. revokeFamily S d f = (out, d') \<and> valid d' \<and>
      answers (\<lambda>m. revokeFamily spec_store m f) (contents d) out (contents d')"
    by (auto simp: answers_def spec_store_def)
next
  fix d u
  assume "valid d"
  from revoke_user_law [OF this, of u] show "\<exists>out d'. revokeUser S d u = (out, d') \<and> valid d' \<and>
      answers (\<lambda>m. revokeUser spec_store m u) (contents d) out (contents d')"
    by (auto simp: answers_def spec_store_def)
qed (auto simp: answers_def spec_store_def find_law)

text \<open>The abstract store with a schedule is one, whatever the schedule.\<close>

lemma with_fault_answers:
  "\<exists>out d'. with_fault call d = (out, d') \<and> answers call (snd d) out (snd d')"
  by (cases "(call, d)" rule: with_fault.cases) (auto simp: answers_def split: prod.splits)

interpretation scheduled: failing_store failing_spec snd "\<lambda>_. True" "\<lambda>_. True" "\<lambda>_. True"
  by unfold_locales (simp_all only: failing_spec_simps simp_thms with_fault_answers)

end
