(* ===== verification/Postgres_Store.thy ===== *)
theory Postgres_Store
  imports Memory_Store Failing_Store "HOL-Library.Log_Nat"
begin

text \<open>
  \<open>PostgresRefreshTokenStore\<close> of \<open>packages/typescript/examples/postgres-store.ts\<close>.

  The database is not part of the repository: it is the parameter \<open>query\<close>, and the locale \<open>sql_client\<close>
  states what the store relies on, the documented meaning of the four kinds of statement on a table
  with a primary key, and that the driver hands out integers as numbers or in decimal text. Every statement
  may fail, whatever the reason: a constraint of \<open>spec/schema/postgres.sql\<close>, an integer beyond its column, a
  serialisation failure, a lost connection. It is atomic: when it fails, it had no effect or its whole effect.
  The laws speak of parameters the wire can carry unchanged, well-formed text and integers that a
  double holds exactly. The statement texts are their syntax trees, one constructor argument per clause. Under
  these laws the store satisfies the contract \<open>failing_store\<close>. A small table engine with the constraints of the
  schema satisfies the laws.
\<close>

section \<open>Statements\<close>

datatype sql_column =
    Cselector | Cverifier_hash | Ckid | Cfamily_id | Cgeneration | Cuser_id | Cdevice_id_hash
  | Ccreated_at | Cfamily_expires_at | Cidle_expires_at | Cstatus | Crotated_at | Creplaced_by_selector

datatype sql_value = SText jsstring | SInt int | SNull

datatype sql_operand = Param nat | Lit sql_value \<comment> \<open>\<open>$n\<close>, or a literal\<close>

datatype sql_cond = CEq sql_column sql_operand | CNeq sql_column sql_operand | CLt sql_column sql_operand

datatype sql_statement =
    SelectFrom "sql_column list" "sql_cond list"
  | InsertInto "sql_column list" "sql_operand list"
  | UpdateSet "(sql_column \<times> sql_operand) list" "sql_cond list"
  | DeleteFrom "sql_cond list"

text \<open>
  What the driver returns: text columns as strings, integer columns as numbers or, for \<open>bigint\<close>, in
  decimal text.
\<close>

datatype int_cell = CellNumber int | CellText jsstring

record pg_row =
  row_selector :: jsstring
  row_verifier_hash :: jsstring
  row_kid :: jsstring
  row_family_id :: jsstring
  row_generation :: int_cell
  row_user_id :: jsstring
  row_device_id_hash :: "jsstring option"
  row_created_at :: int_cell
  row_family_expires_at :: int_cell
  row_idle_expires_at :: int_cell
  row_status :: jsstring
  row_rotated_at :: "int_cell option"
  row_replaced_by_selector :: "jsstring option"

record query_result =
  q_rows :: "pg_row list"
  q_rowCount :: "nat option"

type_synonym 'd sql_query = "'d \<Rightarrow> sql_statement \<Rightarrow> sql_value list \<Rightarrow> (store_error + query_result) \<times> 'd"

section \<open>The store\<close>

definition COLS :: "sql_column list" where
  "COLS = [Cselector, Cverifier_hash, Ckid, Cfamily_id, Cgeneration, Cuser_id, Cdevice_id_hash,
     Ccreated_at, Cfamily_expires_at, Cidle_expires_at, Cstatus, Crotated_at, Creplaced_by_selector]"

text \<open>
  \<open>Number(x)\<close> on a cell. Decimal text denotes the double nearest to its value, ties to even: the value
  itself up to \<open>2^53\<close>, infinity from \<open>2^1024\<close> on. Text that is not decimal would be \<open>NaN\<close>, which an integer
  column never yields.
\<close>

definition round_double :: "nat \<Rightarrow> nat" where
  "round_double n =
     (let unit = 2 ^ (floorlog 2 n - 53); q = n div unit; r = n mod unit
      in unit * (if 2 * r < unit \<or> (2 * r = unit \<and> even q) then q else q + 1))"

definition double_int :: "bool \<Rightarrow> nat \<Rightarrow> js_number" where
  "double_int neg n = (let d = round_double n in
     if 2 ^ 1024 \<le> d then JNonInteger else JInteger (if neg then - int d else int d))"

fun decimal_value :: "jsstring \<Rightarrow> nat \<Rightarrow> nat option" where
  "decimal_value [] n = Some n"
| "decimal_value (c # cs) n =
     (if 48 \<le> unat c \<and> unat c \<le> 57 then decimal_value cs (10 * n + (unat c - 48)) else None)"

definition js_Number :: "int_cell \<Rightarrow> js_number" where
  "js_Number c =
     (case c of
        CellNumber i \<Rightarrow> JInteger i
      | CellText t \<Rightarrow>
          (case t of
             [] \<Rightarrow> JInteger 0
           | m # ds \<Rightarrow>
               if unat m = 45 \<and> ds \<noteq> []
               then (case decimal_value ds 0 of None \<Rightarrow> JNonInteger | Some n \<Rightarrow> double_int True n)
               else (case decimal_value t 0 of None \<Rightarrow> JNonInteger | Some n \<Rightarrow> double_int False n)))"

fun cell_int :: "int_cell \<Rightarrow> int" where
  "cell_int c = (case js_Number c of JInteger i \<Rightarrow> i | JNonInteger \<Rightarrow> 0)"

text \<open>
  The status column is text. The cast \<open>r.status as TokenStatus\<close> checks nothing; the engine compares
  with \<open>'rotated'\<close> and \<open>'revoked'\<close> and goes on otherwise.
\<close>

fun status_text :: "TokenStatus \<Rightarrow> jsstring" where
  "status_text Active = js ''active''"
| "status_text Rotated = js ''rotated''"
| "status_text Revoked = js ''revoked''"

definition status_of :: "jsstring \<Rightarrow> TokenStatus" where
  "status_of s = (if s = js ''rotated'' then Rotated else if s = js ''revoked'' then Revoked else Active)"

definition rowToRecord :: "pg_row \<Rightarrow> TokenRecord" where
  "rowToRecord r = \<lparr>
     selector = row_selector r,
     verifierHash = row_verifier_hash r,
     kid = row_kid r,
     familyId = row_family_id r,
     generation = cell_int (row_generation r),
     userId = row_user_id r,
     deviceIdHash = row_device_id_hash r,
     createdAt = cell_int (row_created_at r),
     familyExpiresAt = cell_int (row_family_expires_at r),
     idleExpiresAt = cell_int (row_idle_expires_at r),
     status = status_of (row_status r),
     rotatedAt = map_option cell_int (row_rotated_at r),
     replacedBySelector = row_replaced_by_selector r \<rparr>"

fun opt_text :: "jsstring option \<Rightarrow> sql_value" where
  "opt_text None = SNull"
| "opt_text (Some s) = SText s"

fun opt_int :: "int option \<Rightarrow> sql_value" where
  "opt_int None = SNull"
| "opt_int (Some i) = SInt i"

definition record_values :: "TokenRecord \<Rightarrow> sql_value list" where
  "record_values r = [SText (selector r), SText (verifierHash r), SText (kid r), SText (familyId r),
     SInt (generation r), SText (userId r), opt_text (deviceIdHash r), SInt (createdAt r),
     SInt (familyExpiresAt r), SInt (idleExpiresAt r), SText (status_text (status r)),
     opt_int (rotatedAt r), opt_text (replacedBySelector r)]"

definition pg_findBySelector ::
  "'d sql_query \<Rightarrow> 'd \<Rightarrow> jsstring \<Rightarrow> (store_error + TokenRecord option) \<times> 'd" where
  "pg_findBySelector query d s =
     (case query d (SelectFrom COLS [CEq Cselector (Param 1)]) [SText s] of
        (Inl e, d') \<Rightarrow> (Inl e, d')
      | (Inr res, d') \<Rightarrow>
          (Inr (case q_rows res of [] \<Rightarrow> None | r # _ \<Rightarrow> Some (rowToRecord r)), d'))"

definition PARAMS :: "sql_operand list" where
  "PARAMS = [Param 1, Param 2, Param 3, Param 4, Param 5, Param 6, Param 7, Param 8, Param 9, Param 10,
     Param 11, Param 12, Param 13]"

definition pg_insert :: "'d sql_query \<Rightarrow> 'd \<Rightarrow> TokenRecord \<Rightarrow> (store_error + unit) \<times> 'd" where
  "pg_insert query d r =
     (case query d (InsertInto COLS PARAMS) (record_values r) of
        (Inl e, d') \<Rightarrow> (Inl e, d')
      | (Inr _, d') \<Rightarrow> (Inr (), d'))"

definition pg_markRotated ::
  "'d sql_query \<Rightarrow> 'd \<Rightarrow> jsstring \<Rightarrow> TokenStatus \<Rightarrow> int \<Rightarrow> jsstring \<Rightarrow> (store_error + bool) \<times> 'd" where
  "pg_markRotated query d s fromStatus t s' =
     (case query d
        (UpdateSet [(Cstatus, Lit (SText (js ''rotated''))), (Crotated_at, Param 2), (Creplaced_by_selector, Param 3)]
           [CEq Cselector (Param 1), CEq Cstatus (Param 4)])
        [SText s, SInt t, SText s', SText (status_text fromStatus)] of
        (Inl e, d') \<Rightarrow> (Inl e, d')
      | (Inr res, d') \<Rightarrow> (Inr (q_rowCount res = Some 1), d'))"

definition pg_revokeIfActive :: "'d sql_query \<Rightarrow> 'd \<Rightarrow> jsstring \<Rightarrow> (store_error + bool) \<times> 'd" where
  "pg_revokeIfActive query d s =
     (case query d
        (UpdateSet [(Cstatus, Lit (SText (js ''revoked'')))]
           [CEq Cselector (Param 1), CEq Cstatus (Lit (SText (js ''active'')))]) [SText s] of
        (Inl e, d') \<Rightarrow> (Inl e, d')
      | (Inr res, d') \<Rightarrow> (Inr (q_rowCount res = Some 1), d'))"

definition count_or_zero :: "query_result \<Rightarrow> nat" where
  "count_or_zero res = (case q_rowCount res of None \<Rightarrow> 0 | Some n \<Rightarrow> n)"

definition pg_revokeFamily :: "'d sql_query \<Rightarrow> 'd \<Rightarrow> jsstring \<Rightarrow> (store_error + nat) \<times> 'd" where
  "pg_revokeFamily query d f =
     (case query d
        (UpdateSet [(Cstatus, Lit (SText (js ''revoked'')))]
           [CEq Cfamily_id (Param 1), CNeq Cstatus (Lit (SText (js ''revoked'')))]) [SText f] of
        (Inl e, d') \<Rightarrow> (Inl e, d')
      | (Inr res, d') \<Rightarrow> (Inr (count_or_zero res), d'))"

definition pg_revokeUser :: "'d sql_query \<Rightarrow> 'd \<Rightarrow> jsstring \<Rightarrow> (store_error + nat) \<times> 'd" where
  "pg_revokeUser query d u =
     (case query d
        (UpdateSet [(Cstatus, Lit (SText (js ''revoked'')))]
           [CEq Cuser_id (Param 1), CNeq Cstatus (Lit (SText (js ''revoked'')))]) [SText u] of
        (Inl e, d') \<Rightarrow> (Inl e, d')
      | (Inr res, d') \<Rightarrow> (Inr (count_or_zero res), d'))"

definition pg_deleteExpired :: "'d sql_query \<Rightarrow> 'd \<Rightarrow> int \<Rightarrow> (store_error + nat) \<times> 'd" where
  "pg_deleteExpired query d t =
     (case query d (DeleteFrom [CLt Cfamily_expires_at (Param 1)]) [SInt t] of
        (Inl e, d') \<Rightarrow> (Inl e, d')
      | (Inr res, d') \<Rightarrow> (Inr (count_or_zero res), d'))"

definition postgres_store :: "'d sql_query \<Rightarrow> 'd RefreshTokenStore" where
  "postgres_store query = \<lparr>
     findBySelector = pg_findBySelector query,
     insert_record = pg_insert query,
     markRotated = pg_markRotated query,
     revokeIfActive = pg_revokeIfActive query,
     revokeFamily = pg_revokeFamily query,
     revokeUser = pg_revokeUser query \<rparr>"

section \<open>What a statement means\<close>

type_synonym sql_row = "sql_column \<Rightarrow> sql_value"
type_synonym sql_table = "jsstring \<rightharpoonup> sql_row" \<comment> \<open>by primary key\<close>

fun operand_value :: "sql_value list \<Rightarrow> sql_operand \<Rightarrow> sql_value" where
  "operand_value vals (Param n) = vals ! (n - 1)"
| "operand_value vals (Lit v) = v"

text \<open>A comparison with \<open>NULL\<close> is unknown, and an unknown condition selects nothing.\<close>

fun cond_holds :: "sql_value list \<Rightarrow> sql_row \<Rightarrow> sql_cond \<Rightarrow> bool" where
  "cond_holds vals r (CEq c x) = (r c \<noteq> SNull \<and> operand_value vals x \<noteq> SNull \<and> r c = operand_value vals x)"
| "cond_holds vals r (CNeq c x) = (r c \<noteq> SNull \<and> operand_value vals x \<noteq> SNull \<and> r c \<noteq> operand_value vals x)"
| "cond_holds vals r (CLt c x) =
     (case (r c, operand_value vals x) of (SInt a, SInt b) \<Rightarrow> a < b | _ \<Rightarrow> False)"

definition where_holds :: "sql_value list \<Rightarrow> sql_cond list \<Rightarrow> sql_row \<Rightarrow> bool" where
  "where_holds vals conds r = list_all (cond_holds vals r) conds"

definition assign :: "sql_value list \<Rightarrow> (sql_column \<times> sql_operand) list \<Rightarrow> sql_row \<Rightarrow> sql_row" where
  "assign vals sets r = fold (\<lambda>(c, x) r'. r'(c := operand_value vals x)) sets r"

definition inserted_row :: "sql_column list \<Rightarrow> sql_operand list \<Rightarrow> sql_value list \<Rightarrow> sql_row" where
  "inserted_row cols xs vals = assign vals (zip cols xs) (\<lambda>_. SNull)"

definition matching :: "(sql_row \<Rightarrow> bool) \<Rightarrow> sql_table \<Rightarrow> jsstring set" where
  "matching P t = {k. \<exists>r. t k = Some r \<and> P r}"

text \<open>A row as the driver presents it.\<close>

fun cell_represents :: "int_cell \<Rightarrow> sql_value \<Rightarrow> bool" where
  "cell_represents c (SInt i) = (js_Number c = JInteger i)"
| "cell_represents c _ = False"

definition represents :: "pg_row \<Rightarrow> sql_row \<Rightarrow> bool" where
  "represents p r \<longleftrightarrow> SText (row_selector p) = r Cselector \<and> SText (row_verifier_hash p) = r Cverifier_hash \<and>
     SText (row_kid p) = r Ckid \<and> SText (row_family_id p) = r Cfamily_id \<and>
     cell_represents (row_generation p) (r Cgeneration) \<and> SText (row_user_id p) = r Cuser_id \<and>
     opt_text (row_device_id_hash p) = r Cdevice_id_hash \<and> cell_represents (row_created_at p) (r Ccreated_at) \<and>
     cell_represents (row_family_expires_at p) (r Cfamily_expires_at) \<and>
     cell_represents (row_idle_expires_at p) (r Cidle_expires_at) \<and> SText (row_status p) = r Cstatus \<and>
     (case row_rotated_at p of None \<Rightarrow> r Crotated_at = SNull | Some c \<Rightarrow> cell_represents c (r Crotated_at)) \<and>
     opt_text (row_replaced_by_selector p) = r Creplaced_by_selector"

section \<open>Rows and records\<close>

fun text_of :: "sql_value \<Rightarrow> jsstring" where
  "text_of (SText s) = s"
| "text_of _ = []"

fun int_of :: "sql_value \<Rightarrow> int" where
  "int_of (SInt i) = i"
| "int_of _ = 0"

definition or_null :: "(sql_value \<Rightarrow> 'a) \<Rightarrow> sql_value \<Rightarrow> 'a option" where
  "or_null f v = (if v = SNull then None else Some (f v))"

definition record_of :: "sql_row \<Rightarrow> TokenRecord" where
  "record_of r = \<lparr>
     selector = text_of (r Cselector), verifierHash = text_of (r Cverifier_hash), kid = text_of (r Ckid),
     familyId = text_of (r Cfamily_id), generation = int_of (r Cgeneration), userId = text_of (r Cuser_id),
     deviceIdHash = or_null text_of (r Cdevice_id_hash), createdAt = int_of (r Ccreated_at),
     familyExpiresAt = int_of (r Cfamily_expires_at), idleExpiresAt = int_of (r Cidle_expires_at),
     status = status_of (text_of (r Cstatus)), rotatedAt = or_null int_of (r Crotated_at),
     replacedBySelector = or_null text_of (r Creplaced_by_selector) \<rparr>"

fun row_of :: "TokenRecord \<Rightarrow> sql_row" where
  "row_of q Cselector = SText (selector q)"
| "row_of q Cverifier_hash = SText (verifierHash q)"
| "row_of q Ckid = SText (kid q)"
| "row_of q Cfamily_id = SText (familyId q)"
| "row_of q Cgeneration = SInt (generation q)"
| "row_of q Cuser_id = SText (userId q)"
| "row_of q Cdevice_id_hash = opt_text (deviceIdHash q)"
| "row_of q Ccreated_at = SInt (createdAt q)"
| "row_of q Cfamily_expires_at = SInt (familyExpiresAt q)"
| "row_of q Cidle_expires_at = SInt (idleExpiresAt q)"
| "row_of q Cstatus = SText (status_text (status q))"
| "row_of q Crotated_at = opt_int (rotatedAt q)"
| "row_of q Creplaced_by_selector = opt_text (replacedBySelector q)"

text \<open>
  What a parameter or a field must be for the laws to speak of it: text that has a UTF-8 encoding, an integer
  that a double holds exactly (the driver sends a number as its decimal text).
\<close>

definition safe_int :: "int \<Rightarrow> bool" where
  "safe_int i \<longleftrightarrow> \<bar>i\<bar> < 2 ^ 53"

fun storable :: "sql_value \<Rightarrow> bool" where
  "storable (SText s) = isWellFormedUnicode s"
| "storable (SInt i) = safe_int i"
| "storable SNull = True"

abbreviation record_storable :: "TokenRecord \<Rightarrow> bool" where
  "record_storable \<equiv> record_fits isWellFormedUnicode safe_int"

lemma storable_opt [simp]:
  "storable (opt_text x) = pred_option isWellFormedUnicode x" "storable (opt_int y) = pred_option safe_int y"
  by (cases x; simp) (cases y; simp)

lemma storable_status: "isWellFormedUnicode (status_text st)"
  by (cases st) (simp_all add: isWellFormedUnicode_ascii js_def is_ascii_def)

lemma storable_record: "list_all storable (record_values r) \<longleftrightarrow> record_storable r"
  using storable_status by (auto simp: record_values_def record_fits_def)

text \<open>The column types: exactly the rows of records that fit.\<close>

definition schema_ok :: "sql_row \<Rightarrow> bool" where
  "schema_ok r \<longleftrightarrow> (\<exists>q. r = row_of q \<and> record_storable q)"

lemma status_text_eq [simp]:
  "status_text st = status_text st' \<longleftrightarrow> st = st'"
  "js ''rotated'' = status_text st \<longleftrightarrow> st = Rotated" "js ''revoked'' = status_text st \<longleftrightarrow> st = Revoked"
  "js ''active'' = status_text st \<longleftrightarrow> st = Active"
  "status_text st = js ''active'' \<longleftrightarrow> st = Active" "status_text st = js ''revoked'' \<longleftrightarrow> st = Revoked"
  by (cases st; cases st'; simp add: js_def)+

lemma status_of_text [simp]: "status_of (status_text st) = st"
  by (cases st) (auto simp: status_of_def js_def)

lemma or_null_simps [simp]:
  "or_null text_of (opt_text x) = x" "or_null int_of (opt_int y) = y"
  by (cases x; simp add: or_null_def) (cases y; simp add: or_null_def)

lemma record_of_row_of [simp]: "record_of (row_of q) = q"
  by (cases q) (simp add: record_of_def)

lemma opt_text_eq [simp]: "opt_text x = opt_text y \<longleftrightarrow> x = y"
  by (cases x; cases y) auto

lemma cell_represents_int [simp]: "cell_represents c (SInt i) \<Longrightarrow> cell_int c = i"
  by simp

lemma rowToRecord_represents: "represents p (row_of q) \<Longrightarrow> rowToRecord p = q"
proof -
  assume r: "represents p (row_of q)"
  have "map_option cell_int (row_rotated_at p) = rotatedAt q"
    using r by (cases "row_rotated_at p"; cases "rotatedAt q") (auto simp: represents_def)
  moreover have "status_of (row_status p) = status q" using r by (auto simp: represents_def)
  ultimately show ?thesis using r by (cases q) (auto simp: rowToRecord_def represents_def)
qed

lemma inserted_record: "inserted_row COLS PARAMS (record_values q) = row_of q"
proof
  fix c
  show "inserted_row COLS PARAMS (record_values q) c = row_of q c"
    by (cases c) (simp_all add: inserted_row_def assign_def COLS_def PARAMS_def record_values_def)
qed

lemma assign_rotated:
  "assign [SText s, SInt t, SText s', x] [(Cstatus, Lit (SText (js ''rotated''))), (Crotated_at, Param 2),
     (Creplaced_by_selector, Param 3)] (row_of q) = row_of (rotate_to t s' q)"
proof
  fix c
  show "assign [SText s, SInt t, SText s', x] [(Cstatus, Lit (SText (js ''rotated''))), (Crotated_at, Param 2),
     (Creplaced_by_selector, Param 3)] (row_of q) c = row_of (rotate_to t s' q) c"
    by (cases c) (simp_all add: assign_def rotate_to_def)
qed

lemma assign_revoked:
  "assign vals [(Cstatus, Lit (SText (js ''revoked'')))] (row_of q) = row_of (revoke q)"
proof
  fix c
  show "assign vals [(Cstatus, Lit (SText (js ''revoked'')))] (row_of q) c = row_of (revoke q) c"
    by (cases c) (simp_all add: assign_def revoke_def)
qed

section \<open>The laws of the client\<close>

locale sql_client =
  fixes query :: "'d sql_query"
    and table :: "'d \<Rightarrow> sql_table"
    and ok :: "'d \<Rightarrow> bool"
  assumes select_law: "ok d \<Longrightarrow> list_all storable vals \<Longrightarrow>
      \<exists>out d'. query d (SelectFrom COLS conds) vals = (out, d') \<and> ok d' \<and> table d' = table d \<and>
        (case out of Inl _ \<Rightarrow> True
         | Inr res \<Rightarrow> \<exists>ks. distinct ks \<and> set ks = matching (where_holds vals conds) (table d) \<and>
             list_all2 represents (q_rows res) (map (\<lambda>k. the (table d k)) ks))"
    and insert_law: "ok d \<Longrightarrow> list_all storable vals \<Longrightarrow> schema_ok (inserted_row cols xs vals) \<Longrightarrow>
      inserted_row cols xs vals Cselector = SText k \<Longrightarrow> table d k = None \<Longrightarrow>
      \<exists>out d'. query d (InsertInto cols xs) vals = (out, d') \<and> ok d' \<and>
        (table d' = (table d)(k \<mapsto> inserted_row cols xs vals) \<or> (isl out \<and> table d' = table d))"
    and unique_law: "ok d \<Longrightarrow> list_all storable vals \<Longrightarrow> inserted_row cols xs vals Cselector = SText k \<Longrightarrow>
      table d k \<noteq> None \<Longrightarrow>
      \<exists>e d'. query d (InsertInto cols xs) vals = (Inl e, d') \<and> ok d' \<and> table d' = table d"
    and update_law: "ok d \<Longrightarrow> list_all storable vals \<Longrightarrow> Cselector \<notin> fst ` set sets \<Longrightarrow>
      (\<And>r. schema_ok r \<Longrightarrow> schema_ok (assign vals sets r)) \<Longrightarrow>
      \<exists>out d'. query d (UpdateSet sets conds) vals = (out, d') \<and> ok d' \<and>
        (case out of Inl _ \<Rightarrow> True
         | Inr res \<Rightarrow> q_rowCount res = Some (card (matching (where_holds vals conds) (table d)))) \<and>
        (table d' = (\<lambda>k. map_option (\<lambda>r. if where_holds vals conds r then assign vals sets r else r) (table d k)) \<or>
         (isl out \<and> table d' = table d))"
    and delete_law: "ok d \<Longrightarrow> list_all storable vals \<Longrightarrow>
      \<exists>out d'. query d (DeleteFrom conds) vals = (out, d') \<and> ok d' \<and>
        (case out of Inl _ \<Rightarrow> True
         | Inr res \<Rightarrow> q_rowCount res = Some (card (matching (where_holds vals conds) (table d)))) \<and>
        (table d' = (\<lambda>k. case table d k of None \<Rightarrow> None | Some r \<Rightarrow> if where_holds vals conds r then None else Some r) \<or>
         (isl out \<and> table d' = table d))"
    and schema_law: "ok d \<Longrightarrow> table d k = Some r \<Longrightarrow> schema_ok r \<and> r Cselector = SText k"
begin

definition contents :: "'d \<Rightarrow> rows" where
  "contents d = (\<lambda>k. map_option record_of (table d k))"

lemma contents_Some: "ok d \<Longrightarrow> contents d k = Some q \<longleftrightarrow> table d k = Some (row_of q)"
  using schema_law by (fastforce simp: contents_def schema_ok_def)

lemma contents_selector: "ok d \<Longrightarrow> contents d k = Some q \<Longrightarrow> selector q = k"
  using schema_law [of d k "row_of q"] by (simp add: contents_Some)

lemma matching_contents:
  assumes "ok d" "\<And>q. where_holds vals conds (row_of q) \<longleftrightarrow> P q"
  shows "matching (where_holds vals conds) (table d) = {k. \<exists>q. contents d k = Some q \<and> P q}"
  using assms schema_law [OF assms(1)] by (fastforce simp: matching_def contents_Some schema_ok_def)

lemma update_contents:
  assumes "ok d" "list_all storable vals" "Cselector \<notin> fst ` set sets" "\<And>q. assign vals sets (row_of q) = row_of (f q)"
    "\<And>q. record_storable q \<Longrightarrow> record_storable (f q)" "\<And>q. where_holds vals conds (row_of q) \<longleftrightarrow> P q"
  shows "\<exists>out d'. query d (UpdateSet sets conds) vals = (out, d') \<and> ok d' \<and>
    (case out of Inl _ \<Rightarrow> True | Inr res \<Rightarrow> q_rowCount res = Some (card {k. \<exists>q. contents d k = Some q \<and> P q})) \<and>
    (contents d' = upd_rows P f (contents d) \<or> (isl out \<and> contents d' = contents d))"
proof -
  have "schema_ok (assign vals sets r)" if "schema_ok r" for r
    using that assms(4,5) by (auto simp: schema_ok_def)
  then obtain out d' where d': "query d (UpdateSet sets conds) vals = (out, d')" "ok d'"
    "case out of Inl _ \<Rightarrow> True | Inr res \<Rightarrow> q_rowCount res = Some (card (matching (where_holds vals conds) (table d)))"
    "table d' = (\<lambda>k. map_option (\<lambda>r. if where_holds vals conds r then assign vals sets r else r) (table d k)) \<or>
      (isl out \<and> table d' = table d)"
    using update_law [OF assms(1,2,3)] by blast
  have "contents d' = upd_rows P f (contents d)"
    if t: "table d' = (\<lambda>k. map_option (\<lambda>r. if where_holds vals conds r then assign vals sets r else r) (table d k))"
  proof
    show "contents d' k = upd_rows P f (contents d) k" for k
      using schema_law [OF assms(1), of k] assms(4,6)
      by (cases "table d k") (auto simp: contents_def upd_rows_def t schema_ok_def)
  qed
  moreover have "contents d' = contents d" if "table d' = table d" using that by (simp add: contents_def)
  ultimately show ?thesis using d' unfolding matching_contents [OF assms(1,6)] by blast
qed

lemma find_contents:
  assumes "ok d" "isWellFormedUnicode s"
  shows "\<exists>out d'. pg_findBySelector query d s = (out, d') \<and> ok d' \<and> contents d' = contents d \<and>
    (case out of Inl _ \<Rightarrow> True | Inr r \<Rightarrow> r = contents d s)"
proof -
  let ?P = "where_holds [SText s] [CEq Cselector (Param 1)]"
  obtain out d' where q: "query d (SelectFrom COLS [CEq Cselector (Param 1)]) [SText s] = (out, d')" "ok d'" "table d' = table d"
    and out: "case out of Inl _ \<Rightarrow> True | Inr res \<Rightarrow> \<exists>ks. distinct ks \<and> set ks = matching ?P (table d) \<and>
      list_all2 represents (q_rows res) (map (\<lambda>k. the (table d k)) ks)"
    using select_law [OF assms(1), of "[SText s]" "[CEq Cselector (Param 1)]"] assms(2) by auto
  have same: "contents d' = contents d" using q(3) by (simp add: contents_def)
  show ?thesis
  proof (cases out)
    case (Inl e)
    then show ?thesis using q same by (simp add: pg_findBySelector_def)
  next
    case (Inr res)
    then obtain ks where ks: "distinct ks" "set ks = matching ?P (table d)"
      "list_all2 represents (q_rows res) (map (\<lambda>k. the (table d k)) ks)" using out by auto
    have m: "matching ?P (table d) = {k. k = s \<and> table d k \<noteq> None}"
      using schema_law [OF assms(1)] by (fastforce simp: matching_def where_holds_def)
    show ?thesis
    proof (cases "contents d s")
      case None
      then have "set ks = {}" using ks(2) m by (auto simp: contents_def)
      then have "ks = []" by simp
      then show ?thesis using q Inr ks(3) None same by (simp add: pg_findBySelector_def)
    next
      case (Some r)
      then have row: "table d s = Some (row_of r)" using contents_Some [OF assms(1)] by simp
      then have "set ks = {s}" using ks(2) m by auto
      moreover have "length ks = 1" using distinct_card [OF ks(1)] calculation by simp
      ultimately have "ks = [s]" by (cases ks) auto
      then obtain p where "q_rows res = [p]" "represents p (row_of r)"
        using ks(3) row by (auto simp: list_all2_Cons2)
      then show ?thesis using q Inr Some same rowToRecord_represents by (simp add: pg_findBySelector_def)
    qed
  qed
qed

lemma status_write:
  assumes "ok d" "list_all storable vals" "Cselector \<notin> fst ` set sets" "\<And>q. assign vals sets (row_of q) = row_of (f q)"
    "\<And>q. record_storable q \<Longrightarrow> record_storable (f q)" "\<And>q. where_holds vals conds (row_of q) \<longleftrightarrow> selector q = s \<and> status q = st"
  shows "\<exists>out d'. query d (UpdateSet sets conds) vals = (out, d') \<and> ok d' \<and>
    (case out of Inl _ \<Rightarrow> True | Inr res \<Rightarrow> q_rowCount res = Some 1 \<longleftrightarrow> has_status (contents d) s st) \<and>
    (contents d' = (if has_status (contents d) s st then (contents d)(s := map_option f (contents d s)) else contents d) \<or>
     (isl out \<and> contents d' = contents d))"
proof -
  note sel = contents_selector [OF assms(1)]
  have rows: "{k. \<exists>q. contents d k = Some q \<and> selector q = s \<and> status q = st} =
      (if has_status (contents d) s st then {s} else {})"
    using sel by (auto simp: has_status_def)
  have cnt: "card {k. \<exists>q. contents d k = Some q \<and> selector q = s \<and> status q = st} = 1 \<longleftrightarrow> has_status (contents d) s st"
    unfolding rows by simp
  have eq: "upd_rows (\<lambda>q. selector q = s \<and> status q = st) f (contents d) =
      (if has_status (contents d) s st then (contents d)(s := map_option f (contents d s)) else contents d)"
  proof
    fix k
    show "upd_rows (\<lambda>q. selector q = s \<and> status q = st) f (contents d) k =
      (if has_status (contents d) s st then (contents d)(s := map_option f (contents d s)) else contents d) k"
      using sel [of k] by (cases "contents d k") (auto simp: upd_rows_def has_status_def)
  qed
  have out: "(case out of Inl _ \<Rightarrow> True | Inr res \<Rightarrow> q_rowCount res = Some 1 \<longleftrightarrow> has_status (contents d) s st)"
    if "case out of Inl _ \<Rightarrow> True | Inr res \<Rightarrow>
      q_rowCount res = Some (card {k. \<exists>q. contents d k = Some q \<and> selector q = s \<and> status q = st})"
    for out :: "store_error + query_result"
    using that cnt by (cases out) auto
  from update_contents [OF assms] show ?thesis unfolding eq using out by blast
qed

lemma revoke_fits: "record_storable q \<Longrightarrow> record_storable (revoke q)"
  by (simp add: record_fits_def revoke_def)

lemma revoke_write:
  assumes "ok d" "list_all storable vals" "\<And>q. where_holds vals conds (row_of q) \<longleftrightarrow> P q \<and> status q \<noteq> Revoked"
  shows "\<exists>out d'. query d (UpdateSet [(Cstatus, Lit (SText (js ''revoked'')))] conds) vals = (out, d') \<and> ok d' \<and>
    (case out of Inl _ \<Rightarrow> True | Inr res \<Rightarrow> count_or_zero res = card (revocable P (contents d))) \<and>
    (contents d' = revoke_where P (contents d) \<or> (isl out \<and> contents d' = contents d))"
proof -
  have "upd_rows (\<lambda>q. P q \<and> status q \<noteq> Revoked) revoke (contents d) = revoke_where P (contents d)"
    by (auto simp: revoke_where_def upd_rows_def revoke_def fun_eq_iff intro!: option.map_cong0)
  moreover have "count_or_zero res = card (revocable P (contents d))"
    if "q_rowCount res = Some (card {k. \<exists>q. contents d k = Some q \<and> P q \<and> status q \<noteq> Revoked})" for res
    using that by (simp add: count_or_zero_def revocable_def)
  ultimately show ?thesis
    using update_contents [OF assms(1,2) _ assign_revoked revoke_fits assms(3)] by (fastforce split: sum.splits)
qed

lemma delete_contents:
  assumes "ok d" "list_all storable vals" "\<And>q. where_holds vals conds (row_of q) \<longleftrightarrow> P q"
  shows "\<exists>out d'. query d (DeleteFrom conds) vals = (out, d') \<and> ok d' \<and>
    (case out of Inl _ \<Rightarrow> True | Inr res \<Rightarrow> count_or_zero res = card {k. \<exists>q. contents d k = Some q \<and> P q}) \<and>
    (contents d' = (\<lambda>k. case contents d k of None \<Rightarrow> None | Some q \<Rightarrow> if P q then None else Some q) \<or>
     (isl out \<and> contents d' = contents d))"
proof -
  let ?keep = "\<lambda>t k. case t k of None \<Rightarrow> None | Some r \<Rightarrow> if where_holds vals conds r then None else Some r"
  obtain out d' where d': "query d (DeleteFrom conds) vals = (out, d')" "ok d'"
    "case out of Inl _ \<Rightarrow> True | Inr res \<Rightarrow> q_rowCount res = Some (card (matching (where_holds vals conds) (table d)))"
    "table d' = ?keep (table d) \<or> (isl out \<and> table d' = table d)"
    using delete_law [OF assms(1,2)] by blast
  have "contents d' = (\<lambda>k. case contents d k of None \<Rightarrow> None | Some q \<Rightarrow> if P q then None else Some q)"
    if t: "table d' = ?keep (table d)"
  proof
    fix k
    show "contents d' k = (case contents d k of None \<Rightarrow> None | Some q \<Rightarrow> if P q then None else Some q)"
    proof (cases "table d k")
      case (Some r)
      then obtain q where "r = row_of q" using schema_law [OF assms(1)] by (auto simp: schema_ok_def)
      then show ?thesis using Some by (simp add: contents_def t assms(3))
    qed (simp add: contents_def t)
  qed
  moreover have "contents d' = contents d" if "table d' = table d" using that by (simp add: contents_def)
  moreover have "case out of Inl _ \<Rightarrow> True | Inr res \<Rightarrow> count_or_zero res = card {k. \<exists>q. contents d k = Some q \<and> P q}"
    using d'(3) unfolding matching_contents [OF assms(1,3)] by (cases out) (simp_all add: count_or_zero_def)
  ultimately show ?thesis using d'(1,2,4) by blast
qed

end

lemma where_conditions:
  "where_holds [SText s, SInt t, SText s', SText (status_text st)] [CEq Cselector (Param 1), CEq Cstatus (Param 4)] (row_of q) \<longleftrightarrow>
     selector q = s \<and> status q = st"
  "where_holds [SText s] [CEq Cselector (Param 1), CEq Cstatus (Lit (SText (js ''active'')))] (row_of q) \<longleftrightarrow>
     selector q = s \<and> status q = Active"
  "where_holds [SText f] [CEq Cfamily_id (Param 1), CNeq Cstatus (Lit (SText (js ''revoked'')))] (row_of q) \<longleftrightarrow>
     familyId q = f \<and> status q \<noteq> Revoked"
  "where_holds [SText u] [CEq Cuser_id (Param 1), CNeq Cstatus (Lit (SText (js ''revoked'')))] (row_of q) \<longleftrightarrow>
     userId q = u \<and> status q \<noteq> Revoked"
  "where_holds [SInt t] [CLt Cfamily_expires_at (Param 1)] (row_of q) \<longleftrightarrow> familyExpiresAt q < t"
  by (auto simp: where_holds_def)

text \<open>Under the laws of the client the store satisfies the contract of a store that can fail.\<close>

lemma rotate_fits: "safe_int t \<Longrightarrow> isWellFormedUnicode s' \<Longrightarrow> record_storable q \<Longrightarrow> record_storable (rotate_to t s' q)"
  by (simp add: record_fits_def rotate_to_def)

sublocale sql_client \<subseteq> pg: failing_store "postgres_store query" contents ok isWellFormedUnicode safe_int
proof
  fix d s
  assume "ok d" "isWellFormedUnicode s"
  then obtain out d' where "pg_findBySelector query d s = (out, d')" "ok d'" "contents d' = contents d"
      "case out of Inl _ \<Rightarrow> True | Inr r \<Rightarrow> r = contents d s"
    using find_contents by blast
  then show "\<exists>out d'. findBySelector (postgres_store query) d s = (out, d') \<and> ok d' \<and>
      answers (\<lambda>m. findBySelector spec_store m s) (contents d) out (contents d')"
    by (cases out) (simp_all add: postgres_store_def spec_store_def answers_def)
next
  fix d and r :: TokenRecord
  assume d: "ok d" "record_storable r"
  have vals: "list_all storable (record_values r)" using d(2) by (simp add: storable_record)
  show "\<exists>out d'. insert_record (postgres_store query) d r = (out, d') \<and> ok d' \<and>
      answers (\<lambda>m. insert_record spec_store m r) (contents d) out (contents d')"
  proof (cases "table d (selector r)")
    case None
    then obtain out d' where d': "query d (InsertInto COLS PARAMS) (record_values r) = (out, d')" "ok d'"
        "table d' = (table d)(selector r \<mapsto> row_of r) \<or> (isl out \<and> table d' = table d)"
      using insert_law [OF d(1) vals, of COLS PARAMS "selector r"] d(2) by (auto simp: inserted_record schema_ok_def)
    then have "contents d' = (contents d)(selector r \<mapsto> r) \<or> (isl out \<and> contents d' = contents d)"
      by (auto simp: contents_def fun_eq_iff)
    moreover have "contents d (selector r) = None" using None by (simp add: contents_def)
    ultimately show ?thesis using d'(1,2)
      by (cases out) (auto simp: postgres_store_def pg_insert_def spec_store_def answers_def)
  next
    case (Some q)
    then obtain e d' where d': "query d (InsertInto COLS PARAMS) (record_values r) = (Inl e, d')" "ok d'" "table d' = table d"
      using unique_law [OF d(1) vals, of COLS PARAMS "selector r"] by (auto simp: inserted_record)
    then show ?thesis by (auto simp: postgres_store_def pg_insert_def answers_def contents_def)
  qed
next
  fix d s st t s'
  assume d: "ok d" "isWellFormedUnicode s" "safe_int t" "isWellFormedUnicode s'"
  obtain out d' where "query d (UpdateSet [(Cstatus, Lit (SText (js ''rotated''))), (Crotated_at, Param 2), (Creplaced_by_selector, Param 3)]
        [CEq Cselector (Param 1), CEq Cstatus (Param 4)]) [SText s, SInt t, SText s', SText (status_text st)] = (out, d')" "ok d'"
      "case out of Inl _ \<Rightarrow> True | Inr res \<Rightarrow> q_rowCount res = Some 1 \<longleftrightarrow> has_status (contents d) s st"
      "contents d' = mark_rows s st t s' (contents d) \<or> (isl out \<and> contents d' = contents d)"
    using status_write [OF d(1) _ _ assign_rotated rotate_fits [OF d(3,4)] where_conditions(1), of s st] d storable_status by (auto simp: mark_rows_def)
  then show "\<exists>out d'. markRotated (postgres_store query) d s st t s' = (out, d') \<and> ok d' \<and>
      answers (\<lambda>m. markRotated spec_store m s st t s') (contents d) out (contents d')"
    by (cases out) (auto simp: postgres_store_def pg_markRotated_def spec_store_def answers_def)
next
  fix d s
  assume d: "ok d" "isWellFormedUnicode s"
  obtain out d' where "query d (UpdateSet [(Cstatus, Lit (SText (js ''revoked'')))] 
        [CEq Cselector (Param 1), CEq Cstatus (Lit (SText (js ''active'')))]) [SText s] = (out, d')" "ok d'"
      "case out of Inl _ \<Rightarrow> True | Inr res \<Rightarrow> q_rowCount res = Some 1 \<longleftrightarrow> has_status (contents d) s Active"
      "contents d' = revoke_active s (contents d) \<or> (isl out \<and> contents d' = contents d)"
    using status_write [OF d(1) _ _ assign_revoked revoke_fits where_conditions(2), of s] d by (auto simp: revoke_active_def)
  then show "\<exists>out d'. revokeIfActive (postgres_store query) d s = (out, d') \<and> ok d' \<and>
      answers (\<lambda>m. revokeIfActive spec_store m s) (contents d) out (contents d')"
    by (cases out) (auto simp: postgres_store_def pg_revokeIfActive_def spec_store_def answers_def)
next
  fix d f
  assume d: "ok d" "isWellFormedUnicode f"
  obtain out d' where "query d (UpdateSet [(Cstatus, Lit (SText (js ''revoked'')))] 
        [CEq Cfamily_id (Param 1), CNeq Cstatus (Lit (SText (js ''revoked'')))]) [SText f] = (out, d')" "ok d'"
      "case out of Inl _ \<Rightarrow> True | Inr res \<Rightarrow> count_or_zero res = card (revocable (\<lambda>r. familyId r = f) (contents d))"
      "contents d' = revoke_where (\<lambda>r. familyId r = f) (contents d) \<or> (isl out \<and> contents d' = contents d)"
    using revoke_write [OF d(1) _ where_conditions(3), of f] d by auto
  then show "\<exists>out d'. revokeFamily (postgres_store query) d f = (out, d') \<and> ok d' \<and>
      answers (\<lambda>m. revokeFamily spec_store m f) (contents d) out (contents d')"
    by (cases out) (auto simp: postgres_store_def pg_revokeFamily_def spec_store_def answers_def)
next
  fix d u
  assume d: "ok d" "isWellFormedUnicode u"
  obtain out d' where "query d (UpdateSet [(Cstatus, Lit (SText (js ''revoked'')))] 
        [CEq Cuser_id (Param 1), CNeq Cstatus (Lit (SText (js ''revoked'')))]) [SText u] = (out, d')" "ok d'"
      "case out of Inl _ \<Rightarrow> True | Inr res \<Rightarrow> count_or_zero res = card (revocable (\<lambda>r. userId r = u) (contents d))"
      "contents d' = revoke_where (\<lambda>r. userId r = u) (contents d) \<or> (isl out \<and> contents d' = contents d)"
    using revoke_write [OF d(1) _ where_conditions(4), of u] d by auto
  then show "\<exists>out d'. revokeUser (postgres_store query) d u = (out, d') \<and> ok d' \<and>
      answers (\<lambda>m. revokeUser spec_store m u) (contents d) out (contents d')"
    by (cases out) (auto simp: postgres_store_def pg_revokeUser_def spec_store_def answers_def)
qed

context sql_client
begin

lemma is_failing_store: "failing_store (postgres_store query) contents ok isWellFormedUnicode safe_int"
  by unfold_locales

lemma deleteExpired_contents:
  assumes "ok d" "safe_int t"
  shows "\<exists>out d'. pg_deleteExpired query d t = (out, d') \<and> ok d' \<and>
    (case out of Inl _ \<Rightarrow> True | Inr n \<Rightarrow> n = card {k. \<exists>q. contents d k = Some q \<and> familyExpiresAt q < t}) \<and>
    (contents d' = (\<lambda>k. case contents d k of None \<Rightarrow> None | Some q \<Rightarrow> if familyExpiresAt q < t then None else Some q) \<or>
     (isl out \<and> contents d' = contents d))"
  using delete_contents [OF assms(1) _ where_conditions(5), of t] assms(2)
  by (fastforce simp: pg_deleteExpired_def split: sum.splits)

end

end
