(* ===== verification/Postgres_Table.thy ===== *)
theory Postgres_Table
  imports Postgres_Store Engine_Theorems
begin

text \<open>
  A table engine with the constraints of \<open>spec/schema/postgres.sql\<close> that satisfies the laws of \<open>sql_client\<close>, with
  a driver that returns \<open>bigint\<close> columns in decimal text, and the results about the Postgres store: what a
  program sees on it, and what its garbage collection deletes.
\<close>

section \<open>Decimal text\<close>

fun digits :: "nat \<Rightarrow> jsstring" where
  "digits n = (if n < 10 then [of_nat (48 + n)] else digits (n div 10) @ [of_nat (48 + n mod 10)])"

declare digits.simps [simp del]

definition decimal :: "int \<Rightarrow> jsstring" where
  "decimal i = (if i < 0 then 45 # digits (nat (- i)) else digits (nat i))"

lemma unat_digit: "k < 10 \<Longrightarrow> unat (of_nat (48 + k) :: cu) = 48 + k"
  by (subst unat_of_nat) simp

lemma decimal_value_append:
  "decimal_value (xs @ ys) n = Option.bind (decimal_value xs n) (decimal_value ys)"
  by (induction xs n rule: decimal_value.induct) auto

lemma decimal_value_digits: "decimal_value (digits n) 0 = Some n"
proof (induction n rule: digits.induct)
  case (1 n)
  then show ?case
    by (subst digits.simps)
       (auto simp: decimal_value_append unat_digit simp del: of_nat_add)
qed

lemma digits_head: "\<exists>c cs. digits n = c # cs \<and> 48 \<le> unat c"
proof (induction n rule: digits.induct)
  case (1 n)
  then show ?case
    by (subst digits.simps) (auto simp: unat_digit simp del: of_nat_add)
qed

lemma round_double_safe: "n < 2 ^ 53 \<Longrightarrow> round_double n = n"
proof -
  assume "n < 2 ^ 53"
  then have "floorlog 2 n \<le> 53" by (simp add: floorlog_le_iff)
  then show ?thesis by (simp add: round_double_def)
qed

lemma double_int_safe: "n < 2 ^ 53 \<Longrightarrow> double_int neg n = JInteger (if neg then - int n else int n)"
proof -
  assume n: "n < 2 ^ 53"
  have "(2::nat) ^ 53 \<le> 2 ^ 1024" by (rule power_increasing) simp_all
  then have "\<not> 2 ^ 1024 \<le> n" using n by linarith
  then show ?thesis using round_double_safe [OF n] by (simp add: double_int_def Let_def)
qed

lemma js_Number_decimal:
  assumes "safe_int i"
  shows "js_Number (CellText (decimal i)) = JInteger i"
proof (cases "i < 0")
  case True
  obtain c cs where "digits (nat (- i)) = c # cs" using digits_head by blast
  moreover have "nat (- i) < 2 ^ 53" using assms True by (simp add: safe_int_def nat_less_iff)
  ultimately show ?thesis using True decimal_value_digits [of "nat (- i)"]
    by (auto simp: js_Number_def decimal_def double_int_safe)
next
  case False
  obtain c cs where "digits (nat i) = c # cs" "48 \<le> unat c" using digits_head by blast
  moreover have "nat i < 2 ^ 53" using assms False by (simp add: safe_int_def nat_less_iff)
  ultimately show ?thesis using False decimal_value_digits [of "nat i"]
    by (auto simp: js_Number_def decimal_def double_int_safe)
qed

text \<open>Beyond \<open>2^53\<close> the text is rounded: an odd value becomes its even neighbour.\<close>

lemma js_Number_rounds: "js_Number (CellText (js ''9007199254740993'')) = JInteger 9007199254740992"
proof -
  have "decimal_value (js ''9007199254740993'') 0 = Some 9007199254740993" by (simp add: js_def)
  moreover have "floorlog 2 9007199254740993 = (54::nat)" by (simp add: compute_floorlog)
  then have "double_int False 9007199254740993 = JInteger 9007199254740992"
    by (simp add: double_int_def round_double_def)
  ultimately show ?thesis by (simp add: js_Number_def) (simp add: js_def)
qed

lemma js_Number_number: "js_Number (CellNumber i) = JInteger i"
  by (simp add: js_Number_def)

section \<open>A table engine\<close>

type_synonym table_db = "(jsstring \<times> sql_row) list"

definition driver_row :: "sql_row \<Rightarrow> pg_row" where
  "driver_row r = \<lparr>
     row_selector = text_of (r Cselector), row_verifier_hash = text_of (r Cverifier_hash),
     row_kid = text_of (r Ckid), row_family_id = text_of (r Cfamily_id),
     row_generation = CellNumber (int_of (r Cgeneration)), row_user_id = text_of (r Cuser_id),
     row_device_id_hash = or_null text_of (r Cdevice_id_hash),
     row_created_at = CellText (decimal (int_of (r Ccreated_at))),
     row_family_expires_at = CellText (decimal (int_of (r Cfamily_expires_at))),
     row_idle_expires_at = CellText (decimal (int_of (r Cidle_expires_at))),
     row_status = text_of (r Cstatus),
     row_rotated_at = map_option (\<lambda>i. CellText (decimal i)) (or_null int_of (r Crotated_at)),
     row_replaced_by_selector = or_null text_of (r Creplaced_by_selector) \<rparr>"

text \<open>The constraints of the schema, on the record of a row; \<open>generation\<close> is an \<open>integer\<close> column.\<close>

definition check_constraints :: "TokenRecord \<Rightarrow> bool" where
  "check_constraints q \<longleftrightarrow> valid_selector (selector q) \<and> pred_option valid_selector (replacedBySelector q) \<and>
     is_digest (verifierHash q) \<and> pred_option is_digest (deviceIdHash q) \<and>
     length (familyId q) = 32 \<and> list_all is_lower_hex (familyId q) \<and> valid_kid (kid q) \<and>
     0 \<le> generation q \<and> generation q < 2 ^ 31 \<and> idleExpiresAt q \<le> familyExpiresAt q \<and>
     (status q = Active \<longrightarrow> rotatedAt q = None \<and> replacedBySelector q = None) \<and>
     (status q = Rotated \<longrightarrow> rotatedAt q \<noteq> None \<and> replacedBySelector q \<noteq> None)"

text \<open>A parameter with a zero character is refused by the server.\<close>

fun has_nul :: "sql_value \<Rightarrow> bool" where
  "has_nul (SText s) = (0 \<in> set s)"
| "has_nul _ = False"

fun table_query :: "table_db sql_query" where
  "table_query d (SelectFrom cols conds) vals =
     (if list_ex has_nul vals then (Inl StoreUnavailable, d)
      else let rs = map snd (filter (\<lambda>(k, r). where_holds vals conds r) d) in
      (Inr \<lparr>q_rows = map driver_row rs, q_rowCount = Some (length rs)\<rparr>, d))"
| "table_query d (InsertInto cols xs) vals =
     (let r = inserted_row cols xs vals in
      case r Cselector of
        SText k \<Rightarrow> if list_ex has_nul vals \<or> map_of d k \<noteq> None \<or> \<not> check_constraints (record_of r)
                   then (Inl StoreUnavailable, d)
                   else (Inr \<lparr>q_rows = [], q_rowCount = Some 1\<rparr>, d @ [(k, r)])
      | _ \<Rightarrow> (Inl StoreUnavailable, d))"
| "table_query d (UpdateSet sets conds) vals =
     (if list_ex has_nul vals \<or>
         list_ex (\<lambda>(k, r). where_holds vals conds r \<and> \<not> check_constraints (record_of (assign vals sets r))) d
      then (Inl StoreUnavailable, d)
      else (Inr \<lparr>q_rows = [], q_rowCount = Some (length (filter (\<lambda>(k, r). where_holds vals conds r) d))\<rparr>,
        upd_where (\<lambda>k. where_holds vals conds) (assign vals sets) d))"
| "table_query d (DeleteFrom conds) vals =
     (if list_ex has_nul vals then (Inl StoreUnavailable, d)
      else (Inr \<lparr>q_rows = [], q_rowCount = Some (length (filter (\<lambda>(k, r). where_holds vals conds r) d))\<rparr>,
        filter (\<lambda>(k, r). \<not> where_holds vals conds r) d))"

definition table_ok :: "table_db \<Rightarrow> bool" where
  "table_ok d \<longleftrightarrow> distinct (map fst d) \<and>
     (\<forall>(k, r) \<in> set d. schema_ok r \<and> r Cselector = SText k \<and> check_constraints (record_of r))"

lemma driver_row_represents: "record_storable q \<Longrightarrow> represents (driver_row (row_of q)) (row_of q)"
  by (cases "rotatedAt q"; cases "deviceIdHash q"; cases "replacedBySelector q")
     (simp_all add: represents_def driver_row_def js_Number_decimal js_Number_number or_null_def record_fits_def)

lemma matching_map_of:
  "distinct (map fst d) \<Longrightarrow> length (filter (\<lambda>(k, r). P r) d) = card (matching P (map_of d))"
  by (simp add: length_filter_map_of matching_def)

lemma assign_other: "c \<notin> fst ` set sets \<Longrightarrow> assign vals sets r c = r c"
  by (induction sets arbitrary: r) (auto simp: assign_def)

lemma table_updated:
  assumes d: "table_ok d" and c: "Cselector \<notin> fst ` set sets"
    and keep: "\<And>r. schema_ok r \<Longrightarrow> schema_ok (assign vals sets r)"
    and checks: "\<not> list_ex (\<lambda>(k, r). P r \<and> \<not> check_constraints (record_of (assign vals sets r))) d"
  shows "table_ok (upd_where (\<lambda>k. P) (assign vals sets) d)"
proof -
  have "distinct (map fst (upd_where (\<lambda>k. P) (assign vals sets) d))"
    using d by (simp add: table_ok_def upd_where_def comp_def case_prod_beta)
  moreover have "schema_ok (if P r then assign vals sets r else r) \<and> (if P r then assign vals sets r else r) Cselector = SText k \<and>
      check_constraints (record_of (if P r then assign vals sets r else r))" if "(k, r) \<in> set d" for k r
    using d that keep checks assign_other [OF c, of vals r] by (auto simp: table_ok_def list_ex_iff)
  ultimately show ?thesis by (auto simp: table_ok_def upd_where_def)
qed

lemma table_kept: "table_ok d \<Longrightarrow> table_ok (filter P d)"
  by (auto simp: table_ok_def distinct_map_filter)

interpretation table_client: sql_client table_query map_of table_ok
proof
  fix d :: table_db and conds vals
  assume ok: "table_ok d" and vals: "list_all storable vals"
  let ?f = "filter (\<lambda>(k, r). where_holds vals conds r) d"
  have d: "distinct (map fst d)" and sub: "set ?f \<subseteq> set d" using ok by (auto simp: table_ok_def)
  have rows: "map snd ?f = map (\<lambda>k. the (map_of d k)) (map fst ?f)"
    using d sub by (auto simp: map_of_eq_Some_iff)
  have keys: "set (map fst ?f) = matching (where_holds vals conds) (map_of d)" "distinct (map fst ?f)"
    using d by (force simp: matching_def map_of_eq_Some_iff, rule distinct_map_filter)
  have "represents (driver_row r) r" if "(k, r) \<in> set d" for k r
    using ok that driver_row_represents by (force simp: table_ok_def schema_ok_def)
  then have rep: "list_all2 represents (map driver_row (map snd ?f)) (map snd ?f)"
    by (auto simp: list.rel_map intro!: list.rel_refl_strong)
  show "\<exists>out d'. table_query d (SelectFrom COLS conds) vals = (out, d') \<and> table_ok d' \<and> map_of d' = map_of d \<and>
      (case out of Inl _ \<Rightarrow> True
       | Inr res \<Rightarrow> \<exists>ks. distinct ks \<and> set ks = matching (where_holds vals conds) (map_of d) \<and>
          list_all2 represents (q_rows res) (map (\<lambda>k. the (map_of d k)) ks))"
  proof (cases "list_ex has_nul vals")
    case False
    have "\<exists>ks. distinct ks \<and> set ks = matching (where_holds vals conds) (map_of d) \<and>
        list_all2 represents (map driver_row (map snd ?f)) (map (\<lambda>k. the (map_of d k)) ks)"
      using keys rep unfolding rows by blast
    then show ?thesis using ok False by (simp add: Let_def del: map_map)
  qed (use ok in simp)
next
  fix d :: table_db and cols xs vals k
  assume a: "table_ok d" "schema_ok (inserted_row cols xs vals)" "inserted_row cols xs vals Cselector = SText k"
    "map_of d k = None"
  show "\<exists>out d'. table_query d (InsertInto cols xs) vals = (out, d') \<and> table_ok d' \<and>
      (map_of d' = (map_of d)(k \<mapsto> inserted_row cols xs vals) \<or> (isl out \<and> map_of d' = map_of d))"
  proof (cases "list_ex has_nul vals \<or> \<not> check_constraints (record_of (inserted_row cols xs vals))")
    case False
    then have "table_ok (d @ [(k, inserted_row cols xs vals)])"
      using a by (auto simp: table_ok_def map_of_eq_None_iff)
    then show ?thesis using a False by (simp add: Let_def map_of_snoc del: map_of_append)
  qed (use a in \<open>auto simp: Let_def\<close>)
next
  fix d :: table_db and cols xs vals k
  assume "table_ok d" "inserted_row cols xs vals Cselector = SText k" "map_of d k \<noteq> None"
  then show "\<exists>e d'. table_query d (InsertInto cols xs) vals = (Inl e, d') \<and> table_ok d' \<and> map_of d' = map_of d" by auto
next
  fix d :: table_db and sets vals conds
  assume a: "table_ok d" "Cselector \<notin> fst ` set sets" "\<And>r. schema_ok r \<Longrightarrow> schema_ok (assign vals sets r)"
  show "\<exists>out d'. table_query d (UpdateSet sets conds) vals = (out, d') \<and> table_ok d' \<and>
      (case out of Inl _ \<Rightarrow> True
       | Inr res \<Rightarrow> q_rowCount res = Some (card (matching (where_holds vals conds) (map_of d)))) \<and>
      (map_of d' = (\<lambda>k. map_option (\<lambda>r. if where_holds vals conds r then assign vals sets r else r) (map_of d k)) \<or>
       (isl out \<and> map_of d' = map_of d))"
  proof (cases "list_ex has_nul vals \<or>
      list_ex (\<lambda>(k, r). where_holds vals conds r \<and> \<not> check_constraints (record_of (assign vals sets r))) d")
    case False
    then show ?thesis using a(1) table_updated [OF a] matching_map_of [of d "where_holds vals conds"]
      by (auto simp: table_ok_def map_of_upd_where fun_eq_iff)
  qed (use a(1) in auto)
next
  fix d :: table_db and conds vals
  assume a: "table_ok d"
  then show "\<exists>out d'. table_query d (DeleteFrom conds) vals = (out, d') \<and> table_ok d' \<and>
      (case out of Inl _ \<Rightarrow> True
       | Inr res \<Rightarrow> q_rowCount res = Some (card (matching (where_holds vals conds) (map_of d)))) \<and>
      (map_of d' = (\<lambda>k. case map_of d k of None \<Rightarrow> None | Some r \<Rightarrow> if where_holds vals conds r then None else Some r) \<or>
       (isl out \<and> map_of d' = map_of d))"
    using table_kept [OF a] matching_map_of [of d "where_holds vals conds"]
      map_of_filter_value [of d "\<lambda>r. \<not> where_holds vals conds r"]
    by (auto simp: table_ok_def fun_eq_iff split: option.splits)
next
  fix d k r
  assume "table_ok d" "map_of d k = Some r"
  then show "schema_ok r \<and> r Cselector = SText k" by (auto simp: table_ok_def dest!: map_of_SomeD)
qed

section \<open>Refresh fits\<close>

lemma base64_storable: "isWellFormedUnicode (toBase64url bs)"
  using toBase64url_alphabet [of bs] by (simp add: isWellFormedUnicode_ascii list_b64url_ascii)

lemma hex_storable: "isWellFormedUnicode (toHex bs)"
  using toHex_lower [of bs]
  by (intro isWellFormedUnicode_ascii) (auto simp: list_all_iff is_lower_hex_def is_ascii_def)

lemma kid_storable: "valid_kid k \<Longrightarrow> isWellFormedUnicode k"
  by (simp add: valid_kid_def isWellFormedUnicode_ascii list_b64url_ascii)

lemma hash_storable: "isWellFormedUnicode (hashVerifier p v)" "hashDeviceId p d = Inr h \<Longrightarrow> isWellFormedUnicode h"
  by (auto simp: hashVerifier_def hashDeviceId_def hex_storable split: if_splits)

lemma map_sum_Some: "map_sum id Some x = Inr y \<Longrightarrow> \<exists>z. x = Inr z \<and> y = Some z"
  by (cases x) auto

definition rows_storable :: "rows \<Rightarrow> bool" where
  "rows_storable m \<longleftrightarrow> (\<forall>s r. m s = Some r \<longrightarrow> record_storable r \<and> safe_int (generation r + 1))"

lemma rotate_calls_fit:
  assumes "engine_wf eng" "record_storable r" "safe_int (generation r + 1)" "safe_int now" "safe_int (now + idleTtl eng)" "safe_int t"
  shows "calls_fit isWellFormedUnicode safe_int (rotate_token eng r d now st t) w"
proof -
  have dh: "pred_option isWellFormedUnicode dh" if "successorDeviceHash eng r d = Inr dh" for dh
    using that assms(2) hash_storable(2)
    by (cases "deviceIdHash r"; cases d) (auto simp: successorDeviceHash_def record_fits_def dest!: map_sum_Some)
  have "record_storable (mint_record eng \<lparr>a_userId = userId r, a_familyId = familyId r, a_generation = generation r + 1,
      a_deviceIdHash = dh, a_familyExpiresAt = familyExpiresAt r, a_now = now\<rparr> sel v)"
    if "pred_option isWellFormedUnicode dh" for dh sel v
    using assms that kid_storable [OF engine_kid [OF assms(1)]]
    by (auto simp: record_fits_def mint_record_def base64_storable hash_storable min_def)
  then show ?thesis using assms dh
    by (auto simp: rotate_token_def mint_def record_fits_def split: sum.split prod.split)
qed

lemma refresh_calls_fit:
  assumes "engine_wf eng" "rows_storable (db w)" "safe_int (clock w)" "safe_int (clock w + idleTtl eng)"
  shows "calls_fit isWellFormedUnicode safe_int (refresh eng tok d) w"
proof -
  have row: "record_storable r" "safe_int (generation r + 1)" if "db w s = Some r" for s r
    using assms(2) that by (auto simp: rows_storable_def)
  have family: "isWellFormedUnicode (familyId r)" if "db w s = Some r" for s r
    using row(1) [OF that] by (simp add: record_fits_def)
  have sel: "isWellFormedUnicode (p_selector p)" if "parseToken tok = Some p" for p
    using parseToken_Some [OF that] by (simp add: valid_selector_def isWellFormedUnicode_ascii list_b64url_ascii)
  have rot: "calls_fit isWellFormedUnicode safe_int (rotate_token eng r d (clock w) st t) v"
    if "db w s = Some r" "safe_int t" for s r st t v
    using rotate_calls_fit [OF assms(1) row(1) [OF that(1)] row(2) [OF that(1)] assms(3,4) that(2)] .
  have reuse: "calls_fit isWellFormedUnicode safe_int (handleReuse eng r p d (clock w)) w" if r: "db w s = Some r" for s r p
  proof -
    have "pred_option isWellFormedUnicode (replacedBySelector r)" "pred_option safe_int (rotatedAt r)"
      using row(1) [OF r] by (simp_all add: record_fits_def)
    moreover have "isWellFormedUnicode (selector q)" if "db w s' = Some q" for s' q
      using row(1) [OF that] by (simp add: record_fits_def)
    ultimately show ?thesis using family [OF r] rot [OF r]
      by (auto simp: handleReuse_def Let_def withinGrace_def split: option.splits)
  qed
  show ?thesis using sel family reuse rot assms(3) by (auto simp: refresh_def split: option.splits)
qed

section \<open>Results\<close>

text \<open>What the abstract store would hold when the database is in a state.\<close>

definition pg_world :: "('d \<Rightarrow> sql_table) \<Rightarrow> 'd world \<Rightarrow> rows world" where
  "pg_world table w = \<lparr>db = sql_client.contents table (db w), entropy = entropy w, clock = clock w\<rparr>"

text \<open>
  \<^bold>\<open>C21.\<close> Over any database client that keeps the documented meaning of the statements, any of which may fail,
  the Postgres store implements the storage contract. Whatever program of store calls runs on it, as long as its
  calls carry well-formed text and integers that a double holds exactly, there is a schedule of failing calls
  under which the abstract store gives the same outcome and the same contents. It fails closed: unless the
  promise rejects, no call failed, and outcome and contents are those of the abstract store.
\<close>

theorem postgres_refines:
  assumes "sql_client query table ok" "ok (db w)" "calls_fit isWellFormedUnicode safe_int p (pg_world table w)"
  shows "\<exists>out w' faults a. run (postgres_store query) p w = (out, w') \<and> ok (db w') \<and>
    run failing_spec p (with_faults faults (pg_world table w)) = (out, a) \<and> pg_world table w' = without_faults a \<and>
    ((\<exists>e. out = Rejected e) \<or> run spec_store p (pg_world table w) = (out, pg_world table w'))"
proof -
  have fs: "failing_store (postgres_store query) (sql_client.contents table) ok isWellFormedUnicode safe_int"
    using assms(1) by (rule sql_client.is_failing_store)
  obtain faults w' a where w': "run (postgres_store query) p w = (fst a, w')" "ok (db w')"
      "a = run failing_spec p (with_faults faults (pg_world table w))" "pg_world table w' = without_faults (snd a)"
    using failing_store.run_refines_failing [OF fs assms(2), of p] assms(3) unfolding pg_world_def by blast
  obtain out a' where a: "a = (out, a')" by (cases a)
  have sim: "run failing_spec p (with_faults faults (pg_world table w)) = (out, a')" "pg_world table w' = without_faults a'"
    using w'(3) [symmetric] w'(4) unfolding a by simp_all
  have "(\<exists>e. out = Rejected e) \<or> run spec_store p (pg_world table w) = (out, pg_world table w')"
    using failing_value [OF sim(1)] sim(2) by auto
  moreover have "run (postgres_store query) p w = (out, w')" using w'(1) a by simp
  ultimately show ?thesis using w'(2) sim by blast
qed

text \<open>A session in the table engine, and a refresh of its token.\<close>

definition stored_row :: TokenRecord where
  "stored_row = example_row\<lparr>familyId := js ''0123456789abcdef0123456789abcdef''\<rparr>"

definition sql_world :: "table_db world" where
  "sql_world = \<lparr>db = [(selector stored_row, row_of stored_row)], entropy = (\<lambda>_. 7), clock = 5050\<rparr>"

lemma stored_row_fits: "record_storable stored_row" "check_constraints stored_row" "generation stored_row = 0"
proof -
  have row: "valid_kid (kid stored_row)" "selector stored_row = toBase64url (replicate 16 1)"
      "verifierHash stored_row = hashVerifier example_pepper (replicate 32 2)"
    by (simp_all add: stored_row_def example_row_fields example_kid)
  moreover have "isWellFormedUnicode (js ''alice'')" "isWellFormedUnicode (js ''0123456789abcdef0123456789abcdef'')"
    by (simp_all add: isWellFormedUnicode_ascii js_def is_ascii_def)
  ultimately show "record_storable stored_row"
    by (simp add: record_fits_def stored_row_def base64_storable hash_storable kid_storable example_row_def)
       (simp add: safe_int_def example_engine_def)
  have "valid_selector (selector stored_row)" "is_digest (verifierHash stored_row)"
    using example_row_wf(1) by (simp_all add: stored_row_def rec_wf_def)
  with row(1) show "check_constraints stored_row"
    by (simp add: check_constraints_def stored_row_def example_row_def)
       (simp add: js_def is_lower_hex_def)
  show "generation stored_row = 0" by (simp add: stored_row_def example_row_def)
qed

lemma sql_world_ok: "table_ok (db sql_world)"
  using stored_row_fits by (auto simp: sql_world_def table_ok_def schema_ok_def)

lemma sql_world_contents: "sql_client.contents map_of (db sql_world) = [selector stored_row \<mapsto> stored_row]"
  unfolding sql_client.contents_def [OF table_client.sql_client_axioms] by (auto simp: sql_world_def fun_eq_iff)

theorem postgres_refines_witness:
  "\<exists>out w' faults a. run (postgres_store table_query) (refresh example_engine example_token None) sql_world = (out, w') \<and>
    table_ok (db w') \<and>
    run failing_spec (refresh example_engine example_token None) (with_faults faults (pg_world map_of sql_world)) = (out, a) \<and>
    pg_world map_of w' = without_faults a \<and>
    ((\<exists>e. out = Rejected e) \<or> run spec_store (refresh example_engine example_token None) (pg_world map_of sql_world) =
      (out, pg_world map_of w'))"
proof (rule postgres_refines [OF table_client.sql_client_axioms sql_world_ok])
  show "calls_fit isWellFormedUnicode safe_int (refresh example_engine example_token None) (pg_world map_of sql_world)"
  proof (rule refresh_calls_fit [OF example_engine_wf])
    show "rows_storable (db (pg_world map_of sql_world))"
      using stored_row_fits by (simp add: rows_storable_def pg_world_def sql_world_contents) (simp add: safe_int_def)
  qed (simp_all add: pg_world_def sql_world_def safe_int_def example_engine_def)
qed

text \<open>
  The garbage collection of the Postgres store deletes exactly the rows whose absolute deadline
  lies strictly before \<open>t\<close> and reports how many; a row whose deadline is exactly \<open>t\<close> stays, where
  \<open>docs/STORE.md\<close> asks for it to go and the in-memory store deletes it. Nothing is deleted too early, also when
  the statement fails.
\<close>

theorem pg_deleteExpired_effect:
  assumes "sql_client query table ok" "ok d" "safe_int t"
  shows "\<exists>out d'. pg_deleteExpired query d t = (out, d') \<and> ok d' \<and>
    (case out of Inl _ \<Rightarrow> True
     | Inr n \<Rightarrow> n = card {k. \<exists>q. sql_client.contents table d k = Some q \<and> familyExpiresAt q < t}) \<and>
    ((\<forall>k q. sql_client.contents table d' k = Some q \<longleftrightarrow> sql_client.contents table d k = Some q \<and> t \<le> familyExpiresAt q) \<or>
     (isl out \<and> sql_client.contents table d' = sql_client.contents table d))"
proof -
  obtain out d' where d': "pg_deleteExpired query d t = (out, d')" "ok d'"
    "case out of Inl _ \<Rightarrow> True | Inr n \<Rightarrow> n = card {k. \<exists>q. sql_client.contents table d k = Some q \<and> familyExpiresAt q < t}"
    "sql_client.contents table d' = (\<lambda>k. case sql_client.contents table d k of None \<Rightarrow> None
      | Some q \<Rightarrow> if familyExpiresAt q < t then None else Some q) \<or>
     (isl out \<and> sql_client.contents table d' = sql_client.contents table d)"
    using sql_client.deleteExpired_contents [OF assms] by blast
  have "sql_client.contents table d' k = Some q \<longleftrightarrow> sql_client.contents table d k = Some q \<and> t \<le> familyExpiresAt q"
    if "sql_client.contents table d' = (\<lambda>k. case sql_client.contents table d k of None \<Rightarrow> None
      | Some q \<Rightarrow> if familyExpiresAt q < t then None else Some q)" for k q
    unfolding that by (cases "sql_client.contents table d k") auto
  then show ?thesis using d' by blast
qed

theorem pg_deleteExpired_effect_witness:
  "\<exists>out d'. pg_deleteExpired table_query (db sql_world) 6000 = (out, d') \<and> table_ok d' \<and>
    (case out of Inl _ \<Rightarrow> True
     | Inr n \<Rightarrow> n = card {k. \<exists>q. sql_client.contents map_of (db sql_world) k = Some q \<and> familyExpiresAt q < 6000}) \<and>
    ((\<forall>k q. sql_client.contents map_of d' k = Some q \<longleftrightarrow>
        sql_client.contents map_of (db sql_world) k = Some q \<and> 6000 \<le> familyExpiresAt q) \<or>
     (isl out \<and> sql_client.contents map_of d' = sql_client.contents map_of (db sql_world)))"
  by (rule pg_deleteExpired_effect [OF table_client.sql_client_axioms sql_world_ok]) (simp add: safe_int_def)

end
