(* ===== verification/Js_Lib.thy ===== *)
theory Js_Lib
  imports Complex_Main Regex
begin

text \<open>
  What the repository's scripts use of the JavaScript library: searching and cutting strings,
  \<open>Number\<close>, the stable \<open>Array.prototype.sort\<close> with a comparator, insertion-ordered \<open>Set\<close>, and the
  result of \<open>child_process.spawnSync\<close>.

  \<open>undefined\<close> and \<open>null\<close> are \<open>None\<close>. A finite number is a rational number, exact where the source's
  doubles are exact (integers below \<open>2\<^sup>5\<^sup>3\<close>; the scripts compute on version components and counters).
\<close>

section \<open>Strings\<close>

abbreviation NL :: cu where "NL \<equiv> 10"

definition startsWith :: "'a list \<Rightarrow> 'a list \<Rightarrow> bool" where
  "startsWith s p \<longleftrightarrow> take (length p) s = p"

definition endsWith :: "'a list \<Rightarrow> 'a list \<Rightarrow> bool" where
  "endsWith s p \<longleftrightarrow> startsWith (rev s) (rev p)"

text \<open>\<open>s.indexOf(p)\<close>, with \<open>None\<close> for \<open>-1\<close>.\<close>

fun indexOf :: "'a list \<Rightarrow> 'a list \<Rightarrow> nat option" where
  "indexOf [] p = (if p = [] then Some 0 else None)"
| "indexOf (x # s) p =
     (if startsWith (x # s) p then Some 0 else map_option Suc (indexOf s p))"

definition str_includes :: "'a list \<Rightarrow> 'a list \<Rightarrow> bool" where
  "str_includes s p \<longleftrightarrow> indexOf s p \<noteq> None"

text \<open>\<open>s.slice(i, j)\<close> for non-negative indices.\<close>

definition slice :: "nat \<Rightarrow> nat \<Rightarrow> 'a list \<Rightarrow> 'a list" where
  "slice i j s = take (j - i) (drop i s)"

definition lines :: "jsstring \<Rightarrow> jsstring list" where
  "lines s = split_on NL s"

text \<open>The first part of \<open>s.split(r)\<close> for a pattern that matches no empty string.\<close>

definition split_first :: "regex \<Rightarrow> jsstring \<Rightarrow> jsstring" where
  "split_first r s = (case exec r s of None \<Rightarrow> s | Some m \<Rightarrow> take (m_index m) s)"

text \<open>The decimal notation of a natural number.\<close>

fun decimal :: "nat \<Rightarrow> jsstring" where
  "decimal n = (if n < 10 then [of_nat (48 + n)]
                else decimal (n div 10) @ [of_nat (48 + n mod 10)])"

declare decimal.simps [simp del]

text \<open>The order of strings, by code units.\<close>

fun str_less :: "jsstring \<Rightarrow> jsstring \<Rightarrow> bool" where
  "str_less [] b = (b \<noteq> [])"
| "str_less (x # a) [] = False"
| "str_less (x # a) (y # b) = (x < y \<or> (x = y \<and> str_less a b))"

definition byCodeUnit :: "jsstring \<Rightarrow> jsstring \<Rightarrow> int" where
  "byCodeUnit a b = (if str_less a b then -1 else if str_less b a then 1 else 0)"

text \<open>\<open>v\<close> in a boolean position, for a value that is a string or \<open>null\<close>: empty strings are falsy.\<close>

fun truthy :: "jsstring option \<Rightarrow> bool" where
  "truthy None = False"
| "truthy (Some s) = (s \<noteq> [])"

section \<open>Numbers\<close>

datatype js_float = NaN | Infinite bool | Finite rat \<comment> \<open>\<open>Infinite True\<close> is \<open>-Infinity\<close>\<close>

fun float_neg :: "js_float \<Rightarrow> js_float" where
  "float_neg NaN = NaN"
| "float_neg (Infinite n) = Infinite (\<not> n)"
| "float_neg (Finite q) = Finite (- q)"

fun float_minus :: "js_float \<Rightarrow> js_float \<Rightarrow> js_float" where
  "float_minus NaN _ = NaN"
| "float_minus _ NaN = NaN"
| "float_minus (Infinite n) (Infinite m) = (if n = m then NaN else Infinite n)"
| "float_minus (Infinite n) (Finite _) = Infinite n"
| "float_minus (Finite _) (Infinite m) = Infinite (\<not> m)"
| "float_minus (Finite p) (Finite q) = Finite (p - q)"

text \<open>A number in a boolean position, and \<open>Math.sign\<close> of a truthy one.\<close>

fun float_truthy :: "js_float \<Rightarrow> bool" where
  "float_truthy NaN = False"
| "float_truthy (Infinite _) = True"
| "float_truthy (Finite q) = (q \<noteq> 0)"

fun float_sign :: "js_float \<Rightarrow> int" where
  "float_sign NaN = 0"
| "float_sign (Infinite n) = (if n then -1 else 1)"
| "float_sign (Finite q) = (if q < 0 then -1 else if q > 0 then 1 else 0)"

text \<open>Positional notation in a base; the value of a digit is \<open>None\<close> outside the base.\<close>

definition digit_value :: "nat \<Rightarrow> cu \<Rightarrow> nat option" where
  "digit_value base c =
     (let n = unat c;
          v = (if 48 \<le> n \<and> n \<le> 57 then n - 48
               else if 97 \<le> n \<and> n \<le> 102 then n - 87
               else if 65 \<le> n \<and> n \<le> 70 then n - 55 else base)
      in if v < base then Some v else None)"

fun positional :: "nat \<Rightarrow> nat \<Rightarrow> jsstring \<Rightarrow> nat option" where
  "positional base acc [] = Some acc"
| "positional base acc (c # cs) =
     (case digit_value base c of None \<Rightarrow> None | Some v \<Rightarrow> positional base (base * acc + v) cs)"

definition nondecimal :: "nat \<Rightarrow> jsstring \<Rightarrow> js_float" where
  "nondecimal base s =
     (if s = [] then NaN
      else case positional base 0 s of None \<Rightarrow> NaN | Some n \<Rightarrow> Finite (of_nat n))"

text \<open>The exponent part of a decimal literal, applied to the mantissa.\<close>

definition with_exponent :: "rat \<Rightarrow> jsstring \<Rightarrow> js_float" where
  "with_exponent m e =
     (let neg = (startsWith e (js ''-''));
          ds = (if neg \<or> startsWith e (js ''+'') then drop 1 e else e)
      in if ds = [] then NaN
         else case positional 10 0 ds of None \<Rightarrow> NaN
              | Some n \<Rightarrow> Finite (if neg then m / 10 ^ n else m * 10 ^ n))"

definition decimal_literal :: "jsstring \<Rightarrow> js_float" where
  "decimal_literal s =
     (if s = js ''Infinity'' then Infinite False
      else
        let i = takeWhile is_digit s; r = dropWhile is_digit s;
            dot = startsWith r (js ''.'');
            f = (if dot then takeWhile is_digit (drop 1 r) else []);
            e = (if dot then dropWhile is_digit (drop 1 r) else r)
        in if i @ f = [] then NaN
           else case positional 10 0 (i @ f) of None \<Rightarrow> NaN
                | Some n \<Rightarrow>
                    let m = of_nat n / 10 ^ length f
                    in if e = [] then Finite m
                       else if startsWith e (js ''e'') \<or> startsWith e (js ''E'')
                            then with_exponent m (drop 1 e) else NaN)"

text \<open>\<open>Number(s)\<close>, the grammar StringNumericLiteral of ECMA-262.\<close>

definition Number :: "jsstring \<Rightarrow> js_float" where
  "Number s =
     (let t = trim s in
      if t = [] then Finite 0
      else if startsWith t (js ''0x'') \<or> startsWith t (js ''0X'') then nondecimal 16 (drop 2 t)
      else if startsWith t (js ''0o'') \<or> startsWith t (js ''0O'') then nondecimal 8 (drop 2 t)
      else if startsWith t (js ''0b'') \<or> startsWith t (js ''0B'') then nondecimal 2 (drop 2 t)
      else if startsWith t (js ''+'') then decimal_literal (drop 1 t)
      else if startsWith t (js ''-'') then float_neg (decimal_literal (drop 1 t))
      else decimal_literal t)"

section \<open>Sorting with a comparator\<close>

text \<open>
  \<open>xs.sort(c)\<close> is stable, so on a comparator that is consistent its result is the one insertion
  gives; on an inconsistent comparator the standard leaves the order open.
\<close>

fun insert_by :: "('a \<Rightarrow> 'a \<Rightarrow> int) \<Rightarrow> 'a \<Rightarrow> 'a list \<Rightarrow> 'a list" where
  "insert_by c x [] = [x]"
| "insert_by c x (y # ys) = (if c x y \<le> 0 then x # y # ys else y # insert_by c x ys)"

definition sort_by :: "('a \<Rightarrow> 'a \<Rightarrow> int) \<Rightarrow> 'a list \<Rightarrow> 'a list" where
  "sort_by c xs = foldr (insert_by c) xs []"

text \<open>A comparator that orders the elements of \<open>S\<close>.\<close>

definition comparator_on :: "'a set \<Rightarrow> ('a \<Rightarrow> 'a \<Rightarrow> int) \<Rightarrow> bool" where
  "comparator_on S c \<longleftrightarrow>
     (\<forall>a \<in> S. \<forall>b \<in> S. c a b = - c b a) \<and>
     (\<forall>a \<in> S. \<forall>b \<in> S. \<forall>d \<in> S. c a b \<le> 0 \<longrightarrow> c b d \<le> 0 \<longrightarrow> c a d \<le> 0)"

lemma comparator_on_subset: "comparator_on S c \<Longrightarrow> T \<subseteq> S \<Longrightarrow> comparator_on T c"
  unfolding comparator_on_def by (meson subsetD)

text \<open>\<open>[...new Set(xs)]\<close>: first occurrences, in order.\<close>

fun distinct_values_acc :: "'a list \<Rightarrow> 'a list \<Rightarrow> 'a list" where
  "distinct_values_acc seen [] = rev seen"
| "distinct_values_acc seen (x # xs) =
     distinct_values_acc (if List.member seen x then seen else x # seen) xs"

definition distinct_values :: "'a list \<Rightarrow> 'a list" where
  "distinct_values xs = distinct_values_acc [] xs"

text \<open>The definitions that evaluate \<open>Number\<close> and the string tests on literals.\<close>

lemmas js_eval = js_def trim_def trim_start_def is_space_def is_digit_def startsWith_def
  Number_def decimal_literal_def with_exponent_def nondecimal_def digit_value_def

section \<open>Processes\<close>

text \<open>What \<open>spawnSync\<close> returns: \<open>status\<close> is \<open>null\<close> when the process did not exit by itself.\<close>

record spawn_result =
  sp_error :: "jsstring option" \<comment> \<open>\<open>error?.code\<close>\<close>
  sp_status :: "int option"
  sp_stdout :: jsstring
  sp_stderr :: jsstring

section \<open>Laws\<close>

lemma startsWith_append [simp]: "startsWith (p @ s) p"
  by (simp add: startsWith_def)

lemma startsWith_iff: "startsWith s p \<longleftrightarrow> (\<exists>t. s = p @ t)"
  by (metis append_eq_conv_conj append_take_drop_id startsWith_def)

lemma startsWith_Nil [simp]: "startsWith s []"
  by (simp add: startsWith_def)

lemma indexOf_Some_iff:
  "indexOf s p = Some i \<longleftrightarrow>
     i \<le> length s \<and> startsWith (drop i s) p \<and> (\<forall>j < i. \<not> startsWith (drop j s) p)"
proof (induction s arbitrary: i)
  case Nil
  then show ?case by (auto simp: startsWith_def)
next
  case (Cons x s)
  show ?case
  proof (cases i)
    case 0
    then show ?thesis by auto
  next
    case (Suc k)
    have "(\<forall>j < Suc k. \<not> startsWith (drop j (x # s)) p) \<longleftrightarrow>
        \<not> startsWith (x # s) p \<and> (\<forall>j < k. \<not> startsWith (drop j s) p)"
      by (auto simp: All_less_Suc2)
    then show ?thesis using Suc Cons by auto
  qed
qed

lemma indexOf_None_iff: "indexOf s p = None \<longleftrightarrow> (\<forall>i \<le> length s. \<not> startsWith (drop i s) p)"
proof (induction s)
  case Nil
  then show ?case by (auto simp: startsWith_def)
next
  case (Cons x s)
  have "(\<forall>i \<le> length (x # s). \<not> startsWith (drop i (x # s)) p) \<longleftrightarrow>
      \<not> startsWith (x # s) p \<and> (\<forall>i \<le> length s. \<not> startsWith (drop i s) p)"
    by (auto simp: less_Suc_eq_le [symmetric] All_less_Suc2)
  then show ?case using Cons by auto
qed

lemma str_includes_iff: "str_includes s p \<longleftrightarrow> (\<exists>u v. s = u @ p @ v)"
proof
  assume "str_includes s p"
  then obtain i where "indexOf s p = Some i" by (auto simp: str_includes_def)
  then obtain v where "drop i s = p @ v" by (auto simp: indexOf_Some_iff startsWith_iff)
  then have "s = take i s @ p @ v" by (metis append_take_drop_id)
  then show "\<exists>u v. s = u @ p @ v" by blast
next
  assume "\<exists>u v. s = u @ p @ v"
  then obtain u v where s: "s = u @ p @ v" by blast
  then have "startsWith (drop (length u) s) p" by simp
  moreover have "length u \<le> length s" using s by simp
  ultimately show "str_includes s p" unfolding str_includes_def indexOf_None_iff by blast
qed

lemma set_insert_by [simp]: "set (insert_by c x ys) = insert x (set ys)"
  by (induction ys) auto

lemma set_sort_by [simp]: "set (sort_by c xs) = set xs"
  unfolding sort_by_def by (induction xs) auto

lemma length_insert_by [simp]: "length (insert_by c x ys) = Suc (length ys)"
  by (induction ys) auto

lemma length_sort_by [simp]: "length (sort_by c xs) = length xs"
  unfolding sort_by_def by (induction xs) auto

lemma distinct_sort_by [simp]: "distinct (sort_by c xs) \<longleftrightarrow> distinct xs"
  by (metis card_distinct distinct_card length_sort_by set_sort_by)

lemma sort_by_Nil_iff [simp]: "sort_by c xs = [] \<longleftrightarrow> xs = []"
  by (metis length_0_conv length_sort_by)

text \<open>With a consistent comparator, the first element of the sorted list is a lowest one.\<close>

lemma hd_insert_by:
  "comparator_on (insert x (set ys)) c \<Longrightarrow> \<forall>y \<in> set ys. c (hd ys) y \<le> 0 \<Longrightarrow>
    \<forall>y \<in> insert x (set ys). c (hd (insert_by c x ys)) y \<le> 0"
proof (cases ys)
  case Nil
  assume "comparator_on (insert x (set ys)) c"
  then have "c x x = - c x x" by (auto simp: comparator_on_def)
  then show ?thesis using Nil by simp
next
  case (Cons z zs)
  assume c: "comparator_on (insert x (set ys)) c" and low: "\<forall>y \<in> set ys. c (hd ys) y \<le> 0"
  from c have anti: "\<And>a b. a \<in> insert x (set ys) \<Longrightarrow> b \<in> insert x (set ys) \<Longrightarrow> c a b = - c b a"
    and trans: "\<And>a b d. a \<in> insert x (set ys) \<Longrightarrow> b \<in> insert x (set ys) \<Longrightarrow> d \<in> insert x (set ys) \<Longrightarrow>
      c a b \<le> 0 \<Longrightarrow> c b d \<le> 0 \<Longrightarrow> c a d \<le> 0"
    unfolding comparator_on_def by blast+
  have z: "z \<in> insert x (set ys)" using Cons by simp
  show ?thesis
  proof (cases "c x z \<le> 0")
    case True
    have "c x y \<le> 0" if "y \<in> set ys" for y
    proof -
      have "c z y \<le> 0" using low that Cons by auto
      with True show ?thesis using trans [of x z y] that z by blast
    qed
    moreover have "c x x \<le> 0" using anti [of x x] by simp
    ultimately show ?thesis using True Cons by simp
  next
    case False
    then have "c z x \<le> 0" using anti [of z x] z by simp
    then show ?thesis using False low Cons by simp
  qed
qed

lemma hd_sort_by:
  assumes "comparator_on (set xs) c" "v \<in> set xs"
  shows "c (hd (sort_by c xs)) v \<le> 0"
proof -
  have "\<forall>y \<in> set xs. c (hd (sort_by c xs)) y \<le> 0"
    using assms(1)
  proof (induction xs)
    case (Cons x xs)
    have "comparator_on (set xs) c" by (rule comparator_on_subset [OF Cons.prems]) auto
    then have "\<forall>y \<in> set (sort_by c xs). c (hd (sort_by c xs)) y \<le> 0" using Cons.IH by simp
    moreover have "comparator_on (insert x (set (sort_by c xs))) c" using Cons.prems by simp
    ultimately have "\<forall>y \<in> insert x (set (sort_by c xs)). c (hd (insert_by c x (sort_by c xs))) y \<le> 0"
      by (rule hd_insert_by [rotated])
    moreover have "sort_by c (x # xs) = insert_by c x (sort_by c xs)" by (simp add: sort_by_def)
    ultimately show ?case by simp
  qed simp
  with assms(2) show ?thesis by blast
qed

lemma hd_sort_by_in: "xs \<noteq> [] \<Longrightarrow> hd (sort_by c xs) \<in> set xs"
  by (metis hd_in_set set_sort_by sort_by_Nil_iff)

lemma distinct_values_acc_props:
  "set (distinct_values_acc seen xs) = set seen \<union> set xs \<and>
   (distinct seen \<longrightarrow> distinct (distinct_values_acc seen xs))"
  by (induction xs arbitrary: seen) auto

lemma set_distinct_values [simp]: "set (distinct_values xs) = set xs"
  by (simp add: distinct_values_def distinct_values_acc_props)

lemma distinct_distinct_values [simp]: "distinct (distinct_values xs)"
  by (simp add: distinct_values_def distinct_values_acc_props)

text \<open>A \<open>Set\<close> of at most one element: the values agree.\<close>

lemma length_distinct_values_le_1:
  "length (distinct_values xs) \<le> 1 \<longleftrightarrow> (\<forall>x \<in> set xs. \<forall>y \<in> set xs. x = y)"
proof -
  have "length (distinct_values xs) = card (set xs)"
    by (metis distinct_card distinct_distinct_values set_distinct_values)
  then show ?thesis by (simp add: card_le_Suc0_iff_eq)
qed

lemma float_minus_swap: "float_minus y x = float_neg (float_minus x y)"
  by (cases x; cases y) auto

lemma float_sign_neg [simp]: "float_sign (float_neg d) = - float_sign d"
  by (cases d) auto

lemma float_truthy_neg [simp]: "float_truthy (float_neg d) = float_truthy d"
  by (cases d) auto

end
