(* ===== verification/Json.thy ===== *)
theory Json
  imports Js_Lib
begin

text \<open>
  JSON values and \<open>JSON.parse\<close> (ECMA-404), which several scripts apply to manifests and vector files.
  An object is the list of its properties in insertion order; a repeated key overwrites the value and
  keeps its place. \<open>None\<close> is a \<open>SyntaxError\<close>. The first argument of the parser bounds the nesting and
  the number of elements; every call consumes a code unit, so the length of the text is enough.
\<close>

datatype json =
    JNull
  | JBool bool
  | JNum js_float
  | JStr jsstring
  | JArr "json list"
  | JObj "(jsstring \<times> json) list"

datatype js_exn = SyntaxError | TypeError | FileError | URIError

fun map_set :: "'k \<Rightarrow> 'v \<Rightarrow> ('k \<times> 'v) list \<Rightarrow> ('k \<times> 'v) list" where
  "map_set k v [] = [(k, v)]"
| "map_set k v ((l, u) # kvs) = (if l = k then (k, v) # kvs else (l, u) # map_set k v kvs)"

lemma map_of_map_set [simp]: "map_of (map_set k v m) = (map_of m)(k \<mapsto> v)"
  by (induction m) (auto simp: fun_eq_iff)

lemma keys_map_set: "set (map fst (map_set k v m)) = insert k (set (map fst m))"
proof (induction m)
  case (Cons lu m)
  obtain l u where "lu = (l, u)" by (cases lu)
  then show ?case using Cons.IH by (simp add: insert_commute)
qed simp

lemma distinct_map_set: "distinct (map fst m) \<Longrightarrow> distinct (map fst (map_set k v m))"
proof (induction m)
  case (Cons lu m)
  obtain l u where "lu = (l, u)" by (cases lu)
  then show ?case using Cons keys_map_set [of k v m] by auto
qed simp

section \<open>Parsing\<close>

definition skip_ws :: "jsstring \<Rightarrow> jsstring" where
  "skip_ws s = dropWhile (\<lambda>c. c = 32 \<or> c = 9 \<or> c = 10 \<or> c = 13) s"

text \<open>The characters after the opening quote, up to the closing one.\<close>

definition escape_char :: "cu \<Rightarrow> cu option" where
  "escape_char c =
     (if c = 34 \<or> c = 92 \<or> c = 47 then Some c
      else if c = 98 then Some 8 else if c = 102 then Some 12 else if c = 110 then Some 10
      else if c = 114 then Some 13 else if c = 116 then Some 9 else None)"

fun parse_string :: "nat \<Rightarrow> jsstring \<Rightarrow> jsstring \<Rightarrow> (jsstring \<times> jsstring) option" where
  "parse_string 0 acc s = None"
| "parse_string (Suc n) acc s =
     (case s of
        [] \<Rightarrow> None
      | c # s1 \<Rightarrow>
          if c = 34 then Some (rev acc, s1)
          else if c < 32 then None
          else if c = 92 then
            (case s1 of
               [] \<Rightarrow> None
             | e # s2 \<Rightarrow>
                 if e = 117 then
                   (if length s2 < 4 then None
                    else case positional 16 0 (take 4 s2) of
                      None \<Rightarrow> None
                    | Some u \<Rightarrow> parse_string n (of_nat u # acc) (drop 4 s2))
                 else (case escape_char e of None \<Rightarrow> None | Some x \<Rightarrow> parse_string n (x # acc) s2))
          else parse_string n (c # acc) s1)"

definition NUMBER_RE :: regex where
  "NUMBER_RE = RSeqs [RBol False, ROpt (RLit (js ''-'')),
     RAlt (RLit (js ''0'')) (RSeq (RChar (\<lambda>c. 49 \<le> c \<and> c \<le> 57)) (RStar True (RChar is_digit))),
     ROpt (RSeq (RLit (js ''.'')) (RPlus True (RChar is_digit))),
     ROpt (RSeqs [RChar (one_of ''eE''), ROpt (RChar (one_of ''+-'')), RPlus True (RChar is_digit)])]"

definition parse_number :: "jsstring \<Rightarrow> (json \<times> jsstring) option" where
  "parse_number s = (case exec NUMBER_RE s of None \<Rightarrow> None
     | Some m \<Rightarrow> Some (JNum (Number (m_text m)), drop (length (m_text m)) s))"

text \<open>The three phases of the parser: a value, the rest of an array, the rest of an object.\<close>

datatype phase = Value | Elements "json list" | Members "(jsstring \<times> json) list"

primrec parse :: "nat \<Rightarrow> phase \<Rightarrow> jsstring \<Rightarrow> (json \<times> jsstring) option" where
  "parse 0 ph s0 = None"
| "parse (Suc n) ph s0 =
     (let s = skip_ws s0 in
      case ph of
        Value \<Rightarrow>
          if startsWith s (js ''null'') then Some (JNull, drop 4 s)
          else if startsWith s (js ''true'') then Some (JBool True, drop 4 s)
          else if startsWith s (js ''false'') then Some (JBool False, drop 5 s)
          else if startsWith s [34] then
            map_option (\<lambda>(w, r). (JStr w, r)) (parse_string (Suc (length s)) [] (drop 1 s))
          else if startsWith s (js ''['') then
            (let r = skip_ws (drop 1 s) in
             if startsWith r (js '']'') then Some (JArr [], drop 1 r) else parse n (Elements []) r)
          else if startsWith s (js ''{'') then
            (let r = skip_ws (drop 1 s) in
             if startsWith r (js ''}'') then Some (JObj [], drop 1 r) else parse n (Members []) r)
          else parse_number s
      | Elements acc \<Rightarrow>
          (case parse n Value s of
             None \<Rightarrow> None
           | Some (v, r0) \<Rightarrow>
               let r = skip_ws r0 in
               if startsWith r (js '','') then parse n (Elements (acc @ [v])) (drop 1 r)
               else if startsWith r (js '']'') then Some (JArr (acc @ [v]), drop 1 r)
               else None)
      | Members acc \<Rightarrow>
          if \<not> startsWith s [34] then None
          else case parse_string (Suc (length s)) [] (drop 1 s) of
            None \<Rightarrow> None
          | Some (k, r0) \<Rightarrow>
              let r1 = skip_ws r0 in
              if \<not> startsWith r1 (js '':'') then None
              else case parse n Value (drop 1 r1) of
                None \<Rightarrow> None
              | Some (v, r2) \<Rightarrow>
                  let r = skip_ws r2; m = map_set k v acc in
                  if startsWith r (js '','') then parse n (Members m) (drop 1 r)
                  else if startsWith r (js ''}'') then Some (JObj m, drop 1 r)
                  else None)"

definition json_parse :: "jsstring \<Rightarrow> json option" where
  "json_parse s = (case parse (Suc (length s)) Value s of
     None \<Rightarrow> None | Some (j, r) \<Rightarrow> if skip_ws r = [] then Some j else None)"

section \<open>Reading values\<close>

text \<open>
  \<open>v.k\<close> for a value that is neither \<open>null\<close> nor \<open>undefined\<close>, own data properties only, and \<open>v?.k\<close> for
  any: the names the scripts read are on no prototype.
\<close>

fun get :: "json \<Rightarrow> jsstring \<Rightarrow> json option" where
  "get (JObj ps) k = map_of ps k"
| "get _ k = None"

fun get_opt :: "json option \<Rightarrow> jsstring \<Rightarrow> json option" where
  "get_opt None k = None"
| "get_opt (Some v) k = get v k"

text \<open>The values in a boolean position.\<close>

fun json_truthy :: "json option \<Rightarrow> bool" where
  "json_truthy None = False"
| "json_truthy (Some JNull) = False"
| "json_truthy (Some (JBool b)) = b"
| "json_truthy (Some (JNum x)) = float_truthy x"
| "json_truthy (Some (JStr s)) = (s \<noteq> [])"
| "json_truthy (Some _) = True"

text \<open>\<open>v ?? d\<close>: the values that are neither \<open>null\<close> nor \<open>undefined\<close>.\<close>

fun non_nullish :: "json option \<Rightarrow> json option" where
  "non_nullish None = None"
| "non_nullish (Some v) = (if v = JNull then None else Some v)"

text \<open>Sequencing of computations that may throw.\<close>

fun and_then :: "'e + 'a \<Rightarrow> ('a \<Rightarrow> 'e + 'b) \<Rightarrow> 'e + 'b" where
  "and_then (Inl e) f = Inl e"
| "and_then (Inr x) f = f x"

lemma and_then_Inr_iff: "and_then m f = Inr y \<longleftrightarrow> (\<exists>x. m = Inr x \<and> f x = Inr y)"
  by (cases m) auto

fun traverse :: "('a \<Rightarrow> 'e + 'b) \<Rightarrow> 'a list \<Rightarrow> 'e + 'b list" where
  "traverse f [] = Inr []"
| "traverse f (x # xs) =
     (case f x of Inl e \<Rightarrow> Inl e
      | Inr y \<Rightarrow> (case traverse f xs of Inl e \<Rightarrow> Inl e | Inr ys \<Rightarrow> Inr (y # ys)))"

lemma traverse_Inr_iff: "traverse f xs = Inr ys \<longleftrightarrow> list_all2 (\<lambda>x y. f x = Inr y) xs ys"
proof (induction xs arbitrary: ys)
  case (Cons x xs)
  show ?case
  proof (cases "f x")
    case (Inr y)
    show ?thesis
    proof (cases "traverse f xs")
      case (Inl e)
      then have "\<nexists>zs. list_all2 (\<lambda>x y. f x = Inr y) xs zs" using Cons.IH by (metis sum.distinct(1))
      then show ?thesis using Inl Inr by (auto simp: list_all2_Cons1)
    next
      case (Inr zs)
      then have "list_all2 (\<lambda>x y. f x = Inr y) xs us \<longleftrightarrow> us = zs" for us using Cons.IH by (metis sum.inject(2))
      then show ?thesis using Inr \<open>f x = Inr y\<close> by (auto simp: list_all2_Cons1)
    qed
  qed (auto simp: list_all2_Cons1)
qed auto

lemma traverse_Inr_map:
  "traverse f xs = Inr ys \<longleftrightarrow> (\<forall>x \<in> set xs. \<not> isl (f x)) \<and> ys = map (\<lambda>x. projr (f x)) xs"
proof (induction xs arbitrary: ys)
  case (Cons x xs)
  show ?case
  proof (cases "f x")
    case (Inr y)
    then show ?thesis using Cons.IH by (cases "traverse f xs") auto
  qed auto
qed auto

lemma map_sum_Inr_iff: "map_sum id g x = Inr y \<longleftrightarrow> (\<exists>z. x = Inr z \<and> g z = y)"
  by (cases x) auto

section \<open>Checks that push problems\<close>

text \<open>
  A part of a check returns the problems it pushes, or throws. \<open>both\<close> runs one part after another, \<open>each\<close>
  runs a part for each element of a list.
\<close>

definition push :: "bool \<Rightarrow> 'p \<Rightarrow> 'p list" where
  "push b p = (if b then [p] else [])"

definition both :: "'e + 'p list \<Rightarrow> 'e + 'p list \<Rightarrow> 'e + 'p list" where
  "both m n = and_then m (\<lambda>ps. map_sum id ((@) ps) n)"

definition each :: "('a \<Rightarrow> 'e + 'p list) \<Rightarrow> 'a list \<Rightarrow> 'e + 'p list" where
  "each f xs = map_sum id concat (traverse f xs)"

lemma push_Nil_iff: "push b p = [] \<longleftrightarrow> \<not> b"
  by (simp add: push_def)

lemma concat_map_Nil_iff: "concat (map f xs) = [] \<longleftrightarrow> (\<forall>x \<in> set xs. f x = [])"
  by auto

lemma both_Nil_iff: "both m n = Inr [] \<longleftrightarrow> m = Inr [] \<and> n = Inr []"
  by (cases m; cases n) (auto simp: both_def)

lemma traverse_concat_Nil_iff:
  "(\<exists>yss. traverse f xs = Inr yss \<and> concat yss = []) \<longleftrightarrow> (\<forall>x \<in> set xs. f x = Inr [])"
proof (induction xs)
  case (Cons x xs)
  show ?case
  proof (cases "f x")
    case (Inr ys)
    then show ?thesis using Cons.IH by (cases "traverse f xs") auto
  qed simp
qed simp

lemma each_Nil_iff: "each f xs = Inr [] \<longleftrightarrow> (\<forall>x \<in> set xs. f x = Inr [])"
  unfolding each_def map_sum_Inr_iff traverse_concat_Nil_iff ..

end
