(* ===== verification/Dotted_Version.thy ===== *)
theory Dotted_Version
  imports Json
begin

text \<open>
  Comparison of dotted version numbers, the function \<open>cmp\<close> that \<open>scripts/docker-test.mjs\<close> and
  \<open>scripts/check-runtime-matrix.mjs\<close> share, and the entries of \<open>.github/runtime-matrix.json\<close>.

  The lemmas show when \<open>cmp\<close> is an order: it is antisymmetric on all strings, and transitive on those
  whose components are numbers; there the first element of a list sorted with it is a lowest version.
  The interface between the comparison and its clients is the locale \<open>version_order\<close>.
\<close>

section \<open>The comparison\<close>

text \<open>
  The loop over \<open>i < max(pa.length, pb.length)\<close> with \<open>(pa[i] ?? 0) - (pb[i] ?? 0)\<close>: the first difference
  that is neither zero nor \<open>NaN\<close> decides.
\<close>

fun cmp_parts :: "js_float list \<Rightarrow> js_float list \<Rightarrow> int" where
  "cmp_parts [] [] = 0"
| "cmp_parts (a # pa) [] =
     (let d = float_minus a (Finite 0) in if float_truthy d then float_sign d else cmp_parts pa [])"
| "cmp_parts [] (b # pb) =
     (let d = float_minus (Finite 0) b in if float_truthy d then float_sign d else cmp_parts [] pb)"
| "cmp_parts (a # pa) (b # pb) =
     (let d = float_minus a b in if float_truthy d then float_sign d else cmp_parts pa pb)"

definition version_parts :: "jsstring \<Rightarrow> js_float list" where
  "version_parts v = map Number (split_on 46 v)"

text \<open>\<open>cmp\<close> of \<open>check-runtime-matrix.mjs\<close>.\<close>

definition matrix_cmp :: "jsstring \<Rightarrow> jsstring \<Rightarrow> int" where
  "matrix_cmp a b = cmp_parts (version_parts a) (version_parts b)"

text \<open>\<open>cmp\<close> of \<open>docker-test.mjs\<close>, which drops a leading \<open>net\<close> first.\<close>

definition strip_net :: "jsstring \<Rightarrow> jsstring" where
  "strip_net v = replaceFirst (RSeqs [RBol False, RLit (js ''net'')]) (\<lambda>_. []) v"

definition docker_cmp :: "jsstring \<Rightarrow> jsstring \<Rightarrow> int" where
  "docker_cmp a b = cmp_parts (version_parts (strip_net a)) (version_parts (strip_net b))"

section \<open>The runtime matrix\<close>

text \<open>
  \<open>JSON.parse\<close> of \<open>.github/runtime-matrix.json\<close>: under each key a list whose elements are strings or
  objects with string properties (\<open>framework\<close>, \<open>sdk\<close>, \<open>elixir\<close>, \<open>otp\<close>).
\<close>

datatype matrix_entry = Version jsstring | Entry "(jsstring \<times> jsstring) list"

type_synonym runtime_matrix = "(jsstring \<times> matrix_entry list) list"

fun entry_prop :: "matrix_entry \<Rightarrow> jsstring \<Rightarrow> jsstring option" where
  "entry_prop (Version _) k = None"
| "entry_prop (Entry ps) k = map_of ps k"

section \<open>The order\<close>

abbreviation finite_num :: "js_float \<Rightarrow> bool" where
  "finite_num x \<equiv> (case x of Finite _ \<Rightarrow> True | _ \<Rightarrow> False)"

text \<open>Every component of the version is a number.\<close>

definition numeric_parts :: "jsstring \<Rightarrow> bool" where
  "numeric_parts v \<longleftrightarrow> list_all finite_num (version_parts v)"

lemma cmp_parts_swap: "cmp_parts pa pb = - cmp_parts pb pa"
proof (induction pa pb rule: cmp_parts.induct)
  case (2 a pa)
  then show ?case using float_minus_swap [of "Finite 0" a] by (simp add: Let_def)
next
  case (3 b pb)
  then show ?case using float_minus_swap [of "Finite 0" b] by (simp add: Let_def)
next
  case (4 a pa b pb)
  then show ?case using float_minus_swap [of b a] by (simp add: Let_def)
qed simp

text \<open>
  On finite components the loop decides the lexicographic order of the zero-padded sequences: \<open>part\<close>
  is the component the loop reads at an index.
\<close>

definition part :: "js_float list \<Rightarrow> nat \<Rightarrow> rat" where
  "part p i = (if i < length p then case p ! i of Finite q \<Rightarrow> q | _ \<Rightarrow> 0 else 0)"

lemma part_simps [simp]:
  "part [] i = 0" "part (Finite q # p) 0 = q" "part (a # p) (Suc i) = part p i"
  by (simp_all add: part_def)

definition decided_at :: "js_float list \<Rightarrow> js_float list \<Rightarrow> nat \<Rightarrow> bool" where
  "decided_at pa pb i \<longleftrightarrow> (\<forall>j < i. part pa j = part pb j) \<and> part pa i < part pb i"

lemma decided_at_Suc [simp]:
  "decided_at (a # pa) (b # pb) (Suc i) \<longleftrightarrow> part (a # pa) 0 = part (b # pb) 0 \<and> decided_at pa pb i"
  "decided_at [] (b # pb) (Suc i) \<longleftrightarrow> 0 = part (b # pb) 0 \<and> decided_at [] pb i"
  "decided_at (a # pa) [] (Suc i) \<longleftrightarrow> part (a # pa) 0 = 0 \<and> decided_at pa [] i"
  by (auto simp: decided_at_def All_less_Suc2)

lemma decided_at_0 [simp]: "decided_at pa pb 0 \<longleftrightarrow> part pa 0 < part pb 0"
  by (simp add: decided_at_def)

lemma ex_nat: "(\<exists>i. P i) \<longleftrightarrow> P 0 \<or> (\<exists>i. P (Suc i))"
  by (metis not0_implies_Suc)

lemma finite_num_cases: "finite_num x \<Longrightarrow> (\<And>q. x = Finite q \<Longrightarrow> thesis) \<Longrightarrow> thesis"
  by (cases x) auto

lemma cmp_parts_less_iff:
  "list_all finite_num pa \<Longrightarrow> list_all finite_num pb \<Longrightarrow>
    cmp_parts pa pb < 0 \<longleftrightarrow> (\<exists>i. decided_at pa pb i)"
proof (induction pa pb rule: cmp_parts.induct)
  case 1
  then show ?case by (simp add: decided_at_def)
next
  case (2 a pa)
  then obtain q where "a = Finite q" by (auto elim: finite_num_cases)
  with 2 show ?case by (subst ex_nat) (auto simp: Let_def)
next
  case (3 b pb)
  then obtain q where "b = Finite q" by (auto elim: finite_num_cases)
  with 3 show ?case by (subst ex_nat) (auto simp: Let_def)
next
  case (4 a pa b pb)
  then obtain q r where "a = Finite q" "b = Finite r" by (auto elim!: finite_num_cases)
  with 4 show ?case by (subst ex_nat) (auto simp: Let_def)
qed

lemma decided_at_total:
  "(\<exists>i. decided_at pa pb i) \<or> (\<exists>i. decided_at pb pa i) \<or> part pa = part pb"
proof (cases "part pa = part pb")
  case False
  then have ex: "\<exists>i. part pa i \<noteq> part pb i" by auto
  define i where "i = (LEAST i. part pa i \<noteq> part pb i)"
  have ne: "part pa i \<noteq> part pb i" unfolding i_def using ex by (rule LeastI_ex)
  have "\<forall>j < i. part pa j = part pb j" unfolding i_def using not_less_Least by blast
  with ne show ?thesis
    unfolding decided_at_def by (metis less_linear)
qed simp

lemma decided_at_trans:
  assumes "decided_at pa pb i" "decided_at pb pc j"
  shows "decided_at pa pc (min i j)"
  using assms unfolding decided_at_def
  by (cases i j rule: linorder_cases) (auto simp: min_def)

text \<open>Two versions compare equal exactly when their zero-padded components agree: \<open>1\<close> and \<open>1.0.0\<close> do.\<close>

lemma cmp_parts_eq_iff:
  assumes "list_all finite_num pa" "list_all finite_num pb"
  shows "cmp_parts pa pb = 0 \<longleftrightarrow> part pa = part pb"
proof -
  have "cmp_parts pa pb = 0 \<longleftrightarrow> \<not> cmp_parts pa pb < 0 \<and> \<not> cmp_parts pb pa < 0"
    using cmp_parts_swap [of pa pb] by auto
  also have "\<dots> \<longleftrightarrow> \<not> (\<exists>i. decided_at pa pb i) \<and> \<not> (\<exists>i. decided_at pb pa i)"
    using assms by (simp add: cmp_parts_less_iff)
  also have "\<dots> \<longleftrightarrow> part pa = part pb"
    using decided_at_total [of pa pb] by (auto simp: decided_at_def)
  finally show ?thesis .
qed

lemma cmp_parts_trans:
  assumes fin: "list_all finite_num pa" "list_all finite_num pb" "list_all finite_num pc"
    and le: "cmp_parts pa pb \<le> 0" "cmp_parts pb pc \<le> 0"
  shows "cmp_parts pa pc \<le> 0"
proof (rule ccontr)
  assume "\<not> cmp_parts pa pc \<le> 0"
  then have "cmp_parts pc pa < 0" using cmp_parts_swap [of pa pc] by simp
  then obtain k where k: "decided_at pc pa k" using fin by (auto simp: cmp_parts_less_iff)
  show False
  proof (cases "part pb = part pa")
    case True
    then have "decided_at pc pb k" using k by (simp add: decided_at_def)
    then have "cmp_parts pc pb < 0" using fin by (auto simp: cmp_parts_less_iff)
    with le(2) cmp_parts_swap [of pb pc] show False by simp
  next
    case False
    then have "cmp_parts pa pb \<noteq> 0" using fin cmp_parts_eq_iff [of pa pb] by auto
    with le(1) have "cmp_parts pa pb < 0" by simp
    then obtain i where "decided_at pa pb i" using fin by (auto simp: cmp_parts_less_iff)
    with k have "decided_at pc pb (min k i)" by (rule decided_at_trans)
    then have "cmp_parts pc pb < 0" using fin by (auto simp: cmp_parts_less_iff)
    with le(2) cmp_parts_swap [of pb pc] show False by simp
  qed
qed

section \<open>The interface of a version comparison\<close>

text \<open>
  What the floor checks rely on: a comparator on the versions that satisfy \<open>ok\<close>. From it follows that
  sorting and taking the first element yields a version no other one is below.
\<close>

locale version_order =
  fixes cmp :: "jsstring \<Rightarrow> jsstring \<Rightarrow> int" and ok :: "jsstring \<Rightarrow> bool"
  assumes swap: "cmp a b = - cmp b a"
    and trans: "ok a \<Longrightarrow> ok b \<Longrightarrow> ok d \<Longrightarrow> cmp a b \<le> 0 \<Longrightarrow> cmp b d \<le> 0 \<Longrightarrow> cmp a d \<le> 0"
begin

lemma comparator: "\<forall>v \<in> S. ok v \<Longrightarrow> comparator_on S cmp"
  unfolding comparator_on_def using swap trans by meson

lemma lowest:
  assumes "\<forall>v \<in> set vs. ok v" "v \<in> set vs"
  shows "hd (sort_by cmp vs) \<in> set vs \<and> cmp (hd (sort_by cmp vs)) v \<le> 0"
proof
  from assms(2) have "vs \<noteq> []" by auto
  then show "hd (sort_by cmp vs) \<in> set vs" by (rule hd_sort_by_in)
  show "cmp (hd (sort_by cmp vs)) v \<le> 0" by (rule hd_sort_by [OF comparator [OF assms(1)] assms(2)])
qed

text \<open>Testing the floor: when the lowest entry equals the floor, every entry is at or above it.\<close>

lemma floor_lowest:
  assumes ok: "\<forall>v \<in> set vs. ok v" "ok f" and v: "v \<in> set vs"
    and eq: "cmp (hd (sort_by cmp vs)) f = 0"
  shows "cmp f v \<le> 0"
proof -
  have low: "hd (sort_by cmp vs) \<in> set vs" "cmp (hd (sort_by cmp vs)) v \<le> 0"
    using lowest [OF ok(1) v] by auto
  have "cmp f (hd (sort_by cmp vs)) \<le> 0" using eq swap [of f] by simp
  then show ?thesis using trans [of f "hd (sort_by cmp vs)" v] ok v low by blast
qed

end

interpretation mo: version_order matrix_cmp numeric_parts
proof
  show "matrix_cmp a b = - matrix_cmp b a" for a b
    unfolding matrix_cmp_def by (rule cmp_parts_swap)
  show "numeric_parts a \<Longrightarrow> numeric_parts b \<Longrightarrow> numeric_parts d \<Longrightarrow>
      matrix_cmp a b \<le> 0 \<Longrightarrow> matrix_cmp b d \<le> 0 \<Longrightarrow> matrix_cmp a d \<le> 0" for a b d
    unfolding matrix_cmp_def numeric_parts_def by (rule cmp_parts_trans)
qed

interpretation dko: version_order docker_cmp "\<lambda>v. numeric_parts (strip_net v)"
proof
  show "docker_cmp a b = - docker_cmp b a" for a b
    unfolding docker_cmp_def by (rule cmp_parts_swap)
  show "numeric_parts (strip_net a) \<Longrightarrow> numeric_parts (strip_net b) \<Longrightarrow> numeric_parts (strip_net d) \<Longrightarrow>
      docker_cmp a b \<le> 0 \<Longrightarrow> docker_cmp b d \<le> 0 \<Longrightarrow> docker_cmp a d \<le> 0" for a b d
    unfolding docker_cmp_def numeric_parts_def by (rule cmp_parts_trans)
qed

text \<open>
  \<^bold>\<open>C24.\<close> Version comparison. On versions with numeric components \<open>cmp\<close> is zero exactly when the
  zero-padded components agree, negative exactly when the first differing component is smaller, and
  exchanging the arguments negates it.
\<close>

theorem matrix_cmp_lexicographic:
  assumes "numeric_parts a" "numeric_parts b"
  shows "(matrix_cmp a b = 0 \<longleftrightarrow> part (version_parts a) = part (version_parts b)) \<and>
    (matrix_cmp a b < 0 \<longleftrightarrow>
      (\<exists>i. (\<forall>j < i. part (version_parts a) j = part (version_parts b) j) \<and>
           part (version_parts a) i < part (version_parts b) i)) \<and>
    matrix_cmp b a = - matrix_cmp a b"
proof (intro conjI)
  show "matrix_cmp b a = - matrix_cmp a b" by (rule mo.swap)
qed (use assms in \<open>simp_all add: matrix_cmp_def numeric_parts_def cmp_parts_eq_iff
  cmp_parts_less_iff decided_at_def\<close>)

theorem matrix_cmp_lexicographic_witness:
  "(\<forall>i. part (version_parts (js ''3.9'')) i = part (version_parts (js ''3.9.0'')) i) \<and>
   matrix_cmp (js ''3.9'') (js ''3.9.0'') = 0"
proof -
  have "numeric_parts (js ''3.9'')" "numeric_parts (js ''3.9.0'')" "matrix_cmp (js ''3.9'') (js ''3.9.0'') = 0"
    by (simp_all add: numeric_parts_def matrix_cmp_def version_parts_def js_eval)
  with matrix_cmp_lexicographic [of "js ''3.9''" "js ''3.9.0''"] show ?thesis by metis
qed

end
