(* ===== verification/Digest_Pin.thy ===== *)
theory Digest_Pin
  imports Js_Lib
begin

text \<open>
  The digest pin of a container image, the pattern \<open>docker-test.mjs\<close> and \<open>check-actions-pinned.mjs\<close>
  share, and what it accepts.
\<close>

definition DIGEST_RE :: regex where \<comment> \<open>\<open>/@sha256:[0-9a-f]{64}$/\<close>\<close>
  "DIGEST_RE = RSeqs [RLit (js ''@sha256:''),
     RTimes 64 (RChar (\<lambda>c. is_digit c \<or> (97 \<le> c \<and> c \<le> 102))), REol False]"

text \<open>An image pinned by digest: any reference, \<open>@sha256:\<close>, 64 lower-case hexadecimal digits.\<close>

definition digest_pinned :: "jsstring \<Rightarrow> bool" where
  "digest_pinned img \<longleftrightarrow>
     (\<exists>u d. img = u @ js ''@sha256:'' @ d \<and> length d = 64 \<and>
        list_all (\<lambda>c. is_digit c \<or> (97 \<le> c \<and> c \<le> 102)) d)"

lemma test_DIGEST_RE: "test DIGEST_RE img \<longleftrightarrow> digest_pinned img"
proof -
  let ?hex = "\<lambda>c :: cu. is_digit c \<or> (97 \<le> c \<and> c \<le> 102)"
  have "rmatch DIGEST_RE (b, v, []) \<noteq> [] \<longleftrightarrow>
      (\<exists>d. v = js ''@sha256:'' @ d \<and> length d = 64 \<and> list_all ?hex d)" for b v
  proof (cases "take (length (js ''@sha256:'')) v = js ''@sha256:''")
    case False
    then have "rmatch DIGEST_RE (b, v, []) = []" by (simp add: DIGEST_RE_def rmatch_RLit)
    moreover from False have "\<nexists>d. v = js ''@sha256:'' @ d" by auto
    ultimately show ?thesis by blast
  next
    case True
    then obtain d where v: "v = js ''@sha256:'' @ d" by (metis append_take_drop_id)
    then have "rmatch DIGEST_RE (b, v, []) =
        concat (map (rmatch (REol False)) (rmatch (RTimes 64 (RChar ?hex)) (rev (js ''@sha256:'') @ b, d, [])))"
      by (simp add: DIGEST_RE_def rmatch_RLit)
    also have "\<dots> \<noteq> [] \<longleftrightarrow> length d = 64 \<and> list_all ?hex d"
      by (simp add: rmatch_RTimes_RChar)
    finally show ?thesis using v by simp
  qed
  then show ?thesis unfolding test_iff digest_pinned_def by auto
qed

lemma digest_pinned_not_Nil: "digest_pinned img \<Longrightarrow> img \<noteq> []"
  by (auto simp: digest_pinned_def)

text \<open>A commit: 40 lower-case hexadecimal digits.\<close>

abbreviation lower_hex :: "cu \<Rightarrow> bool" where
  "lower_hex c \<equiv> is_digit c \<or> (97 \<le> c \<and> c \<le> 102)"

definition COMMIT_RE :: regex where \<comment> \<open>\<open>/^[0-9a-f]{40}$/\<close>\<close>
  "COMMIT_RE = RSeqs [RBol False, RTimes 40 (RChar lower_hex), REol False]"

lemma test_COMMIT_RE: "test COMMIT_RE v \<longleftrightarrow> length v = 40 \<and> list_all lower_hex v"
  unfolding COMMIT_RE_def by (rule test_class_times)

end
