(* ===== verification/Docker_Test.thy ===== *)
theory Docker_Test
  imports Dotted_Version Digest_Pin
begin

text \<open>
  The conformance harness, \<open>scripts/docker-test.mjs\<close>: the reader of \<open>docker/compose.yml\<close>, the offline
  validation \<open>--check\<close>, the run over the ten suites and the command line.

  A file the script reads is the string \<open>readFileSync\<close> returned; \<open>.github/runtime-matrix.json\<close> is its
  parsed value; directory listings, \<open>existsSync\<close> and \<open>spawnSync\<close> results are arguments. A problem the
  check reports is a value of \<open>docker_problem\<close>, one constructor per message of the source.
\<close>

section \<open>Reading \<open>docker/compose.yml\<close>\<close>

record service =
  sv_name :: jsstring
  sv_line :: nat
  sv_image :: "jsstring option"
  sv_comment :: "jsstring option"
  sv_floor :: "(jsstring \<times> jsstring) option" \<comment> \<open>runtime, version\<close>
  sv_workingDir :: "jsstring option"
  sv_parity :: "jsstring option"
  sv_volumes :: "jsstring list"
  sv_tmpfs :: "jsstring list"
  sv_command :: "(jsstring \<times> nat) list" \<comment> \<open>text, line\<close>

definition new_service :: "jsstring \<Rightarrow> nat \<Rightarrow> service" where
  "new_service name n = \<lparr> sv_name = name, sv_line = n, sv_image = None, sv_comment = None,
     sv_floor = None, sv_workingDir = None, sv_parity = None, sv_volumes = [], sv_tmpfs = [],
     sv_command = [] \<rparr>"

abbreviation not_space :: "cu \<Rightarrow> bool" where "not_space c \<equiv> \<not> is_space c"

abbreviation is_letter :: "cu \<Rightarrow> bool" where
  "is_letter c \<equiv> (65 \<le> c \<and> c \<le> 90) \<or> (97 \<le> c \<and> c \<le> 122)"

abbreviation name_char :: "cu \<Rightarrow> bool" where "name_char c \<equiv> is_word_char c \<or> c = 45"

abbreviation sp :: "nat \<Rightarrow> regex" where "sp n \<equiv> RTimes n (RChar (\<lambda>c. c = 32))"

text \<open>The patterns of \<open>parseCompose\<close>, in the order in which it tries them.\<close>

definition SERVICES_RE :: regex where \<comment> \<open>\<open>/^services:\s*$/\<close>\<close>
  "SERVICES_RE = RSeqs [RBol False, RLit (js ''services:''), RSpaces, REol False]"

definition TOP_RE :: regex where \<comment> \<open>\<open>/^[A-Za-z]/\<close>\<close>
  "TOP_RE = RSeqs [RBol False, RChar is_letter]"

definition BLANK_RE :: regex where \<comment> \<open>\<open>/^\s*$/\<close>\<close>
  "BLANK_RE = RSeqs [RBol False, RSpaces, REol False]"

definition BODY_RE :: regex where \<comment> \<open>\<open>/^ {8}\S/\<close>\<close>
  "BODY_RE = RSeqs [RBol False, sp 8, RChar not_space]"

definition SERVICE_RE :: regex where \<comment> \<open>\<open>/^ {2}([A-Za-z][\w-]*):\s*$/\<close>\<close>
  "SERVICE_RE = RSeqs [RBol False, sp 2,
     RGroup 1 (RSeq (RChar is_letter) (RStar True (RChar name_char))),
     RLit (js '':''), RSpaces, REol False]"

definition IMAGE_RE :: regex where \<comment> \<open>\<open>/^ {4}image:\s*(\S+)\s*(?:#\s*(.+?))?\s*$/\<close>\<close>
  "IMAGE_RE = RSeqs [RBol False, sp 4, RLit (js ''image:''), RSpaces,
     RGroup 1 (RPlus True (RChar not_space)), RSpaces,
     ROpt (RSeqs [RLit (js ''#''), RSpaces, RGroup 2 (RPlus False RDot)]), RSpaces, REol False]"

definition FLOOR_RE :: regex where \<comment> \<open>\<open>/^ {4}x-floor:\s*(\S+)\s+(\S+)\s*$/\<close>\<close>
  "FLOOR_RE = RSeqs [RBol False, sp 4, RLit (js ''x-floor:''), RSpaces,
     RGroup 1 (RPlus True (RChar not_space)), RPlus True (RChar is_space),
     RGroup 2 (RPlus True (RChar not_space)), RSpaces, REol False]"

definition field_RE :: "string \<Rightarrow> regex" where \<comment> \<open>\<open>/^ {4}x-ci-parity:\s*(\S+)\s*$/\<close>, \<open>working_dir\<close>\<close>
  "field_RE k = RSeqs [RBol False, sp 4, RLit (js k), RLit (js '':''), RSpaces,
     RGroup 1 (RPlus True (RChar not_space)), RSpaces, REol False]"

definition KEY_RE :: regex where \<comment> \<open>\<open>/^ {4}([\w-]+):\s*$/\<close>\<close>
  "KEY_RE = RSeqs [RBol False, sp 4, RGroup 1 (RPlus True (RChar name_char)), RLit (js '':''),
     RSpaces, REol False]"

definition ITEM_RE :: regex where \<comment> \<open>\<open>/^ {6}-\s*(.+?)\s*$/\<close>\<close>
  "ITEM_RE = RSeqs [RBol False, sp 6, RLit (js ''-''), RSpaces, RGroup 1 (RPlus False RDot),
     RSpaces, REol False]"

text \<open>
  The variables of the loop. \<open>cur\<close> is the last service pushed until it is reset to \<open>null\<close>; here it is
  kept apart and joins the finished services when that happens.
\<close>

record compose_state =
  cs_done :: "service list"
  cs_inServices :: bool
  cs_cur :: "service option"
  cs_section :: "jsstring option"
  cs_collecting :: bool

definition services_of :: "compose_state \<Rightarrow> service list" where
  "services_of st = cs_done st @ (case cs_cur st of None \<Rightarrow> [] | Some s \<Rightarrow> [s])"

definition upd_cur :: "(service \<Rightarrow> service) \<Rightarrow> compose_state \<Rightarrow> compose_state" where
  "upd_cur f st = st\<lparr> cs_cur := map_option f (cs_cur st) \<rparr>"

text \<open>Lines 87 to 107: a field, a key or a list item of the current service.\<close>

definition compose_field :: "jsstring \<Rightarrow> compose_state \<Rightarrow> compose_state" where
  "compose_field line st =
     (case exec IMAGE_RE line of Some m \<Rightarrow>
        (upd_cur (\<lambda>s. s\<lparr> sv_image := group m 1, sv_comment := group m 2 \<rparr>) st)\<lparr> cs_section := None \<rparr>
      | None \<Rightarrow>
      case exec FLOOR_RE line of Some m \<Rightarrow>
        (upd_cur (\<lambda>s. s\<lparr> sv_floor := Some (the (group m 1), the (group m 2)) \<rparr>) st)
          \<lparr> cs_section := None \<rparr>
      | None \<Rightarrow>
      case exec (field_RE ''x-ci-parity'') line of Some m \<Rightarrow>
        (upd_cur (\<lambda>s. s\<lparr> sv_parity := group m 1 \<rparr>) st)\<lparr> cs_section := None \<rparr>
      | None \<Rightarrow>
      case exec (field_RE ''working_dir'') line of Some m \<Rightarrow>
        (upd_cur (\<lambda>s. s\<lparr> sv_workingDir := group m 1 \<rparr>) st)\<lparr> cs_section := None \<rparr>
      | None \<Rightarrow>
      case exec KEY_RE line of Some m \<Rightarrow>
        st\<lparr> cs_section :=
              (if the (group m 1) \<in> set [js ''volumes'', js ''tmpfs'', js ''command'']
               then group m 1 else None) \<rparr>
      | None \<Rightarrow>
      case exec ITEM_RE line of Some m \<Rightarrow>
        let item = the (group m 1) in
        if cs_section st = Some (js ''volumes'') then
          upd_cur (\<lambda>s. s\<lparr> sv_volumes := sv_volumes s @ [item] \<rparr>) st
        else if cs_section st = Some (js ''tmpfs'') then
          upd_cur (\<lambda>s. s\<lparr> sv_tmpfs := sv_tmpfs s @ [item] \<rparr>) st
        else if cs_section st = Some (js ''command'') \<and> item = js ''|'' then
          st\<lparr> cs_collecting := True \<rparr>
        else st
      | None \<Rightarrow> st)"

text \<open>Lines 78 to 85: a service header, or a line of the current service.\<close>

definition compose_entry :: "jsstring \<times> nat \<Rightarrow> compose_state \<Rightarrow> compose_state" where
  "compose_entry la st = (case la of (line, n) \<Rightarrow>
     case exec SERVICE_RE line of Some m \<Rightarrow>
       st\<lparr> cs_done := services_of st, cs_cur := Some (new_service (the (group m 1)) n),
           cs_section := None \<rparr>
     | None \<Rightarrow> if cs_cur st = None then st else compose_field line st)"

text \<open>Line 68: a line that starts with a letter opens or leaves the \<open>services\<close> block.\<close>

definition compose_top :: "jsstring \<Rightarrow> compose_state \<Rightarrow> compose_state" where
  "compose_top line st =
     (if test TOP_RE line
      then st\<lparr> cs_inServices := startsWith line (js ''services:''), cs_done := services_of st,
               cs_cur := None, cs_section := None, cs_collecting := False \<rparr>
      else st)"

definition compose_line :: "jsstring \<times> nat \<Rightarrow> compose_state \<Rightarrow> compose_state" where
  "compose_line la st = (case la of (line, n) \<Rightarrow>
     if test SERVICES_RE line then st\<lparr> cs_inServices := True \<rparr>
     else
       let st = compose_top line st in
       if \<not> cs_inServices st \<or> test BLANK_RE line then st
       else if cs_collecting st \<and> test BODY_RE line then
         upd_cur (\<lambda>s. s\<lparr> sv_command := sv_command s @ [(trim line, n)] \<rparr>) st
       else compose_entry (line, n) (st\<lparr> cs_collecting := False \<rparr>))"

definition compose_init :: compose_state where
  "compose_init = \<lparr> cs_done = [], cs_inServices = False, cs_cur = None, cs_section = None,
     cs_collecting = False \<rparr>"

text \<open>The lines with their numbers, \<open>i + 1\<close>.\<close>

definition numbered :: "jsstring \<Rightarrow> (jsstring \<times> nat) list" where
  "numbered txt = zip (lines txt) [1..<Suc (length (lines txt))]"

definition parseCompose :: "jsstring \<Rightarrow> service list" where
  "parseCompose txt = services_of (fold compose_line (numbered txt) compose_init)"

section \<open>Helpers of the check\<close>

text \<open>\<open>s.replaceAll("$$", "$")\<close>.\<close>

fun unescape_dollar :: "jsstring \<Rightarrow> jsstring" where
  "unescape_dollar [] = []"
| "unescape_dollar [c] = [c]"
| "unescape_dollar (c # d # s) =
     (if c = 36 \<and> d = 36 then 36 # unescape_dollar s else c # unescape_dollar (d # s))"

definition COMMENT_RE :: regex where \<comment> \<open>\<open>/^(.*?)\s#\s(.*)$/\<close>\<close>
  "COMMENT_RE = RSeqs [RBol False, RGroup 1 (RStar False RDot), RChar is_space, RLit (js ''#''),
     RChar is_space, RGroup 2 (RStar True RDot), REol False]"

definition splitComment :: "jsstring \<Rightarrow> jsstring \<times> jsstring option" where
  "splitComment txt =
     (case exec COMMENT_RE txt of
        Some m \<Rightarrow> (trim (the (group m 1)), Some (trim (the (group m 2))))
      | None \<Rightarrow> (trim txt, None))"

definition DASH_RE :: regex where \<comment> \<open>white space, an em dash or a hyphen, white space\<close>
  "DASH_RE = RSeqs [RPlus True (RChar is_space), RChar (\<lambda>c. c = 0x2014 \<or> c = 45),
     RPlus True (RChar is_space)]"

definition tagOf :: "service \<Rightarrow> jsstring" where
  "tagOf s =
     (let t = trim (split_first DASH_RE (case sv_comment s of None \<Rightarrow> [] | Some c \<Rightarrow> c))
      in if t = [] then js ''(no tag comment)'' else t)"

text \<open>The jobs of \<open>.github/workflows/ci.yml\<close>, their lines trimmed and without comments.\<close>

definition JOBS_RE :: regex where
  "JOBS_RE = RSeqs [RBol False, RLit (js ''jobs:''), RSpaces, REol False]"

definition HASH_RE :: regex where
  "HASH_RE = RSeqs [RBol False, RSpaces, RLit (js ''#'')]"

text \<open>
  \<open>jobs.set(m[1], cur)\<close> with an empty \<open>cur\<close> replaces an earlier job of the same name in place; the
  current job is the entry under its name.
\<close>

type_synonym jobs = "(jsstring \<times> jsstring list) list"

definition ci_line :: "jsstring \<Rightarrow> bool \<times> jsstring option \<times> jobs \<Rightarrow> bool \<times> jsstring option \<times> jobs" where
  "ci_line line st = (case st of (inJobs, cur, jobs) \<Rightarrow>
     if test JOBS_RE line then (True, cur, jobs)
     else
       let (inJobs, cur) = (if test TOP_RE line then (False, None) else (inJobs, cur)) in
       if \<not> inJobs then (inJobs, cur, jobs)
       else case exec SERVICE_RE line of
         Some m \<Rightarrow> let k = the (group m 1) in (inJobs, Some k, map_set k [] jobs)
       | None \<Rightarrow>
         (case cur of
            Some k \<Rightarrow>
              if test HASH_RE line then (inJobs, cur, jobs)
              else (inJobs, cur, map_set k (the (map_of jobs k) @ [trim line]) jobs)
          | None \<Rightarrow> (inJobs, cur, jobs)))"

definition ciJobs :: "jsstring \<Rightarrow> jobs" where
  "ciJobs txt = snd (snd (fold ci_line (lines txt) (False, None, [])))"

text \<open>The lowest numeric version the matrix lists for a runtime.\<close>

definition NUMERIC_RE :: regex where \<comment> \<open>\<open>/^(net)?\d/\<close>\<close>
  "NUMERIC_RE = RSeqs [RBol False, ROpt (RGroup 1 (RLit (js ''net''))), RChar is_digit]"

definition flat_entry :: "matrix_entry \<Rightarrow> jsstring option" where
  "flat_entry e = (case e of Version v \<Rightarrow> Some v
     | Entry _ \<Rightarrow> (case entry_prop e (js ''framework'') of Some v \<Rightarrow> Some v
                   | None \<Rightarrow> entry_prop e (js ''elixir'')))"

definition numeric_entries :: "matrix_entry list \<Rightarrow> jsstring list" where
  "numeric_entries listed =
     filter (\<lambda>v. v \<noteq> [] \<and> test NUMERIC_RE v) (List.map_filter flat_entry listed)"

definition declaredFloor :: "runtime_matrix \<Rightarrow> jsstring \<Rightarrow> jsstring option" where
  "declaredFloor matrix runtime =
     (case map_of matrix runtime of
        None \<Rightarrow> None
      | Some listed \<Rightarrow>
          if listed = [] then None
          else
            let nums = numeric_entries listed
            in if nums = [] then None else Some (hd (sort_by docker_cmp nums)))"

section \<open>The offline check\<close>

datatype docker_problem =
    PackageUncovered jsstring
  | ServiceWithoutPackage nat jsstring
  | RepoAnchor "jsstring option"
  | WorkAnchor "jsstring option"
  | NoImage nat jsstring
  | MutableTag nat jsstring jsstring
  | NoTagComment nat jsstring
  | NoFloor nat jsstring
  | UnknownRuntime nat jsstring jsstring
  | FloorMoved nat jsstring jsstring jsstring
  | CommentLacksFloor nat jsstring jsstring jsstring
  | WorkingDir nat jsstring "jsstring option"
  | NoRepoMount nat jsstring
  | NoWorkMount nat jsstring
  | NotStaged nat jsstring "jsstring option"
  | NoJob nat jsstring
  | ExemptNoReason nat jsstring
  | NotInJob nat jsstring jsstring
  | NothingChecked nat jsstring
  | ParityStale nat jsstring nat
  | NoStageScript
  | ComposeRejected jsstring

definition anchor_RE :: "string \<Rightarrow> regex" where
  \<comment> \<open>\<open>/^x-repo:\s*&repo\s*"(.+)"\s*$/m\<close>, and the same with \<open>work\<close>\<close>
  "anchor_RE k = RSeqs [RBol True, RLit (js ''x-''), RLit (js k), RLit (js '':''), RSpaces,
     RLit (js ''&''), RLit (js k), RSpaces, RLit [34], RGroup 1 (RPlus True RDot), RLit [34],
     RSpaces, REol True]"

text \<open>1. Every implementation is covered, and nothing else is.\<close>

definition coverage_problems :: "service list \<Rightarrow> jsstring list \<Rightarrow> docker_problem list" where
  "coverage_problems services dirs =
     (let packages = sort_by byCodeUnit dirs in
      map PackageUncovered (filter (\<lambda>p. p \<notin> set (map sv_name services)) packages) @
      map (\<lambda>s. ServiceWithoutPackage (sv_line s) (sv_name s))
        (filter (\<lambda>s. sv_name s \<notin> set packages) services))"

text \<open>2. The shared mounts.\<close>

definition anchor_problems :: "jsstring \<Rightarrow> docker_problem list" where
  "anchor_problems compose =
     (let repo = match_group (anchor_RE ''repo'') compose 1;
          work = match_group (anchor_RE ''work'') compose 1
      in (if repo \<noteq> Some (js ''../:/repo:ro'') then [RepoAnchor repo] else []) @
         (if work \<noteq> Some (js ''/work:exec'') then [WorkAnchor work] else []))"

text \<open>3. Digest pins with the tag in a comment.\<close>

definition image_problems :: "service \<Rightarrow> docker_problem list" where
  "image_problems s =
     (if \<not> truthy (sv_image s) then [NoImage (sv_line s) (sv_name s)]
      else if \<not> test DIGEST_RE (the (sv_image s)) then
        [MutableTag (sv_line s) (sv_name s) (the (sv_image s))]
      else if \<not> truthy (sv_comment s) then [NoTagComment (sv_line s) (sv_name s)]
      else [])"

text \<open>4. The image is the declared floor.\<close>

definition floor_problems :: "runtime_matrix \<Rightarrow> service \<Rightarrow> docker_problem list" where
  "floor_problems matrix s =
     (case sv_floor s of
        None \<Rightarrow> [NoFloor (sv_line s) (sv_name s)]
      | Some (runtime, version) \<Rightarrow>
          (case declaredFloor matrix runtime of
             None \<Rightarrow> [UnknownRuntime (sv_line s) (sv_name s) runtime]
           | Some lowest \<Rightarrow>
               if docker_cmp lowest version \<noteq> 0 then
                 [FloorMoved (sv_line s) (sv_name s) version lowest]
               else if truthy (sv_comment s) \<and> \<not> str_includes (the (sv_comment s)) version then
                 [CommentLacksFloor (sv_line s) (sv_name s) (the (sv_comment s)) version]
               else []))"

text \<open>5. The working directory, the mounts, the staging.\<close>

definition first_command :: "service \<Rightarrow> jsstring option" where
  "first_command s =
     (case sv_command s of [] \<Rightarrow> None | (txt, _) # _ \<Rightarrow> Some (fst (splitComment txt)))"

definition staging_problems :: "service \<Rightarrow> docker_problem list" where
  "staging_problems s =
     (if sv_workingDir s \<noteq> Some (js ''/work/packages/'' @ sv_name s)
      then [WorkingDir (sv_line s) (sv_name s) (sv_workingDir s)] else []) @
     (if js ''*repo'' \<notin> set (sv_volumes s) then [NoRepoMount (sv_line s) (sv_name s)] else []) @
     (if js ''*work'' \<notin> set (sv_tmpfs s) then [NoWorkMount (sv_line s) (sv_name s)] else []) @
     (if first_command s \<noteq> Some (js ''sh /repo/docker/stage.sh '' @ sv_name s)
      then [NotStaged (sv_line s) (sv_name s) (first_command s)] else [])"

text \<open>6. Command parity with the CI job of the same name: one command line.\<close>

datatype parity = Skipped | Exempt "docker_problem list" | Missing docker_problem | Asserted

definition REASON_RE :: regex where \<comment> \<open>\<open>/^not-in-ci:\s*/\<close>\<close>
  "REASON_RE = RSeqs [RBol False, RLit (js ''not-in-ci:''), RSpaces]"

definition command_parity :: "jsstring \<Rightarrow> jsstring list \<Rightarrow> jsstring \<times> nat \<Rightarrow> parity" where
  "command_parity name job cmd = (case cmd of (txt, line) \<Rightarrow>
     case splitComment txt of (command, comment) \<Rightarrow>
       if command = [] \<or> startsWith command (js ''#'') then Skipped
       else if comment \<noteq> None \<and> startsWith (the comment) (js ''not-in-ci:'') then
         Exempt (if length (replaceFirst REASON_RE (\<lambda>_. []) (the comment)) < 4
                 then [ExemptNoReason line command] else [])
       else
         let want = unescape_dollar command in
         if \<not> list_ex (\<lambda>l. str_includes l want) job then Missing (NotInJob line want name)
         else Asserted)"

fun parity_problems :: "parity \<Rightarrow> docker_problem list" where
  "parity_problems Skipped = []"
| "parity_problems (Exempt ps) = ps"
| "parity_problems (Missing p) = [p]"
| "parity_problems Asserted = []"

fun is_exempt :: "parity \<Rightarrow> bool" where
  "is_exempt (Exempt _) = True"
| "is_exempt _ = False"

text \<open>The commands the loop runs over, with their outcomes: none when the job is missing.\<close>

definition parities :: "jobs \<Rightarrow> service \<Rightarrow> parity list" where
  "parities jobs s =
     (case map_of jobs (sv_name s) of
        None \<Rightarrow> []
      | Some job \<Rightarrow> map (command_parity (sv_name s) job) (drop 1 (sv_command s)))"

definition asserted :: "jobs \<Rightarrow> service \<Rightarrow> nat" where
  "asserted jobs s = length (filter (\<lambda>p. p = Asserted) (parities jobs s))"

definition exempt :: "jobs \<Rightarrow> service \<Rightarrow> nat" where
  "exempt jobs s = length (filter is_exempt (parities jobs s))"

definition ci_problems :: "jobs \<Rightarrow> service \<Rightarrow> docker_problem list" where
  "ci_problems jobs s =
     (if map_of jobs (sv_name s) = None then [NoJob (sv_line s) (sv_name s)] else []) @
     concat (map parity_problems (parities jobs s)) @
     (if asserted jobs s = 0 \<and> sv_parity s \<noteq> Some (js ''explained'')
      then [NothingChecked (sv_line s) (sv_name s)] else []) @
     (if asserted jobs s > 0 \<and> sv_parity s = Some (js ''explained'')
      then [ParityStale (sv_line s) (sv_name s) (asserted jobs s)] else [])"

definition service_problems :: "runtime_matrix \<Rightarrow> jobs \<Rightarrow> service \<Rightarrow> docker_problem list" where
  "service_problems matrix jobs s =
     image_problems s @ floor_problems matrix s @ staging_problems s @ ci_problems jobs s"

text \<open>8. \<open>docker compose config\<close>: a missing CLI is only noted.\<close>

definition config_problems :: "spawn_result \<Rightarrow> docker_problem list" where
  "config_problems cli =
     (if sp_error cli = Some (js ''ENOENT'') then []
      else if sp_status cli \<noteq> Some 0 then
        [ComposeRejected (trim (if sp_stderr cli \<noteq> [] then sp_stderr cli else sp_stdout cli))]
      else [])"

text \<open>What the check reads.\<close>

record harness =
  h_composeExists :: bool
  h_compose :: jsstring
  h_packages :: "jsstring list" \<comment> \<open>the directories under \<open>packages/\<close>\<close>
  h_matrix :: runtime_matrix
  h_ci :: jsstring
  h_stage :: bool
  h_config :: spawn_result

definition check_problems :: "harness \<Rightarrow> docker_problem list" where
  "check_problems h =
     (let services = parseCompose (h_compose h); jobs = ciJobs (h_ci h) in
      coverage_problems services (h_packages h) @ anchor_problems (h_compose h) @
      concat (map (service_problems (h_matrix h) jobs) services) @
      (if \<not> h_stage h then [NoStageScript] else []) @ config_problems (h_config h))"

text \<open>The rows of the table a successful check prints.\<close>

record check_row =
  cr_name :: jsstring
  cr_tag :: jsstring
  cr_floor :: jsstring
  cr_asserted :: nat
  cr_exempt :: nat

definition check_rows :: "harness \<Rightarrow> check_row list" where
  "check_rows h = (let jobs = ciJobs (h_ci h) in
     map (\<lambda>s. \<lparr> cr_name = sv_name s, cr_tag = tagOf s,
               cr_floor = (case sv_floor s of Some (r, v) \<Rightarrow> r @ js '' '' @ v | None \<Rightarrow> js ''?''),
               cr_asserted = asserted jobs s, cr_exempt = exempt jobs s \<rparr>)
       (parseCompose (h_compose h)))"

section \<open>Running the suites\<close>

datatype docker_failure = CliMissing | PluginMissing | DaemonUnreachable "int option"

definition requireDocker ::
  "spawn_result \<Rightarrow> spawn_result \<Rightarrow> spawn_result \<Rightarrow> docker_failure + jsstring \<times> jsstring" where
  "requireDocker cli plugin daemon =
     (if sp_error cli = Some (js ''ENOENT'') then Inl CliMissing
      else if sp_status plugin \<noteq> Some 0 then Inl PluginMissing
      else if sp_status daemon \<noteq> Some 0 then Inl (DaemonUnreachable (sp_status daemon))
      else Inr (trim (sp_stdout cli), trim (sp_stdout daemon)))"

text \<open>\<open>human(ms)\<close>: \<open>Math.round\<close> rounds half up.\<close>

definition human :: "nat \<Rightarrow> jsstring" where
  "human ms =
     (let s = (ms + 500) div 1000 in
      if s < 60 then decimal s @ js ''s''
      else decimal (s div 60) @ js ''m '' @
           (let d = decimal (s mod 60) in replicate (2 - length d) 48 @ d) @ js ''s'')"

record suite_result =
  sr_name :: jsstring
  sr_ok :: bool
  sr_ms :: nat
  sr_note :: jsstring

text \<open>
  One suite: \<open>exit_of\<close> is \<open>Inl msg\<close> when the process could not be started, and the exit status
  otherwise, \<open>None\<close> when a signal ended it.
\<close>

definition exit_text :: "int option \<Rightarrow> jsstring" where
  "exit_text st = (case st of None \<Rightarrow> js ''null''
     | Some n \<Rightarrow> (if n < 0 then js ''-'' else []) @ decimal (nat \<bar>n\<bar>))"

definition suite_result_of :: "jsstring \<Rightarrow> (jsstring + int option) \<Rightarrow> nat \<Rightarrow> suite_result" where
  "suite_result_of name exit_of ms = (case exit_of of
     Inl msg \<Rightarrow> \<lparr> sr_name = name, sr_ok = False, sr_ms = ms, sr_note = msg \<rparr>
   | Inr status \<Rightarrow> \<lparr> sr_name = name, sr_ok = (status = Some 0), sr_ms = ms,
       sr_note = (if status = Some 0 then [] else js ''exit '' @ exit_text status) \<rparr>)"

definition run_suites :: "(jsstring \<Rightarrow> (jsstring + int option) \<times> nat) \<Rightarrow> jsstring list \<Rightarrow> suite_result list" where
  "run_suites suite names = map (\<lambda>n. case suite n of (e, ms) \<Rightarrow> suite_result_of n e ms) names"

definition run_status :: "suite_result list \<Rightarrow> int" where
  "run_status results = (if filter (\<lambda>r. \<not> sr_ok r) results \<noteq> [] then 1 else 0)"

section \<open>The command line\<close>

datatype docker_outcome =
    NoCompose
  | NoServices
  | Help bool \<comment> \<open>with an unknown option\<close>
  | Listed "(jsstring \<times> jsstring \<times> jsstring) list"
  | CheckFailed "docker_problem list"
  | CheckOk "check_row list"
  | NoSuchLanguage "jsstring list"
  | DockerMissing docker_failure
  | Ran "suite_result list"

fun exit_code :: "docker_outcome \<Rightarrow> int" where
  "exit_code NoCompose = 2"
| "exit_code NoServices = 2"
| "exit_code (Help unknown) = (if unknown then 2 else 0)"
| "exit_code (Listed _) = 0"
| "exit_code (CheckFailed _) = 1"
| "exit_code (CheckOk _) = 0"
| "exit_code (NoSuchLanguage _) = 2"
| "exit_code (DockerMissing _) = 2"
| "exit_code (Ran rs) = run_status rs"

definition known_flags :: "jsstring list" where
  "known_flags = map js [''--check'', ''--list'', ''--help'', ''-h'']"

text \<open>
  The probes and the suites are what the machine answers; an unknown option adds \<open>--help\<close>, which goes
  before \<open>--list\<close>, \<open>--check\<close> and the languages.
\<close>

record machine =
  mc_cli :: spawn_result
  mc_plugin :: spawn_result
  mc_daemon :: spawn_result
  mc_suite :: "jsstring \<Rightarrow> (jsstring + int option) \<times> nat"

definition list_rows :: "service list \<Rightarrow> (jsstring \<times> jsstring \<times> jsstring) list" where
  "list_rows = map (\<lambda>s. (sv_name s, tagOf s,
     case sv_floor s of Some (r, v) \<Rightarrow> js ''floor '' @ r @ js '' '' @ v | None \<Rightarrow> []))"

definition docker_main :: "harness \<Rightarrow> machine \<Rightarrow> jsstring list \<Rightarrow> docker_outcome" where
  "docker_main h m args =
     (let services = parseCompose (h_compose h);
          flags = filter (\<lambda>a. startsWith a (js ''-'')) args;
          names = filter (\<lambda>a. \<not> startsWith a (js ''-'')) args;
          unknown_flag = list_ex (\<lambda>f. f \<notin> set known_flags) flags;
          unknown = filter (\<lambda>n. n \<notin> set (map sv_name services)) names
      in
      if \<not> h_composeExists h then NoCompose
      else if services = [] then NoServices
      else if unknown_flag \<or> js ''--help'' \<in> set flags \<or> js ''-h'' \<in> set flags then Help unknown_flag
      else if js ''--list'' \<in> set flags then Listed (list_rows services)
      else if js ''--check'' \<in> set flags then
        (let ps = check_problems h in if ps \<noteq> [] then CheckFailed ps else CheckOk (check_rows h))
      else if unknown \<noteq> [] then NoSuchLanguage unknown
      else case requireDocker (mc_cli m) (mc_plugin m) (mc_daemon m) of
        Inl e \<Rightarrow> DockerMissing e
      | Inr _ \<Rightarrow> Ran (run_suites (mc_suite m) (if names \<noteq> [] then names else map sv_name services)))"

end
