(* ===== verification/Docker_Check.thy ===== *)
theory Docker_Check
  imports Docker_Test
begin

text \<open>
  What the harness check establishes (\<open>scripts/docker-test.mjs\<close>): the reader of the compose file
  attributes names and commands to the lines they stand on, the floor is a lowest tested version, the
  check passes exactly for harnesses that meet its specification, and the exit status of a run.
\<close>

section \<open>The reader\<close>

text \<open>
  Where a service comes from, in a file with the lines \<open>L\<close> of which \<open>k\<close> have been read: its name is
  that of the header on its line, and its commands are the trimmed body lines below.
\<close>

definition service_from :: "jsstring list \<Rightarrow> nat \<Rightarrow> service \<Rightarrow> bool" where
  "service_from L k s \<longleftrightarrow>
     1 \<le> sv_line s \<and> sv_line s \<le> k \<and>
     match_group SERVICE_RE (L ! (sv_line s - 1)) 1 = Some (sv_name s) \<and>
     (\<forall>(t, n) \<in> set (sv_command s).
        sv_line s < n \<and> n \<le> k \<and> test BODY_RE (L ! (n - 1)) \<and> t = trim (L ! (n - 1)))"

definition compose_inv :: "jsstring list \<Rightarrow> nat \<Rightarrow> compose_state \<Rightarrow> bool" where
  "compose_inv L k st \<longleftrightarrow>
     (\<forall>s \<in> set (services_of st). service_from L k s) \<and>
     sorted_wrt (<) (map sv_line (services_of st)) \<and>
     (cs_collecting st \<longrightarrow> cs_cur st \<noteq> None)"

text \<open>An update of the current service that keeps its name, line and commands.\<close>

definition keeps_source :: "(service \<Rightarrow> service) \<Rightarrow> bool" where
  "keeps_source f \<longleftrightarrow>
     (\<forall>s. sv_name (f s) = sv_name s \<and> sv_line (f s) = sv_line s \<and> sv_command (f s) = sv_command s)"

lemma services_of_upd_cur:
  "services_of (upd_cur f st) =
     cs_done st @ (case cs_cur st of None \<Rightarrow> [] | Some s \<Rightarrow> [f s])"
  by (simp add: services_of_def upd_cur_def split: option.splits)

lemma service_from_keeps: "keeps_source f \<Longrightarrow> service_from L k (f s) = service_from L k s"
  by (simp add: service_from_def keeps_source_def)

lemma compose_inv_upd_cur:
  "keeps_source f \<Longrightarrow> compose_inv L k (upd_cur f st) = compose_inv L k st"
  unfolding compose_inv_def services_of_upd_cur
  by (auto simp: services_of_def service_from_keeps upd_cur_def keeps_source_def split: option.splits)

lemma compose_inv_section [simp]: "compose_inv L k (st\<lparr> cs_section := x \<rparr>) = compose_inv L k st"
  by (simp add: compose_inv_def services_of_def)

lemma compose_inv_mono:
  assumes "compose_inv L k st" "k \<le> k'"
  shows "compose_inv L k' st"
proof -
  have "service_from L k' s" if "service_from L k s" for s
    using that assms(2) by (fastforce simp: service_from_def)
  then show ?thesis using assms(1) by (auto simp: compose_inv_def)
qed

lemma case_option_intro: "P a \<Longrightarrow> (\<And>m. P (f m)) \<Longrightarrow> P (case x of None \<Rightarrow> a | Some m \<Rightarrow> f m)"
  by (cases x) auto

lemma if_intro: "P a \<Longrightarrow> P b \<Longrightarrow> P (if c then a else b)"
  by simp

lemma compose_inv_field:
  assumes "compose_inv L k st" "cs_cur st \<noteq> None"
  shows "compose_inv L k (compose_field line st)"
proof -
  have upd: "compose_inv L k (upd_cur f st)" if "keeps_source f" for f
    using assms(1) that by (simp add: compose_inv_upd_cur)
  have coll: "compose_inv L k (st\<lparr> cs_collecting := True \<rparr>)"
    using assms by (simp add: compose_inv_def services_of_def)
  show ?thesis unfolding compose_field_def Let_def
    by (intro case_option_intro [where P = "compose_inv L k"] if_intro [where P = "compose_inv L k"])
      (simp_all add: assms(1) coll upd keeps_source_def)
qed

lemma compose_inv_top: "compose_inv L k st \<Longrightarrow> compose_inv L k (compose_top line st)"
  by (simp add: compose_inv_def compose_top_def services_of_def)

lemma compose_inv_collecting:
  "compose_inv L k st \<Longrightarrow> compose_inv L k (st\<lparr> cs_collecting := False \<rparr>)"
  by (simp add: compose_inv_def services_of_def)

lemma services_of_push:
  "services_of (st\<lparr> cs_done := services_of st, cs_cur := Some s, cs_section := x \<rparr>) = services_of st @ [s]"
  by (simp add: services_of_def)

lemma SERVICE_RE_captures: "always_captures 1 SERVICE_RE"
  by (simp add: SERVICE_RE_def del: One_nat_def)

lemma compose_inv_entry:
  assumes inv: "compose_inv L k st" and k: "k < length L" and line: "L ! k = line"
  shows "compose_inv L (Suc k) (compose_entry (line, Suc k) st)"
proof (cases "exec SERVICE_RE line")
  case None
  have "compose_inv L (Suc k) st" using inv by (rule compose_inv_mono) simp
  then show ?thesis using None compose_inv_field by (simp add: compose_entry_def)
next
  case (Some m)
  then obtain nm where nm: "group m 1 = Some nm"
    using SERVICE_RE_captures by (rule exec_group)
  let ?s = "new_service nm (Suc k)"
  have st': "compose_entry (line, Suc k) st =
      st\<lparr> cs_done := services_of st, cs_cur := Some ?s, cs_section := None \<rparr>"
    using Some nm by (simp add: compose_entry_def)
  have new: "service_from L (Suc k) ?s"
    using Some nm line by (simp add: service_from_def new_service_def match_group_def)
  have old: "\<forall>s \<in> set (services_of st). service_from L (Suc k) s \<and> sv_line s < Suc k"
    using inv compose_inv_mono [OF inv, of "Suc k"] by (auto simp: compose_inv_def service_from_def)
  have sorted: "sorted_wrt (<) (map sv_line (services_of st))"
    using inv by (simp add: compose_inv_def)
  have line': "sv_line ?s = Suc k" by (simp add: new_service_def)
  show ?thesis
    unfolding st' compose_inv_def services_of_push
    using new old sorted line' by (auto simp: sorted_wrt_append)
qed

lemma compose_inv_body:
  assumes inv: "compose_inv L k st" and k: "k < length L" and line: "L ! k = line" "test BODY_RE line"
    and cur: "cs_cur st \<noteq> None"
  shows "compose_inv L (Suc k)
    (upd_cur (\<lambda>s. s\<lparr> sv_command := sv_command s @ [(trim line, Suc k)] \<rparr>) st)"
    (is "compose_inv L _ (upd_cur ?f st)")
proof -
  from cur obtain s where s: "cs_cur st = Some s" by auto
  have S: "services_of st = cs_done st @ [s]" using s by (simp add: services_of_def)
  have S': "services_of (upd_cur ?f st) = cs_done st @ [?f s]" using s by (simp add: services_of_upd_cur)
  have old: "\<forall>s \<in> set (services_of st). service_from L (Suc k) s"
    using compose_inv_mono [OF inv, of "Suc k"] by (simp add: compose_inv_def)
  have le: "service_from L k s" using inv S by (simp add: compose_inv_def)
  have "service_from L (Suc k) (?f s)"
    using old S le line by (auto simp: service_from_def)
  moreover have "map sv_line (services_of (upd_cur ?f st)) = map sv_line (services_of st)"
    using S S' by simp
  moreover have "cs_cur (upd_cur ?f st) \<noteq> None" using s by (simp add: upd_cur_def)
  ultimately show ?thesis using inv old S S' by (simp add: compose_inv_def)
qed

lemma compose_inv_line:
  assumes inv: "compose_inv L k st" and k: "k < length L"
  shows "compose_inv L (Suc k) (compose_line (L ! k, Suc k) st)"
proof -
  let ?line = "L ! k" and ?st = "compose_top (L ! k) st"
  have top: "compose_inv L k ?st" using inv by (rule compose_inv_top)
  have coll: "cs_collecting ?st \<Longrightarrow> cs_cur ?st \<noteq> None" using top by (simp add: compose_inv_def)
  have "compose_inv L k (st\<lparr> cs_inServices := True \<rparr>)"
    using inv by (simp add: compose_inv_def services_of_def)
  then have "compose_inv L (Suc k) (st\<lparr> cs_inServices := True \<rparr>)" by (rule compose_inv_mono) simp
  moreover have "compose_inv L (Suc k) ?st" using top by (rule compose_inv_mono) simp
  moreover have "compose_inv L (Suc k) (compose_entry (?line, Suc k) (?st\<lparr> cs_collecting := False \<rparr>))"
    by (rule compose_inv_entry [OF compose_inv_collecting [OF top] k refl])
  moreover have "compose_inv L (Suc k) (upd_cur (\<lambda>s. s\<lparr> sv_command := sv_command s @ [(trim ?line, Suc k)] \<rparr>) ?st)"
    if "cs_collecting ?st" "test BODY_RE ?line"
    by (rule compose_inv_body [OF top k refl that(2) coll [OF that(1)]])
  ultimately show ?thesis by (simp add: compose_line_def Let_def)
qed

lemma numbered_snoc:
  "k < length L \<Longrightarrow> zip (take (Suc k) L) [1..<Suc (Suc k)] = zip (take k L) [1..<Suc k] @ [(L ! k, Suc k)]"
  by (simp add: take_Suc_conv_app_nth)

lemma compose_inv_fold:
  "k \<le> length L \<Longrightarrow> compose_inv L k (fold compose_line (zip (take k L) [1..<Suc k]) compose_init)"
proof (induction k)
  case 0
  then show ?case by (simp add: compose_inv_def compose_init_def services_of_def)
next
  case (Suc k)
  then have "compose_inv L k (fold compose_line (zip (take k L) [1..<Suc k]) compose_init)" by simp
  then have "compose_inv L (Suc k)
      (compose_line (L ! k, Suc k) (fold compose_line (zip (take k L) [1..<Suc k]) compose_init))"
    by (rule compose_inv_line) (use Suc.prems in simp)
  then show ?case using Suc.prems by (simp only: numbered_snoc Suc_le_eq fold_append) simp
qed

lemma compose_inv_final:
  "compose_inv (lines txt) (length (lines txt)) (fold compose_line (numbered txt) compose_init)"
  using compose_inv_fold [of "length (lines txt)" "lines txt"] by (simp add: numbered_def)

text \<open>
  The compose reader. Every service \<open>parseCompose\<close> returns comes from a header line of the file
  that carries its name, the services come in the order of those lines, and each recorded command is
  the trimmed text of a body line below the header, under that line's number.
\<close>

theorem parseCompose_sound:
  "sorted_wrt (<) (map sv_line (parseCompose txt)) \<and>
   (\<forall>s \<in> set (parseCompose txt).
      1 \<le> sv_line s \<and> sv_line s \<le> length (lines txt) \<and>
      match_group SERVICE_RE (lines txt ! (sv_line s - 1)) 1 = Some (sv_name s) \<and>
      (\<forall>(t, n) \<in> set (sv_command s). sv_line s < n \<and> n \<le> length (lines txt) \<and>
         test BODY_RE (lines txt ! (n - 1)) \<and> t = trim (lines txt ! (n - 1))))"
  using compose_inv_final [of "txt"]
  by (simp add: parseCompose_def compose_inv_def service_from_def)

definition example_compose :: jsstring where
  "example_compose = join_with [NL] (map js
     [''services:'', ''  go:'', ''    command:'', ''      - |'', ''        go test''])"

theorem parseCompose_sound_witness:
  "\<exists>s. parseCompose example_compose = [s] \<and> sv_name s = js ''go'' \<and>
     match_group SERVICE_RE (lines example_compose ! 1) 1 = Some (js ''go'') \<and>
     sv_command s = [(js ''go test'', 5)] \<and> js ''go test'' = trim (lines example_compose ! 4)"
proof -
  let ?s = "(new_service (js ''go'') 2)\<lparr> sv_command := [(js ''go test'', 5)] \<rparr>"
  have eq: "parseCompose example_compose = [?s]" by code_simp
  have "match_group SERVICE_RE (lines example_compose ! 1) 1 = Some (js ''go'')"
    "js ''go test'' = trim (lines example_compose ! 4)"
    using parseCompose_sound [of example_compose] unfolding eq by (simp_all add: new_service_def)
  then show ?thesis using eq by (intro exI [of _ ?s]) (simp add: new_service_def)
qed

section \<open>The floor\<close>

text \<open>
  The declared floor. When the matrix lists a runtime whose numeric entries have numeric
  components, \<open>declaredFloor\<close> returns one of these entries and no entry is below it.
\<close>

theorem declaredFloor_lowest:
  assumes "map_of matrix runtime = Some listed"
    and "\<forall>v \<in> set (numeric_entries listed). numeric_parts (strip_net v)"
    and "v \<in> set (numeric_entries listed)"
  shows "\<exists>low. declaredFloor matrix runtime = Some low \<and> low \<in> set (numeric_entries listed) \<and>
    docker_cmp low v \<le> 0"
proof -
  have "numeric_entries listed \<noteq> []" using assms(3) by auto
  moreover from this have "listed \<noteq> []" by (auto simp: numeric_entries_def List.map_filter_def)
  ultimately have "declaredFloor matrix runtime = Some (hd (sort_by docker_cmp (numeric_entries listed)))"
    using assms(1) by (simp add: declaredFloor_def Let_def)
  then show ?thesis using dko.lowest [OF assms(2,3)] by blast
qed

definition example_matrix :: runtime_matrix where
  "example_matrix = [(js ''go'', map (Version \<circ> js) [''1.26'', ''1.25'', ''stable''])]"

lemma example_matrix_numeric:
  "numeric_entries (map (Version \<circ> js) [''1.26'', ''1.25'', ''stable'']) = [js ''1.26'', js ''1.25'']"
  by code_simp

theorem declaredFloor_lowest_witness:
  "\<exists>low. declaredFloor example_matrix (js ''go'') = Some low \<and>
     low \<in> {js ''1.26'', js ''1.25''} \<and> docker_cmp low (js ''1.25'') \<le> 0"
proof -
  have "strip_net (js ''1.26'') = js ''1.26''" "strip_net (js ''1.25'') = js ''1.25''" by code_simp+
  then have "\<forall>v \<in> set [js ''1.26'', js ''1.25'']. numeric_parts (strip_net v)"
    by (simp add: numeric_parts_def version_parts_def js_eval)
  then show ?thesis
    using declaredFloor_lowest [of example_matrix "js ''go''"
        "map (Version \<circ> js) [''1.26'', ''1.25'', ''stable'']" "js ''1.25''"]
    unfolding example_matrix_numeric by (simp add: example_matrix_def)
qed

section \<open>The specification of the check\<close>

text \<open>A command line that may stand in a service whose CI job has the lines \<open>job\<close>.\<close>

definition command_ok :: "jsstring list \<Rightarrow> jsstring \<Rightarrow> bool" where
  "command_ok job txt \<longleftrightarrow> (case splitComment txt of (command, comment) \<Rightarrow>
     command = [] \<or> startsWith command (js ''#'') \<or>
     (\<exists>c. comment = Some c \<and> startsWith c (js ''not-in-ci:'') \<and>
          4 \<le> length (replaceFirst REASON_RE (\<lambda>_. []) c)) \<or>
     (\<not> (\<exists>c. comment = Some c \<and> startsWith c (js ''not-in-ci:'')) \<and>
      (\<exists>l \<in> set job. str_includes l (unescape_dollar command))))"

definition command_in_ci :: "jsstring list \<Rightarrow> jsstring \<Rightarrow> bool" where
  "command_in_ci job txt \<longleftrightarrow> (case splitComment txt of (command, comment) \<Rightarrow>
     command \<noteq> [] \<and> \<not> startsWith command (js ''#'') \<and>
     \<not> (\<exists>c. comment = Some c \<and> startsWith c (js ''not-in-ci:'')) \<and>
     (\<exists>l \<in> set job. str_includes l (unescape_dollar command)))"

lemma command_parity_ok: "parity_problems (command_parity name job (txt, n)) = [] \<longleftrightarrow> command_ok job txt"
  by (auto simp: command_parity_def command_ok_def Let_def list_ex_iff split: prod.split if_splits)

lemma command_parity_Asserted: "command_parity name job (txt, n) = Asserted \<longleftrightarrow> command_in_ci job txt"
  by (auto simp: command_parity_def command_in_ci_def Let_def list_ex_iff split: prod.split)

text \<open>A service of the harness as the rules of \<open>--check\<close> want it.\<close>

definition pinned_at_floor :: "runtime_matrix \<Rightarrow> service \<Rightarrow> bool" where
  "pinned_at_floor matrix s \<longleftrightarrow>
     (\<exists>img c runtime version low.
        sv_image s = Some img \<and> digest_pinned img \<and> sv_comment s = Some c \<and> c \<noteq> [] \<and>
        sv_floor s = Some (runtime, version) \<and> declaredFloor matrix runtime = Some low \<and>
        docker_cmp low version = 0 \<and> str_includes c version)"

definition staged :: "service \<Rightarrow> bool" where
  "staged s \<longleftrightarrow>
     sv_workingDir s = Some (js ''/work/packages/'' @ sv_name s) \<and>
     js ''*repo'' \<in> set (sv_volumes s) \<and> js ''*work'' \<in> set (sv_tmpfs s) \<and>
     first_command s = Some (js ''sh /repo/docker/stage.sh '' @ sv_name s)"

definition in_step_with_ci :: "jobs \<Rightarrow> service \<Rightarrow> bool" where
  "in_step_with_ci jobs s \<longleftrightarrow>
     (\<exists>job. map_of jobs (sv_name s) = Some job \<and>
        (\<forall>c \<in> set (drop 1 (sv_command s)). command_ok job (fst c)) \<and>
        ((\<exists>c \<in> set (drop 1 (sv_command s)). command_in_ci job (fst c)) \<longleftrightarrow>
         sv_parity s \<noteq> Some (js ''explained'')))"

lemma pin_problems_iff:
  "image_problems s = [] \<and> floor_problems matrix s = [] \<longleftrightarrow> pinned_at_floor matrix s"
proof (cases "sv_image s")
  case None
  then show ?thesis by (simp add: image_problems_def pinned_at_floor_def)
next
  case (Some img)
  note img = this
  show ?thesis
  proof (cases "sv_comment s")
    case None
    with img show ?thesis by (simp add: image_problems_def pinned_at_floor_def)
  next
    case (Some c)
    have "image_problems s = [] \<longleftrightarrow> digest_pinned img \<and> c \<noteq> []"
      using img Some digest_pinned_not_Nil [of img] by (auto simp: image_problems_def test_DIGEST_RE)
    then show ?thesis using img Some
      by (auto simp: floor_problems_def pinned_at_floor_def split: option.splits prod.splits)
  qed
qed

lemma staging_problems_iff: "staging_problems s = [] \<longleftrightarrow> staged s"
  by (auto simp: staging_problems_def staged_def)

lemma asserted_pos_iff:
  "map_of jobs (sv_name s) = Some job \<Longrightarrow>
    0 < asserted jobs s \<longleftrightarrow> (\<exists>c \<in> set (drop 1 (sv_command s)). command_in_ci job (fst c))"
proof -
  assume job: "map_of jobs (sv_name s) = Some job"
  have "command_parity (sv_name s) job c = Asserted \<longleftrightarrow> command_in_ci job (fst c)" for c
    by (cases c) (simp add: command_parity_Asserted)
  then show ?thesis using job by (auto simp: asserted_def parities_def filter_empty_conv)
qed

lemma ci_problems_iff: "ci_problems jobs s = [] \<longleftrightarrow> in_step_with_ci jobs s"
proof (cases "map_of jobs (sv_name s)")
  case None
  then show ?thesis by (simp add: ci_problems_def in_step_with_ci_def)
next
  case (Some job)
  have "concat (map parity_problems (parities jobs s)) = [] \<longleftrightarrow>
      (\<forall>c \<in> set (drop 1 (sv_command s)). command_ok job (fst c))"
    using Some by (auto simp: parities_def concat_eq_Nil_conv command_parity_ok)
  then show ?thesis
    using Some asserted_pos_iff [OF Some] by (auto simp: ci_problems_def in_step_with_ci_def)
qed

lemma coverage_problems_iff:
  "coverage_problems services dirs = [] \<longleftrightarrow> set (map sv_name services) = set dirs"
  by (auto simp: coverage_problems_def Let_def filter_empty_conv)

text \<open>
  \<^bold>\<open>C23.\<close> The harness check. \<open>--check\<close> reports no problem exactly when the services are the packages, the
  shared mounts are read-only and executable as required, every service is pinned by digest at the
  declared floor, staged, and in step with its CI job, the staging script exists, and
  \<open>docker compose config\<close> accepted the file or could not be run.
\<close>

theorem docker_check_passes_iff:
  "check_problems h = [] \<longleftrightarrow>
    (let services = parseCompose (h_compose h) in
     set (map sv_name services) = set (h_packages h) \<and>
     match_group (anchor_RE ''repo'') (h_compose h) 1 = Some (js ''../:/repo:ro'') \<and>
     match_group (anchor_RE ''work'') (h_compose h) 1 = Some (js ''/work:exec'') \<and>
     list_all (\<lambda>s. pinned_at_floor (h_matrix h) s \<and> staged s \<and> in_step_with_ci (ciJobs (h_ci h)) s) services \<and>
     h_stage h \<and>
     (sp_error (h_config h) = Some (js ''ENOENT'') \<or> sp_status (h_config h) = Some 0))"
proof -
  have svc: "service_problems (h_matrix h) (ciJobs (h_ci h)) s = [] \<longleftrightarrow>
      pinned_at_floor (h_matrix h) s \<and> staged s \<and> in_step_with_ci (ciJobs (h_ci h)) s" for s
    by (simp add: service_problems_def staging_problems_iff ci_problems_iff flip: pin_problems_iff)
  show ?thesis
    by (simp add: check_problems_def Let_def coverage_problems_iff concat_eq_Nil_conv svc list_all_iff
        anchor_problems_def config_problems_def)
qed

section \<open>The exit status\<close>

text \<open>
  The exit status. With no option, \<open>docker-test\<close> exits 0 exactly when the compose file has
  services, every language named is one of them, docker answers its probes, and every suite asked for
  (all of them when none is named) ran and exited 0.
\<close>

theorem docker_run_status:
  "list_all (\<lambda>a. \<not> startsWith a (js ''-'')) names \<Longrightarrow>
    (exit_code (docker_main h m names) = 0 \<longleftrightarrow>
      (let services = map sv_name (parseCompose (h_compose h)) in
       h_composeExists h \<and> services \<noteq> [] \<and> set names \<subseteq> set services \<and>
       sp_error (mc_cli m) \<noteq> Some (js ''ENOENT'') \<and> sp_status (mc_plugin m) = Some 0 \<and>
       sp_status (mc_daemon m) = Some 0 \<and>
       list_all (\<lambda>n. fst (mc_suite m n) = Inr (Some 0)) (if names \<noteq> [] then names else services)))"
proof -
  assume a: "list_all (\<lambda>a. \<not> startsWith a (js ''-'')) names"
  then have f: "filter (\<lambda>a. startsWith a (js ''-'')) names = []"
    "filter (\<lambda>a. \<not> startsWith a (js ''-'')) names = names"
    by (auto simp: list_all_iff filter_empty_conv filter_id_conv)
  have ok: "sr_ok (case mc_suite m n of (e, ms) \<Rightarrow> suite_result_of n e ms) \<longleftrightarrow> fst (mc_suite m n) = Inr (Some 0)"
    for n by (auto simp: suite_result_of_def split: prod.splits sum.splits)
  have run: "run_status (run_suites (mc_suite m) ns) = 0 \<longleftrightarrow> list_all (\<lambda>n. fst (mc_suite m n) = Inr (Some 0)) ns" for ns
    by (auto simp: run_status_def run_suites_def filter_empty_conv list_all_iff ok)
  show ?thesis
    unfolding docker_main_def Let_def f
    by (auto simp: requireDocker_def run filter_empty_conv)
qed

definition example_machine :: machine where
  "example_machine = (let ok = \<lparr> sp_error = None, sp_status = Some 0, sp_stdout = [], sp_stderr = [] \<rparr> in
     \<lparr> mc_cli = ok, mc_plugin = ok, mc_daemon = ok, mc_suite = (\<lambda>_. (Inr (Some 0), 1500)) \<rparr>)"

definition example_harness :: harness where
  "example_harness = \<lparr> h_composeExists = True, h_compose = example_compose, h_packages = [js ''go''],
     h_matrix = example_matrix, h_ci = [], h_stage = True,
     h_config = \<lparr> sp_error = Some (js ''ENOENT''), sp_status = None, sp_stdout = [], sp_stderr = [] \<rparr> \<rparr>"

theorem docker_run_status_witness:
  "exit_code (docker_main example_harness example_machine [js ''go'']) = 0"
proof -
  have "map sv_name (parseCompose example_compose) = [js ''go'']" by code_simp
  moreover have "list_all (\<lambda>a. \<not> startsWith a (js ''-'')) [js ''go'']" by code_simp
  ultimately show ?thesis using docker_run_status [of "[js ''go'']" example_harness example_machine]
    by (simp add: example_harness_def example_machine_def Let_def)
qed

end
