(* ===== verification/Runtime_Matrix.thy ===== *)
theory Runtime_Matrix
  imports Dotted_Version
begin

text \<open>
  \<open>scripts/check-runtime-matrix.mjs\<close>: the lowest version of each runtime that CI tests has to equal the
  floor its package manifest declares, and the table in \<open>SUPPORT.md\<close> is generated from the same data.

  \<open>read p\<close> is the text of a file, \<open>None\<close> when reading throws. An exception the script does not catch
  (\<open>JSON.parse\<close> of a malformed manifest, a method of a value without it) ends it: the value \<open>Inl\<close>.
\<close>

definition stripXmlComments :: "jsstring \<Rightarrow> jsstring" where \<comment> \<open>\<open>/<!--[\s\S]*?-->/g\<close>\<close>
  "stripXmlComments s =
     replaceAll (RSeqs [RLit (js ''<!--''), RStar False RAny, RLit (js ''-->'')]) (\<lambda>_. []) s"

text \<open>\<open>String(v)\<close> of a string or \<open>undefined\<close>.\<close>

definition str_of :: "jsstring option \<Rightarrow> jsstring" where
  "str_of v = (case v of None \<Rightarrow> js ''undefined'' | Some s \<Rightarrow> s)"

definition entry_str :: "matrix_entry \<Rightarrow> jsstring" where
  "entry_str e = (case e of Version v \<Rightarrow> v | Entry _ \<Rightarrow> js ''[object Object]'')"

definition DIGIT_RE :: regex where \<comment> \<open>\<open>/^\d/\<close>\<close>
  "DIGIT_RE = RSeqs [RBol False, RChar is_digit]"

definition numeric_versions :: "jsstring list \<Rightarrow> jsstring list" where
  "numeric_versions vs = filter (test DIGIT_RE) vs"

text \<open>\<open>xs.sort(cmp)[0]\<close>.\<close>

definition lowest_version :: "jsstring list \<Rightarrow> jsstring option" where
  "lowest_version vs = (case sort_by matrix_cmp vs of [] \<Rightarrow> None | v # _ \<Rightarrow> Some v)"

section \<open>Where the floors are declared\<close>

abbreviation digits_dots :: regex where "digits_dots \<equiv> RPlus True (RChar (\<lambda>c. is_digit c \<or> c = 46))"
abbreviation digits :: regex where "digits \<equiv> RPlus True (RChar is_digit)"

definition DOTTED_RE :: regex where \<comment> \<open>\<open>/(\d+(?:\.\d+)*)/\<close>\<close>
  "DOTTED_RE = RGroup 1 (RSeq digits (RStar True (RSeq (RLit (js ''.'')) digits)))"

text \<open>\<open>JSON.parse(t).a?.b?.match(/.../)?.[1]\<close>: the two manifests read through \<open>JSON.parse\<close>.\<close>

definition json_floor :: "string \<Rightarrow> string \<Rightarrow> jsstring \<Rightarrow> js_exn + jsstring option" where
  "json_floor a b t =
     (case json_parse t of
        None \<Rightarrow> Inl SyntaxError
      | Some JNull \<Rightarrow> Inl TypeError
      | Some j \<Rightarrow>
          (case get_opt (get j (js a)) (js b) of
             None \<Rightarrow> Inr None
           | Some JNull \<Rightarrow> Inr None
           | Some (JStr v) \<Rightarrow> Inr (match_group DOTTED_RE v 1)
           | Some _ \<Rightarrow> Inl TypeError))"

definition node_floor :: "jsstring \<Rightarrow> js_exn + jsstring option" where
  "node_floor = json_floor ''engines'' ''node''"

definition php_floor :: "jsstring \<Rightarrow> js_exn + jsstring option" where
  "php_floor = json_floor ''require'' ''php''"

definition python_floor :: "jsstring \<Rightarrow> js_exn + jsstring option" where
  "python_floor t = Inr (match_group (RSeqs [RBol True, RLit (js ''requires-python''), RSpaces,
     RLit (js ''=''), RSpaces, RLit [34], RLit (js ''>=''), RSpaces, RGroup 1 digits_dots, RLit [34]]) t 1)"

definition go_floor :: "jsstring \<Rightarrow> js_exn + jsstring option" where
  "go_floor t = Inr (match_group (RSeqs [RBol True, RLit (js ''go''), RPlus True (RChar is_space),
     RGroup 1 digits_dots]) t 1)"

definition rust_floor :: "jsstring \<Rightarrow> js_exn + jsstring option" where
  "rust_floor t = Inr (match_group (RSeqs [RBol True, RLit (js ''rust-version''), RSpaces,
     RLit (js ''=''), RSpaces, RLit [34], RGroup 1 digits_dots, RLit [34]]) t 1)"

definition java_floor :: "jsstring \<Rightarrow> js_exn + jsstring option" where
  "java_floor t = Inr (match_group (RSeqs [RLit (js ''<maven.compiler.release>''), RGroup 1 digits,
     RLit (js ''<'')]) (stripXmlComments t) 1)"

definition dart_floor :: "jsstring \<Rightarrow> js_exn + jsstring option" where
  "dart_floor t = Inr (match_group (RSeqs [RLit (js ''sdk:''), RSpaces, ROpt (RLit [34]),
     RLit (js ''>=''), RSpaces, RGroup 1 digits_dots]) t 1)"

definition ruby_floor :: "jsstring \<Rightarrow> js_exn + jsstring option" where
  "ruby_floor t = Inr (match_group (RSeqs [RLit (js ''required_ruby_version''), RSpaces,
     RLit (js ''=''), RSpaces, RChar (\<lambda>c. c = 39 \<or> c = 34), RLit (js ''>=''), RSpaces,
     RGroup 1 digits_dots, RChar (\<lambda>c. c = 39 \<or> c = 34)]) t 1)"

definition elixir_floor :: "jsstring \<Rightarrow> js_exn + jsstring option" where
  "elixir_floor t = Inr (match_group (RSeqs [RLit (js ''elixir:''), RSpaces, RLit [34],
     RLit (js ''~>''), RSpaces, RGroup 1 digits_dots, RLit [34]]) t 1)"

definition otp_floor :: "jsstring \<Rightarrow> jsstring option" where
  "otp_floor t = match_group (RSeqs [RLit (js ''@minimum_otp''), RPlus True (RChar is_space),
     RGroup 1 digits]) t 1"

text \<open>The target frameworks of a project file, and \<open>raw ? ... : null\<close> around them.\<close>

definition TFM_RE :: regex where \<comment> \<open>\<open>/<TargetFrameworks?>([^<]+)</\<close>\<close>
  "TFM_RE = RSeqs [RLit (js ''<TargetFramework''), ROpt (RLit (js ''s'')), RLit (js ''>''),
     RGroup 1 (RPlus True (RChar (\<lambda>c. c \<noteq> 60))), RLit (js ''<'')]"

definition declared_frameworks :: "jsstring \<Rightarrow> jsstring list option" where
  "declared_frameworks t =
     (let raw = match_group TFM_RE (stripXmlComments t) 1 in
      if truthy raw then Some (filter (\<lambda>s. s \<noteq> []) (map trim (split_on 59 (the raw)))) else None)"

section \<open>The runtimes\<close>

datatype runtime_kind =
    Plain "jsstring \<Rightarrow> js_exn + jsstring option"
  | Exact "jsstring \<Rightarrow> jsstring list option"
  | Pairs "jsstring \<Rightarrow> js_exn + jsstring option" "jsstring \<Rightarrow> jsstring option"

record runtime =
  rt_key :: jsstring
  rt_label :: jsstring
  rt_package :: jsstring
  rt_manifest :: jsstring
  rt_field :: jsstring
  rt_kind :: runtime_kind

definition rt :: "string \<Rightarrow> string \<Rightarrow> string \<Rightarrow> string \<Rightarrow> string \<Rightarrow> runtime_kind \<Rightarrow> runtime" where
  "rt k l p m f kind = \<lparr> rt_key = js k, rt_label = js l, rt_package = js p, rt_manifest = js m,
     rt_field = js f, rt_kind = kind \<rparr>"

definition RUNTIMES :: "runtime list" where
  "RUNTIMES =
    [rt ''node'' ''Node.js'' ''typescript'' ''packages/typescript/package.json'' ''engines.node'' (Plain node_floor),
     rt ''python'' ''Python'' ''python'' ''packages/python/pyproject.toml'' ''requires-python'' (Plain python_floor),
     rt ''go'' ''Go'' ''go'' ''packages/go/go.mod'' ''go directive'' (Plain go_floor),
     rt ''rust'' ''Rust'' ''rust'' ''packages/rust/Cargo.toml'' ''rust-version (MSRV)'' (Plain rust_floor),
     rt ''java'' ''Java'' ''java'' ''packages/java/pom.xml'' ''maven.compiler.release'' (Plain java_floor),
     rt ''php'' ''PHP'' ''php'' ''composer.json'' ''require.php'' (Plain php_floor),
     rt ''dotnet'' ''.NET'' ''csharp'' ''packages/csharp/src/NebulaToken/NebulaToken.csproj'' ''TargetFramework(s)''
       (Exact declared_frameworks),
     rt ''dart'' ''Dart'' ''dart'' ''packages/dart/pubspec.yaml'' ''environment.sdk'' (Plain dart_floor),
     rt ''ruby'' ''Ruby'' ''ruby'' ''packages/ruby/nebula-token.gemspec'' ''required_ruby_version'' (Plain ruby_floor),
     rt ''elixir'' ''Elixir'' ''elixir'' ''packages/elixir/mix.exs'' ''elixir requirement'' (Pairs elixir_floor otp_floor)]"

section \<open>Checking a runtime\<close>

datatype matrix_problem =
    NoVersions jsstring
  | CannotRead jsstring jsstring
  | FloorUnreadable jsstring jsstring jsstring
  | PairFloor jsstring jsstring jsstring
  | OtpFloor jsstring jsstring jsstring
  | TargetUntested jsstring jsstring
  | TestedUntargeted jsstring jsstring
  | TestsUnreadable
  | ShipsUntested jsstring
  | OnlyChannels jsstring jsstring
  | FloorUntested jsstring jsstring jsstring
  | FloorTooHigh jsstring jsstring jsstring
  | SupportMissing
  | SupportNoBlock
  | SupportStale

record row =
  row_label :: jsstring
  row_pkg :: jsstring
  row_tested :: jsstring
  row_floor :: jsstring

abbreviation comma :: jsstring where "comma \<equiv> js '', ''"

definition TEST_PROJ :: jsstring where
  "TEST_PROJ = js ''packages/csharp/tests/NebulaToken.Tests/NebulaToken.Tests.csproj''"

definition alsoCheck :: "(jsstring \<Rightarrow> jsstring option) \<Rightarrow> jsstring list \<Rightarrow> matrix_problem list" where
  "alsoCheck read libTfms =
     (case read TEST_PROJ of
        None \<Rightarrow> [TestsUnreadable]
      | Some text \<Rightarrow>
          let testTfms = (case declared_frameworks text of None \<Rightarrow> [] | Some ts \<Rightarrow> ts)
          in map ShipsUntested (filter (\<lambda>tfm. tfm \<notin> set testTfms) libTfms))"

type_synonym runtime_result = "js_exn + matrix_problem list \<times> row option"

text \<open>The three shapes of a runtime, lines 177 to 256.\<close>

definition check_pairs ::
  "runtime \<Rightarrow> matrix_entry list \<Rightarrow> jsstring option \<Rightarrow> jsstring option \<Rightarrow> matrix_problem list \<times> row option" where
  "check_pairs r listed floor_opt otp =
     (let elixirs = map (\<lambda>p. entry_prop p (js ''elixir'')) listed;
          otps = map (\<lambda>p. entry_prop p (js ''otp'')) listed;
          lowest = lowest_version (numeric_versions (map str_of elixirs));
          lowestOtp = lowest_version (List.map_filter id otps);
          ps1 = (if \<not> truthy floor_opt then [FloorUnreadable (rt_key r) (rt_field r) (rt_manifest r)]
                 else if matrix_cmp (str_of lowest) (the floor_opt) \<noteq> 0
                      then [PairFloor (rt_label r) (the floor_opt) (str_of lowest)] else []);
          ps2 = (if truthy otp \<and> matrix_cmp (str_of lowestOtp) (the otp) \<noteq> 0
                 then [OtpFloor (rt_label r) (the otp) (str_of lowestOtp)] else [])
      in (ps1 @ ps2, Some \<lparr> row_label = rt_label r, row_pkg = rt_package r,
            row_tested = join_with comma
              (map (\<lambda>p. str_of (entry_prop p (js ''elixir'')) @ js '' / OTP '' @ str_of (entry_prop p (js ''otp''))) listed),
            row_floor = (case floor_opt of None \<Rightarrow> js ''?'' | Some v \<Rightarrow> v) @
              (if truthy otp then js '' / OTP '' @ the otp else []) \<rparr>))"

definition check_exact ::
  "(jsstring \<Rightarrow> jsstring option) \<Rightarrow> runtime \<Rightarrow> matrix_entry list \<Rightarrow> jsstring list option \<Rightarrow>
   matrix_problem list \<times> row option" where
  "check_exact read r listed declared_opt =
     (case declared_opt of
        None \<Rightarrow> ([FloorUnreadable (rt_key r) (rt_field r) (rt_manifest r)], None)
      | Some declared \<Rightarrow>
          let tested = map (\<lambda>e. entry_prop e (js ''framework'')) listed in
          (map (TargetUntested (rt_label r)) (filter (\<lambda>d. Some d \<notin> set tested) declared) @
           map (\<lambda>t. TestedUntargeted (rt_label r) (str_of t))
             (filter (\<lambda>t. t \<notin> set (map Some declared)) tested) @
           alsoCheck read declared,
           Some \<lparr> row_label = rt_label r, row_pkg = rt_package r,
             row_tested = join_with comma
               (map (\<lambda>e. str_of (entry_prop e (js ''framework'')) @ js '' (SDK '' @
                         str_of (entry_prop e (js ''sdk'')) @ js '')'') listed),
             row_floor = join_with comma declared \<rparr>))"

definition check_plain ::
  "runtime \<Rightarrow> matrix_entry list \<Rightarrow> jsstring option \<Rightarrow> matrix_problem list \<times> row option" where
  "check_plain r listed floor_opt =
     (if \<not> truthy floor_opt then ([FloorUnreadable (rt_key r) (rt_field r) (rt_manifest r)], None)
      else
        let fl = the floor_opt; nums = numeric_versions (map entry_str listed) in
        ((case lowest_version nums of
            None \<Rightarrow> [OnlyChannels (rt_label r) fl]
          | Some lowest \<Rightarrow>
              if matrix_cmp lowest fl \<noteq> 0 then
                [if matrix_cmp lowest fl > 0 then FloorUntested (rt_label r) fl lowest
                 else FloorTooHigh (rt_label r) fl lowest]
              else []),
         Some \<lparr> row_label = rt_label r, row_pkg = rt_package r,
           row_tested = join_with comma (map entry_str listed), row_floor = fl \<rparr>))"

definition check_runtime ::
  "(jsstring \<Rightarrow> jsstring option) \<Rightarrow> runtime_matrix \<Rightarrow> runtime \<Rightarrow> runtime_result" where
  "check_runtime read matrix r =
     (case map_of matrix (rt_key r) of
        None \<Rightarrow> Inr ([NoVersions (rt_key r)], None)
      | Some listed \<Rightarrow>
          if listed = [] then Inr ([NoVersions (rt_key r)], None)
          else case read (rt_manifest r) of
            None \<Rightarrow> Inr ([CannotRead (rt_key r) (rt_manifest r)], None)
          | Some text \<Rightarrow>
              (case rt_kind r of
                 Pairs floor_of otp_of \<Rightarrow>
                   map_sum id (\<lambda>f. check_pairs r listed f (otp_of text)) (floor_of text)
               | Exact declared \<Rightarrow> Inr (check_exact read r listed (declared text))
               | Plain floor_of \<Rightarrow> map_sum id (check_plain r listed) (floor_of text)))"

section \<open>The table in \<open>SUPPORT.md\<close>\<close>

definition BEGIN_MARK :: jsstring where
  "BEGIN_MARK = js ''<!-- BEGIN GENERATED: runtime-matrix -->''"

definition END_MARK :: jsstring where
  "END_MARK = js ''<!-- END GENERATED: runtime-matrix -->''"

definition row_line :: "row \<Rightarrow> jsstring" where
  "row_line r = js ''| '' @ row_label r @ js '' | `packages/'' @ row_pkg r @ js ''` | '' @ row_floor r @
     js '' | '' @ row_tested r @ js '' |''"

definition table :: "row list \<Rightarrow> jsstring" where
  "table rows = join_with [NL] (
     [BEGIN_MARK, [], js ''| Runtime | Package | Declared floor | Exercised by CI |'', js ''|---|---|---|---|''] @
     map row_line rows @
     [[], js ''<sub>Generated from `.github/runtime-matrix.json` by `scripts/check-runtime-matrix.mjs`. '' @
        [34] @ js ''Declared floor'' @ [34] @
        js '' is read from each package manifest; CI fails if the two disagree.</sub>'', [], END_MARK])"

text \<open>Lines 279 to 304: the problems, and the file when it is rewritten.\<close>

definition support :: "bool \<Rightarrow> jsstring \<Rightarrow> jsstring option \<Rightarrow> matrix_problem list \<times> jsstring option" where
  "support write wanted file =
     (case file of
        None \<Rightarrow> ([SupportMissing], None)
      | Some text \<Rightarrow>
          (case (indexOf text BEGIN_MARK, indexOf text END_MARK) of
             (Some start, Some end_at) \<Rightarrow>
               let stop = end_at + length END_MARK in
               if slice start stop text \<noteq> wanted then
                 if write then ([], Some (take start text @ wanted @ drop stop text))
                 else ([SupportStale], None)
               else ([], None)
           | _ \<Rightarrow> ([SupportNoBlock], None)))"

text \<open>The whole script: its problems and, with \<open>--write\<close>, the new \<open>SUPPORT.md\<close>.\<close>

definition runtime_matrix_main ::
  "(jsstring \<Rightarrow> jsstring option) \<Rightarrow> runtime_matrix \<Rightarrow> jsstring list \<Rightarrow>
   js_exn + matrix_problem list \<times> jsstring option" where
  "runtime_matrix_main read matrix argv =
     (case traverse (check_runtime read matrix) RUNTIMES of
        Inl e \<Rightarrow> Inl e
      | Inr results \<Rightarrow>
          let rows = List.map_filter snd results;
              (ps, file) = support (js ''--write'' \<in> set argv) (table rows) (read (js ''SUPPORT.md''))
          in Inr (concat (map fst results) @ ps, file))"

definition runtime_matrix_exit :: "js_exn + matrix_problem list \<times> jsstring option \<Rightarrow> int" where
  "runtime_matrix_exit res = (case res of Inl _ \<Rightarrow> 1 | Inr (ps, _) \<Rightarrow> if ps \<noteq> [] then 1 else 0)"

end
