(* ===== verification/Generated_Block.thy ===== *)
theory Generated_Block
  imports Js_Lib
begin

text \<open>
  The blocks that scripts generate inside a hand-written document, between a begin and an end marker:
  \<open>scripts/check-runtime-matrix.mjs\<close> in \<open>SUPPORT.md\<close>, \<open>scripts/check-agents-md.mjs\<close> in \<open>AGENTS.md\<close>.
  Both find the markers with \<open>indexOf\<close>, compare the slice with the wanted block and splice it in. The
  locale \<open>generated_block\<close> states what the block has to satisfy (it opens with the begin marker, and
  the end marker occurs in it only as its end) and proves once that a splice is found again as it was
  written.
\<close>

lemma startsWith_agree:
  assumes "take n s = take n s'" "k + length p \<le> n"
  shows "startsWith (drop k s) p = startsWith (drop k s') p"
proof -
  have "take (length p) (drop k s) = take (length p) (drop k (take n s))" for s :: "'a list"
    using assms(2) by (simp add: drop_take min_def)
  then show ?thesis using assms(1) by (metis startsWith_def)
qed

lemma indexOf_skip:
  "x \<notin> set a \<Longrightarrow> indexOf (a @ b) (x # q) = map_option ((+) (length a)) (indexOf b (x # q))"
proof (induction a)
  case Nil
  then show ?case by (simp add: option.map_ident_strong)
next
  case (Cons y a)
  then show ?case by (auto simp: startsWith_def option.map_comp comp_def)
qed

lemma indexOf_self: "indexOf p p = Some 0"
  by (cases p) (simp_all add: startsWith_def)

lemma set_join_with: "set (join_with sep ps) \<subseteq> set sep \<union> \<Union> (set ` set ps)"
  by (induction sep ps rule: join_with.induct) auto

lemma join_with_append:
  "ps \<noteq> [] \<Longrightarrow> qs \<noteq> [] \<Longrightarrow> join_with sep (ps @ qs) = join_with sep ps @ sep @ join_with sep qs"
proof (induction ps)
  case (Cons p ps)
  then show ?case by (cases ps) (simp_all add: join_with_Cons)
qed simp

text \<open>
  The shape of the two blocks: the first code unit \<open>x\<close> of the end marker occurs only at the start of the
  begin marker, at two tags of the closing note, and in the end marker.
\<close>

lemma indexOf_last:
  assumes "E = x # E'" "x \<notin> set a" "x \<notin> set b" "x \<notin> set c"
    and "\<And>z. \<not> startsWith (x # a @ z) E" "\<And>z. \<not> startsWith (x # b @ z) E" "\<And>z. \<not> startsWith (x # c @ z) E"
    and s: "s = x # a @ x # b @ x # c @ E"
  shows "indexOf s E = Some (length s - length E)"
proof -
  have skip: "indexOf (p @ q) E = map_option ((+) (length p)) (indexOf q E)" if "x \<notin> set p" for p q
    using indexOf_skip [OF that] assms(1) by simp
  have "indexOf s E = Some (Suc (length a + Suc (length b + Suc (length c))))"
    unfolding s using assms(5-7) by (simp add: skip [OF assms(2)] skip [OF assms(3)] skip [OF assms(4)] indexOf_self)
  then show ?thesis by (simp add: s)
qed

locale generated_block =
  fixes B E :: jsstring and block :: "'d \<Rightarrow> jsstring" and clean :: "'d \<Rightarrow> bool"
  assumes shorter: "length E \<le> length B"
    and opens: "startsWith (block d) B"
    and closes: "clean d \<Longrightarrow> indexOf (block d) E = Some (length (block d) - length E)"
begin

lemma end_fits: "length E \<le> length (block d)"
proof -
  obtain w where "block d = B @ w" using opens [of d] by (auto simp: startsWith_iff)
  then show ?thesis using shorter by simp
qed

text \<open>
  \<open>u\<close> is \<open>t\<close> with the part from the begin marker at \<open>i\<close> to the end of the end marker at \<open>j\<close> replaced by
  the block: the markers of \<open>u\<close> delimit that block.
\<close>

lemma splice_found:
  assumes i: "indexOf t B = Some i" and j: "indexOf t E = Some j" and ij: "i \<le> j" and clean: "clean d"
    and u: "u = take i t @ block d @ drop (j + length E) t"
  shows "indexOf u B = Some i" "indexOf u E = Some (i + (length (block d) - length E))"
    "slice i (i + (length (block d) - length E) + length E) u = block d"
    "drop (i + (length (block d) - length E) + length E) u = drop (j + length E) t"
proof -
  let ?post = "drop (j + length E) t"
  have il: "i \<le> length t" and ib: "startsWith (drop i t) B"
    and imin: "\<forall>k < i. \<not> startsWith (drop k t) B" and jmin: "\<forall>k < j. \<not> startsWith (drop k t) E"
    using i j by (simp_all add: indexOf_Some_iff)
  obtain w where w: "block d = B @ w" using opens [of d] by (auto simp: startsWith_iff)
  obtain v where v: "drop i t = B @ v" using ib by (auto simp: startsWith_iff)
  have agree: "take (i + length B) u = take (i + length B) t"
  proof -
    have "take (i + length B) t = take i t @ B" using v il by (simp add: take_add)
    then show ?thesis using il w by (simp add: u)
  qed
  have di: "drop i u = block d @ ?post" using il by (simp add: u)
  show "indexOf u B = Some i"
    using startsWith_agree [OF agree, of _ B] imin il di opens [of d] u
    by (auto simp: indexOf_Some_iff startsWith_iff)
  define m where "m = length (block d) - length E"
  have m: "m \<le> length (block d)" "startsWith (drop m (block d)) E"
    "\<forall>k < m. \<not> startsWith (drop k (block d)) E"
    using closes [OF clean] by (simp_all add: indexOf_Some_iff m_def)
  have mlen: "m + length E = length (block d)" using end_fits [of d] by (simp add: m_def)
  have found: "indexOf u E = Some (i + m)"
    unfolding indexOf_Some_iff
  proof (intro conjI allI impI)
    show "i + m \<le> length u" using u il m(1) by simp
    have "drop (i + m) u = drop m (block d @ ?post)" using di by (metis add.commute drop_drop)
    then show "startsWith (drop (i + m) u) E" using m by (auto simp: startsWith_iff)
    fix k assume k: "k < i + m"
    show "\<not> startsWith (drop k u) E"
    proof (cases "k < i")
      case True
      then show ?thesis using startsWith_agree [OF agree, of k E] jmin ij shorter by simp
    next
      case False
      then obtain e where e: "k = i + e" "e < m"
        using k by (metis add_less_cancel_left le_add_diff_inverse not_less)
      have "drop k u = drop e (block d @ ?post)" using di e by (metis add.commute drop_drop)
      moreover have "startsWith (drop e (block d @ ?post)) E = startsWith (drop e (block d)) E"
        by (rule startsWith_agree [where n = "length (block d)"]) (use e mlen in auto)
      ultimately show ?thesis using m(3) e by simp
    qed
  qed
  have "slice i (i + m + length E) u = block d" using di mlen by (simp add: slice_def add.assoc)
  moreover have "drop (i + m + length E) u = ?post" using u il mlen by (simp add: add.assoc)
  ultimately show "indexOf u E = Some (i + (length (block d) - length E))"
    "slice i (i + (length (block d) - length E) + length E) u = block d"
    "drop (i + (length (block d) - length E) + length E) u = ?post"
    using found unfolding m_def by blast+
qed

end

end
