(* ===== verification/Runtime_Check.thy ===== *)
theory Runtime_Check
  imports Runtime_Matrix Generated_Block
begin

text \<open>
  What \<open>scripts/check-runtime-matrix.mjs\<close> guarantees: when a runtime passes, the declared floor is
  tested and nothing below it is; the script passes exactly when every runtime and the table do; and
  after \<open>--write\<close> the table is up to date, with the text around it untouched.
\<close>

section \<open>A runtime that passes\<close>

lemma sort_by_Nil [simp]: "sort_by c [] = []"
  by (simp add: sort_by_def)

lemma lowest_version_Some:
  "lowest_version vs = Some v \<longleftrightarrow> vs \<noteq> [] \<and> v = hd (sort_by matrix_cmp vs)"
proof (cases vs)
  case (Cons x xs)
  then obtain y ys where "sort_by matrix_cmp vs = y # ys"
    by (metis list.exhaust list.simps(3) sort_by_Nil_iff)
  then show ?thesis using Cons by (auto simp: lowest_version_def)
qed (simp add: lowest_version_def)

lemma check_plain_ok_iff:
  "(\<exists>row. check_plain r listed f = ([], Some row)) \<longleftrightarrow>
    (\<exists>fl low. f = Some fl \<and> fl \<noteq> [] \<and>
       lowest_version (numeric_versions (map entry_str listed)) = Some low \<and> matrix_cmp low fl = 0)"
  by (cases f) (auto simp: check_plain_def Let_def split: option.split)

lemma plain_runtime_passes_iff:
  assumes "rt_kind r = Plain floor_of"
  shows "(\<exists>row. check_runtime read matrix r = Inr ([], Some row)) \<longleftrightarrow>
     (\<exists>listed t fl low. map_of matrix (rt_key r) = Some listed \<and> read (rt_manifest r) = Some t \<and>
        floor_of t = Inr (Some fl) \<and> fl \<noteq> [] \<and>
        lowest_version (numeric_versions (map entry_str listed)) = Some low \<and> matrix_cmp low fl = 0)"
proof -
  have eq: "check_runtime read matrix r = Inr ([], Some row) \<longleftrightarrow>
      (\<exists>listed t f. map_of matrix (rt_key r) = Some listed \<and> listed \<noteq> [] \<and>
         read (rt_manifest r) = Some t \<and> floor_of t = Inr f \<and>
         check_plain r listed f = ([], Some row))" for row
    using assms by (auto simp: check_runtime_def map_sum_Inr_iff split: option.split)
  have nonempty: "listed \<noteq> []" if "lowest_version (numeric_versions (map entry_str listed)) = Some low"
    for listed low
    using that by (auto simp: lowest_version_Some numeric_versions_def)
  show ?thesis (is "?L = ?R")
  proof
    assume ?L
    then obtain row listed t f where "map_of matrix (rt_key r) = Some listed"
      "read (rt_manifest r) = Some t" "floor_of t = Inr f" "check_plain r listed f = ([], Some row)"
      using eq by blast
    then show ?R using check_plain_ok_iff [of r listed f] by blast
  next
    assume ?R
    then obtain listed t fl low where h: "map_of matrix (rt_key r) = Some listed"
      "read (rt_manifest r) = Some t" "floor_of t = Inr (Some fl)" "fl \<noteq> []"
      "lowest_version (numeric_versions (map entry_str listed)) = Some low" "matrix_cmp low fl = 0"
      by blast
    then obtain row where "check_plain r listed (Some fl) = ([], Some row)"
      using check_plain_ok_iff [of r listed "Some fl"] by blast
    then show ?L using eq h nonempty [OF h(5)] by blast
  qed
qed

text \<open>
  The declared floor is what CI tests. When a runtime with a single floor passes, its manifest
  declares a floor, one of the versions listed for CI compares equal to it, and, when the floor and
  the numeric versions listed have numeric components, no version listed is below it.
\<close>

theorem floor_is_tested:
  assumes "rt_kind r = Plain floor_of" "check_runtime read matrix r = Inr ([], Some row)"
  shows "\<exists>listed t fl low. map_of matrix (rt_key r) = Some listed \<and> read (rt_manifest r) = Some t \<and>
    floor_of t = Inr (Some fl) \<and>
    low \<in> set (numeric_versions (map entry_str listed)) \<and> matrix_cmp low fl = 0 \<and>
    (numeric_parts fl \<and> list_all numeric_parts (numeric_versions (map entry_str listed)) \<longrightarrow>
      list_all (\<lambda>v. matrix_cmp fl v \<le> 0) (numeric_versions (map entry_str listed)))"
proof -
  from plain_runtime_passes_iff [OF assms(1), of read matrix] assms(2)
  obtain listed t fl low where h: "map_of matrix (rt_key r) = Some listed"
      "read (rt_manifest r) = Some t" "floor_of t = Inr (Some fl)"
      "lowest_version (numeric_versions (map entry_str listed)) = Some low" "matrix_cmp low fl = 0"
    by blast
  let ?vs = "numeric_versions (map entry_str listed)"
  have low: "low \<in> set ?vs" "low = hd (sort_by matrix_cmp ?vs)"
    using h(4) hd_sort_by_in [of ?vs matrix_cmp] by (simp_all add: lowest_version_Some)
  have "matrix_cmp fl v \<le> 0" if "numeric_parts fl" "\<forall>v \<in> set ?vs. numeric_parts v" "v \<in> set ?vs" for v
    using mo.floor_lowest [OF that(2,1,3)] h(5) low(2) by simp
  then show ?thesis using h low(1) by (auto simp: list_all_iff)
qed

definition go_runtime :: runtime where
  "go_runtime = rt ''go'' ''Go'' ''go'' ''packages/go/go.mod'' ''go directive'' (Plain go_floor)"

theorem floor_is_tested_witness:
  "go_runtime \<in> set RUNTIMES \<and>
   (\<exists>low. low \<in> set (map js [''1.26'', ''1.25'']) \<and> matrix_cmp low (js ''1.25'') = 0)"
proof -
  let ?listed = "map (Version \<circ> js) [''1.26'', ''1.25'', ''stable'']"
  let ?matrix = "[(js ''go'', ?listed)]" and ?read = "\<lambda>_. Some (js ''go 1.25'')"
  have nums: "numeric_versions (map entry_str ?listed) = map js [''1.26'', ''1.25'']" by code_simp
  have fl: "go_floor (js ''go 1.25'') = Inr (Some (js ''1.25''))" by code_simp
  have low: "lowest_version (map js [''1.26'', ''1.25'']) = Some (js ''1.25'')"
    "matrix_cmp (js ''1.25'') (js ''1.25'') = 0"
    by (simp_all add: lowest_version_def sort_by_def matrix_cmp_def version_parts_def js_eval)
  have kind: "rt_kind go_runtime = Plain go_floor" and key: "rt_key go_runtime = js ''go''"
    by (simp_all add: go_runtime_def rt_def)
  have "map_of ?matrix (rt_key go_runtime) = Some ?listed" using key by simp
  then obtain row where ok: "check_runtime ?read ?matrix go_runtime = Inr ([], Some row)"
    using plain_runtime_passes_iff [OF kind, of ?read ?matrix] nums fl low by (auto simp: js_def)
  obtain low where "low \<in> set (map js [''1.26'', ''1.25''])" "matrix_cmp low (js ''1.25'') = 0"
    using floor_is_tested [OF kind ok] nums fl key by auto
  moreover have "go_runtime \<in> set RUNTIMES" by (simp add: go_runtime_def RUNTIMES_def)
  ultimately show ?thesis by blast
qed

section \<open>When the script passes\<close>















lemma lowest_version_None_iff: "lowest_version vs = None \<longleftrightarrow> vs = []"
  using lowest_version_Some [of vs] by (cases "lowest_version vs") auto










text \<open>The readers on the line each looks for; a floor that stands in a comment of the pom is not read.\<close>

lemma floor_reader_samples:
  "go_floor (js ''module m'' @ [NL] @ js ''go 1.25'') = Inr (Some (js ''1.25''))"
  "otp_floor (js ''@minimum_otp 27'') = Some (js ''27'')"
  "declared_frameworks (js ''<TargetFrameworks>net8.0; net10.0</'') = Some [js ''net8.0'', js ''net10.0'']"
  by code_simp+

lemma java_floor_sample:
  "java_floor (js ''<!--<maven.compiler.release>8<--><maven.compiler.release>17</'') = Inr (Some (js ''17''))"
  by code_simp


section \<open>Rewriting the table\<close>

text \<open>A row without \<open><\<close> cannot contain a marker, so the end marker of the table is its last line.\<close>

definition row_clean :: "row \<Rightarrow> bool" where
  "row_clean r \<longleftrightarrow> 60 \<notin> set (row_label r @ row_pkg r @ row_floor r @ row_tested r)"

lemma row_line_clean: "row_clean r \<Longrightarrow> 60 \<notin> set (row_line r)"
  by (simp add: row_clean_def row_line_def js_def)

definition table_body :: "row list \<Rightarrow> jsstring" where
  "table_body rows = join_with [NL] (
     [drop 1 BEGIN_MARK, [], js ''| Runtime | Package | Declared floor | Exercised by CI |'', js ''|---|---|---|---|''] @
     map row_line rows @ [[]]) @ [NL]"

definition table_note :: jsstring where
  "table_note = js ''sub>Generated from `.github/runtime-matrix.json` by `scripts/check-runtime-matrix.mjs`. '' @
     [34] @ js ''Declared floor'' @ [34] @
     js '' is read from each package manifest; CI fails if the two disagree.''"

lemma table_layout:
  "table rows = 60 # table_body rows @ 60 # table_note @ 60 # js ''/sub>'' @ [NL, NL] @ END_MARK"
proof -
  have mark: "BEGIN_MARK = 60 # drop 1 BEGIN_MARK" by (simp add: BEGIN_MARK_def js_def)
  let ?head = "[[], js ''| Runtime | Package | Declared floor | Exercised by CI |'', js ''|---|---|---|---|''] @
     map row_line rows @ [[]]"
  let ?note = "60 # table_note @ 60 # js ''/sub>''"
  have "table rows = join_with [NL] ((BEGIN_MARK # ?head) @ [?note, [], END_MARK])"
    by (simp add: table_def table_note_def js_def)
  also have "\<dots> = join_with [NL] (BEGIN_MARK # ?head) @ [NL] @ ?note @ [NL, NL] @ END_MARK"
    by (subst join_with_append) simp_all
  also have "join_with [NL] (BEGIN_MARK # ?head) = 60 # join_with [NL] (drop 1 BEGIN_MARK # ?head)"
    by (subst mark) (simp add: join_with_Cons)
  finally show ?thesis by (simp add: table_body_def)
qed

lemma table_body_clean: "list_all row_clean rows \<Longrightarrow> 60 \<notin> set (table_body rows)"
proof -
  assume "list_all row_clean rows"
  then have rows: "\<forall>l \<in> set (map row_line rows). 60 \<notin> set l" by (auto simp: list_all_iff row_line_clean)
  have "60 \<notin> set (drop 1 BEGIN_MARK)" "60 \<notin> set (js ''| Runtime | Package | Declared floor | Exercised by CI |'')"
    "60 \<notin> set (js ''|---|---|---|---|'')"
    by (simp_all add: BEGIN_MARK_def js_def)
  with rows show ?thesis
    using set_join_with [of "[NL]" "[drop 1 BEGIN_MARK, [], js ''| Runtime | Package | Declared floor | Exercised by CI |'',
      js ''|---|---|---|---|''] @ map row_line rows @ [[]]"]
    by (auto simp: table_body_def)
qed

lemma END_MARK_Cons: "END_MARK = 60 # 33 # 45 # 45 # 32 # 69 # drop 6 END_MARK"
  by (simp add: END_MARK_def js_def)

lemma not_END_MARK:
  "startsWith (60 # 115 # s) END_MARK = False" "startsWith (60 # 47 # s) END_MARK = False"
  "startsWith (60 # 33 # 45 # 45 # 32 # 66 # s) END_MARK = False"
  by (subst END_MARK_Cons, simp add: startsWith_def)+

lemma indexOf_table:
  assumes "list_all row_clean rows"
  shows "indexOf (table rows) END_MARK = Some (length (table rows) - length END_MARK)"
proof (rule indexOf_last)
  show "END_MARK = 60 # drop 1 END_MARK" by (simp add: END_MARK_def js_def)
  show "60 \<notin> set (table_body rows)" by (rule table_body_clean [OF assms])
  show "60 \<notin> set table_note" "60 \<notin> set (js ''/sub>'' @ [NL, NL])" by (simp_all add: table_note_def js_def)
  show "\<not> startsWith (60 # table_body rows @ z) END_MARK" for z
    using not_END_MARK(3) by (simp add: table_body_def BEGIN_MARK_def js_def join_with_Cons)
  show "\<not> startsWith (60 # table_note @ z) END_MARK" for z
    using not_END_MARK(1) by (simp add: table_note_def js_def)
  show "\<not> startsWith (60 # (js ''/sub>'' @ [NL, NL]) @ z) END_MARK" for z
    using not_END_MARK(2) by (simp add: js_def)
qed (simp add: table_layout)

interpretation support_block: generated_block BEGIN_MARK END_MARK table "list_all row_clean"
proof
  show "length END_MARK \<le> length BEGIN_MARK" by (simp add: BEGIN_MARK_def END_MARK_def js_def)
  show "startsWith (table rows) BEGIN_MARK" for rows by (simp add: table_def join_with_Cons)
qed (rule indexOf_table)

text \<open>
  Regenerating \<open>SUPPORT.md\<close>. When the file has its markers in order and \<open>--write\<close> rewrites it, the
  text before the block and after it is kept, the block becomes the wanted table, and checking the new
  file with the same data finds it up to date.
\<close>

theorem support_write_converges:
  assumes clean: "list_all row_clean rows"
    and i: "indexOf t BEGIN_MARK = Some i" and j: "indexOf t END_MARK = Some j" and ij: "i \<le> j"
    and w: "support True (table rows) (Some t) = ([], Some t')"
  shows "t' = take i t @ table rows @ drop (j + length END_MARK) t \<and>
    support write (table rows) (Some t') = ([], None)"
proof -
  have t': "t' = take i t @ table rows @ drop (j + length END_MARK) t"
    using w i j by (auto simp: support_def Let_def split: if_splits)
  from support_block.splice_found [OF i j ij clean t'] show ?thesis
    by (simp add: support_def Let_def t')
qed

definition example_support :: jsstring where
  "example_support = js ''Support'' @ [NL] @ BEGIN_MARK @ [NL] @ END_MARK @ [NL]"

definition example_rows :: "row list" where
  "example_rows = [\<lparr> row_label = js ''Go'', row_pkg = js ''go'', row_tested = js ''1.25, stable'',
     row_floor = js ''1.25'' \<rparr>]"

theorem support_write_converges_witness:
  "\<exists>t'. support True (table example_rows) (Some example_support) = ([], Some t') \<and>
     support False (table example_rows) (Some t') = ([], None)"
proof -
  have b: "indexOf example_support BEGIN_MARK = Some 8" and e: "indexOf example_support END_MARK = Some 49"
    and clean: "list_all row_clean example_rows" and
    stale: "slice 8 (49 + length END_MARK) example_support \<noteq> table example_rows"
    by (simp_all add: example_support_def BEGIN_MARK_def END_MARK_def js_def startsWith_def
        example_rows_def row_clean_def slice_def table_def)
  from b e stale obtain t' where "support True (table example_rows) (Some example_support) = ([], Some t')"
    by (simp add: support_def)
  with support_write_converges [OF clean b e _ this, of False] show ?thesis by auto
qed

end
