(* ===== verification/Version_Script.thy ===== *)
theory Version_Script
  imports Json
begin

text \<open>
  \<open>scripts/version.mjs\<close>: the places a package version appears, reading and writing them by a pattern
  that has to match exactly once, the check that all of them and the release dates agree, and the
  command line.

  The files of the repository are a map from paths to texts; a path outside it makes \<open>readFileSync\<close>
  throw. \<open>check\<close> returns its problems as values, one constructor per message; an exception that reaches
  the \<open>try\<close> around the commands is \<open>Inl\<close>.
\<close>

type_synonym files = "jsstring \<rightharpoonup> jsstring"

datatype version_error = ReadError jsstring | MatchCount nat | JsonError js_exn | NoVersionGiven

section \<open>Patterns\<close>

definition SEMVER :: regex where
  \<comment> \<open>\<open>/^(0|[1-9]\d*)\.(0|[1-9]\d*)\.(0|[1-9]\d*)(?:-[0-9A-Za-z.-]+)?$/\<close>\<close>
  "SEMVER = (let num = RAlt (RLit (js ''0'')) (RSeq (RChar (\<lambda>c. 49 \<le> c \<and> c \<le> 57)) (RStar True (RChar is_digit)))
     in RSeqs [RBol False, RGroup 1 num, RLit (js ''.''), RGroup 2 num, RLit (js ''.''), RGroup 3 num,
       ROpt (RSeq (RLit (js ''-'')) (RPlus True (RChar (\<lambda>c. is_digit c \<or> (65 \<le> c \<and> c \<le> 90) \<or>
         (97 \<le> c \<and> c \<le> 122) \<or> c = 46 \<or> c = 45)))), REol False])"

text \<open>
  The pattern of a version site: three groups (everything before the version, the version, everything
  after), with \<open>^\<close> and \<open>$\<close> of the \<open>m\<close> flag where the source has them.
\<close>

record site =
  vs_id :: jsstring
  vs_file :: jsstring
  vs_field :: jsstring
  vs_bol :: bool
  vs_before :: regex
  vs_version :: regex
  vs_after :: regex
  vs_eol :: bool

definition site_re :: "site \<Rightarrow> regex" where
  "site_re s = RSeq (if vs_bol s then RBol True else REps)
     (RSeq (RGroup 1 (vs_before s)) (RSeq (RGroup 2 (vs_version s)) (RSeq (RGroup 3 (vs_after s))
       (if vs_eol s then REol True else REps))))"

text \<open>\<open>match(pattern, text)\<close>: the only match, or an error.\<close>

definition match_once :: "regex \<Rightarrow> jsstring \<Rightarrow> version_error + match_result" where
  "match_once p t = (case matchAll p t of [m] \<Rightarrow> Inr m | ms \<Rightarrow> Inl (MatchCount (length ms)))"

definition site_read :: "site \<Rightarrow> jsstring \<Rightarrow> version_error + jsstring" where
  "site_read s t = map_sum id (\<lambda>m. the (group m 2)) (match_once (site_re s) t)"

definition site_write :: "site \<Rightarrow> jsstring \<Rightarrow> jsstring \<Rightarrow> version_error + jsstring" where
  "site_write s t v = map_sum id
     (\<lambda>_. replaceFirst (site_re s) (\<lambda>m. the (group m 1) @ v @ the (group m 3)) t) (match_once (site_re s) t)"

abbreviation not_char :: "cu \<Rightarrow> regex" where "not_char c \<equiv> RPlus True (RChar (\<lambda>x. x \<noteq> c))"
abbreviation non_spaces :: regex where "non_spaces \<equiv> RPlus True (RChar (\<lambda>c. \<not> is_space c))"
abbreviation nl :: regex where "nl \<equiv> RLit [NL]"

definition vsite ::
  "string \<Rightarrow> string \<Rightarrow> string \<Rightarrow> bool \<Rightarrow> regex \<Rightarrow> regex \<Rightarrow> regex \<Rightarrow> bool \<Rightarrow> site" where
  "vsite i f d b r1 r2 r3 e = \<lparr> vs_id = js i, vs_file = js f, vs_field = js d, vs_bol = b, vs_before = r1,
     vs_version = r2, vs_after = r3, vs_eol = e \<rparr>"

text \<open>The sites that carry the version; the quotes are \<open>34\<close> (double), \<open>39\<close> (single), \<open>96\<close> (back).\<close>

definition VERSIONED :: "site list" where
  "VERSIONED =
    [vsite ''typescript'' ''packages/typescript/package.json'' ''version'' True
       (RLit (js ''  '' @ [34] @ js ''version'' @ [34] @ js '': '' @ [34])) (not_char 34) (RLit ([34] @ js '','')) True,
     vsite ''python'' ''packages/python/pyproject.toml'' ''project.version'' True
       (RLit (js ''version = '' @ [34])) (not_char 34) (RLit [34]) True,
     vsite ''rust'' ''packages/rust/Cargo.toml'' ''package.version'' True
       (RSeqs [RLit (js ''name = '' @ [34] @ js ''nebula-token'' @ [34]), ROpt (RLit [13]), nl,
          RLit (js ''version = '' @ [34])]) (not_char 34) (RLit [34]) True,
     vsite ''java'' ''packages/java/pom.xml'' ''project.version'' False
       (RSeqs [RLit (js ''<artifactId>nebula-token</artifactId>''), RSpaces, nl, RSpaces, RLit (js ''<version>'')])
       (not_char 60) (RLit (js ''</version>'')) False,
     vsite ''csharp'' ''packages/csharp/src/NebulaToken/NebulaToken.csproj'' ''Version'' False
       (RLit (js ''<Version>'')) (not_char 60) (RLit (js ''</Version>'')) False,
     vsite ''dart'' ''packages/dart/pubspec.yaml'' ''version'' True
       (RLit (js ''version: '')) non_spaces RSpaces True,
     vsite ''ruby'' ''packages/ruby/nebula-token.gemspec'' ''spec.version'' False
       (RSeqs [RLit (js ''spec.version''), RSpaces, RLit (js ''=''), RSpaces, RLit [39]]) (not_char 39) (RLit [39]) False,
     vsite ''elixir'' ''packages/elixir/mix.exs'' ''version'' False
       (RSeqs [nl, RSpaces, RLit (js ''version: '' @ [34])]) (not_char 34) (RLit ([34] @ js '','')) False,
     vsite ''java-scm-tag'' ''packages/java/pom.xml'' ''project.scm.tag'' False
       (RLit (js ''<tag>v'')) (not_char 60) (RLit (js ''</tag>'')) False,
     vsite ''sonar'' ''sonar-project.properties'' ''sonar.projectVersion'' True
       (RLit (js ''sonar.projectVersion='')) non_spaces RSpaces True,
     vsite ''typescript-lock'' ''packages/typescript/package-lock.json'' ''version'' True
       (RLit (js ''  '' @ [34] @ js ''version'' @ [34] @ js '': '' @ [34])) (not_char 34) (RLit ([34] @ js '','')) True,
     vsite ''typescript-lock-root'' ''packages/typescript/package-lock.json'' ''packages.\"\".version'' False
       (RSeqs [RLit ([34, 34] @ js '': {''), RSpaces, nl, RSpaces,
          RLit ([34] @ js ''name'' @ [34] @ js '': '' @ [34] @ js ''nebula-token'' @ [34] @ js '',''), RSpaces, nl, RSpaces,
          RLit ([34] @ js ''version'' @ [34] @ js '': '' @ [34])]) (not_char 34) (RLit [34]) False,
     vsite ''java-readme-maven'' ''packages/java/README.md'' ''Maven install snippet'' False
       (RLit (js ''<version>'')) (not_char 60) (RLit (js ''</version>'')) False,
     vsite ''java-readme-gradle'' ''packages/java/README.md'' ''Gradle install snippet'' False
       (RLit (js ''implementation '' @ [39] @ js ''dev.nebulatoken:nebula-token:'')) (not_char 39) (RLit [39]) False,
     vsite ''java-skill'' ''packages/java/skills/nebula-token-java/SKILL.md'' ''install coordinate'' False
       (RLit (js ''Maven/Gradle: dev.nebulatoken:nebula-token:'')) non_spaces RSpaces True,
     vsite ''go-readme'' ''packages/go/README.md'' ''go get snippet'' False
       (RLit ([96] @ js ''go get '' @ [0x2026] @ js ''@v'')) (not_char 96) (RLit ([96] @ js '' resolves'')) False,
     vsite ''citation'' ''CITATION.cff'' ''version'' True
       (RLit (js ''version: '')) non_spaces RSpaces True]"

text \<open>The dated sites: group 1 is the version, group 2 the date.\<close>

definition date_re :: regex where \<comment> \<open>\<open>\d{4}-\d{2}-\d{2}\<close>\<close>
  "date_re = (let d = RChar is_digit in
     RSeqs [RTimes 4 d, RLit (js ''-''), RTimes 2 d, RLit (js ''-''), RTimes 2 d])"

definition CHANGELOG_RE :: regex where \<comment> \<open>\<open>/^## \[([^\]]+)\] - (\d{4}-\d{2}-\d{2})\s*$/m\<close>\<close>
  "CHANGELOG_RE = RSeqs [RBol True, RLit (js ''## [''), RGroup 1 (not_char 93), RLit (js ''] - ''),
     RGroup 2 date_re, RSpaces, REol True]"

definition CITATION_RE :: regex where
  \<comment> \<open>\<open>/^version: (\S+)[\s\S]*?^date-released: "(\d{4}-\d{2}-\d{2})"\s*$/m\<close>\<close>
  "CITATION_RE = RSeqs [RBol True, RLit (js ''version: ''), RGroup 1 non_spaces, RStar False RAny,
     RBol True, RLit (js ''date-released: '' @ [34]), RGroup 2 date_re, RLit [34], RSpaces, REol True]"

definition POM_DATE_RE :: regex where
  "POM_DATE_RE = RSeqs [RLit (js ''<artifactId>nebula-token</artifactId>''), RSpaces, RLit (js ''<version>''),
     RGroup 1 non_spaces, RLit (js ''</version>''), RStar False RAny,
     RLit (js ''<project.build.outputTimestamp>''), RGroup 2 date_re, RLit (js ''T''),
     RPlus True (RChar (\<lambda>c. is_digit c \<or> c = 58)), RLit (js ''Z</project.build.outputTimestamp>'')]"

definition DATED :: "(jsstring \<times> regex) list" where
  "DATED =
    map (\<lambda>f. (js f, CHANGELOG_RE)) [''CHANGELOG.md'', ''packages/typescript/CHANGELOG.md'',
      ''packages/python/CHANGELOG.md'', ''packages/rust/CHANGELOG.md'', ''packages/dart/CHANGELOG.md'',
      ''packages/ruby/CHANGELOG.md'', ''packages/elixir/CHANGELOG.md''] @
    [(js ''CITATION.cff'', CITATION_RE), (js ''packages/java/pom.xml'', POM_DATE_RE)]"

section \<open>Checking\<close>

datatype version_problem =
    CannotReadVersion jsstring version_error
  | NotSemver jsstring jsstring
  | SitesDisagree "jsstring list"
  | DeclaresVersion jsstring
  | NoDatedEntry jsstring
  | DocumentsOther jsstring jsstring jsstring
  | DatesDisagree "jsstring list"
  | ExpectNotSemver jsstring
  | NotExpected jsstring jsstring

definition read_file :: "files \<Rightarrow> jsstring \<Rightarrow> version_error + jsstring" where
  "read_file fs p = (case fs p of None \<Rightarrow> Inl (ReadError p) | Some t \<Rightarrow> Inr t)"

text \<open>\<open>collect()\<close>: each site with its version or the error that reading it raised.\<close>

definition collect :: "files \<Rightarrow> (site \<times> (version_error + jsstring)) list" where
  "collect fs = map (\<lambda>s. (s, case read_file fs (vs_file s) of Inl e \<Rightarrow> Inl e | Inr t \<Rightarrow> site_read s t)) VERSIONED"

definition row_problems :: "site \<times> (version_error + jsstring) \<Rightarrow> version_problem list" where
  "row_problems r = (case r of (s, Inl e) \<Rightarrow> [CannotReadVersion (vs_id s) e]
     | (s, Inr v) \<Rightarrow> if \<not> test SEMVER v then [NotSemver (vs_id s) v] else [])"

definition row_version :: "site \<times> (version_error + jsstring) \<Rightarrow> jsstring option" where
  "row_version r = (case r of (s, Inr v) \<Rightarrow> if v \<noteq> [] then Some v else None | (s, Inl _) \<Rightarrow> None)"

definition distinct_versions :: "files \<Rightarrow> jsstring list" where
  "distinct_versions fs = distinct_values (List.map_filter row_version (collect fs))"

text \<open>A character of a pattern with the \<open>i\<close> flag, for ASCII letters.\<close>

definition RChar_ci :: "cu \<Rightarrow> regex" where
  "RChar_ci c = RChar (\<lambda>x. x = c \<or> x = c - 32)"

definition GO_FORBIDDEN :: regex where \<comment> \<open>\<open>/^\s*version\s*[:=]/im\<close>\<close>
  "GO_FORBIDDEN = RSeqs (RBol True # RSpaces # map RChar_ci (js ''version'') @ [RSpaces, RChar (one_of '':='')])"

text \<open>The manifests that must not carry a version.\<close>

definition go_declares :: "jsstring \<Rightarrow> version_error + bool" where
  "go_declares t = Inr (test GO_FORBIDDEN t)"

definition php_declares :: "jsstring \<Rightarrow> version_error + bool" where
  "php_declares t = (case json_parse t of
     None \<Rightarrow> Inl (JsonError SyntaxError)
   | Some (JObj ps) \<Rightarrow> Inr (js ''version'' \<in> set (map fst ps))
   | Some (JArr _) \<Rightarrow> Inr False
   | Some _ \<Rightarrow> Inl (JsonError TypeError))"

definition UNVERSIONED :: "(jsstring \<times> jsstring \<times> (jsstring \<Rightarrow> version_error + bool)) list" where
  "UNVERSIONED = [(js ''go'', js ''packages/go/go.mod'', go_declares), (js ''php'', js ''composer.json'', php_declares)]"

definition unversioned_problems ::
  "files \<Rightarrow> jsstring \<times> jsstring \<times> (jsstring \<Rightarrow> version_error + bool) \<Rightarrow> version_error + version_problem list" where
  "unversioned_problems fs u = (case u of (i, f, declares) \<Rightarrow>
     case read_file fs f of Inl e \<Rightarrow> Inl e
     | Inr t \<Rightarrow> map_sum id (\<lambda>d. if d then [DeclaresVersion i] else []) (declares t))"

text \<open>\<open>checkDates\<close>: what a dated site says, its problems, and the disagreement of the dates.\<close>

definition dated_site :: "files \<Rightarrow> jsstring \<times> regex \<Rightarrow> version_error + (jsstring \<times> (jsstring \<times> jsstring) option)" where
  "dated_site fs d = (case d of (f, p) \<Rightarrow> map_sum id
     (\<lambda>t. (f, map_option (\<lambda>m. (the (group m 1), the (group m 2))) (exec p t))) (read_file fs f))"

definition dated_problems :: "jsstring option \<Rightarrow> jsstring \<times> (jsstring \<times> jsstring) option \<Rightarrow> version_problem list" where
  "dated_problems manifest d = (case d of (f, None) \<Rightarrow> [NoDatedEntry f]
     | (f, Some (version, date)) \<Rightarrow>
         if truthy manifest \<and> Some version \<noteq> manifest then [DocumentsOther f version (the manifest)] else [])"

definition checkDates :: "files \<Rightarrow> jsstring option \<Rightarrow> version_error + version_problem list" where
  "checkDates fs manifest = map_sum id
     (\<lambda>seen. let dates = distinct_values (List.map_filter (map_option snd \<circ> snd) seen) in
        concat (map (dated_problems manifest) seen) @
        (if length dates > 1 then [DatesDisagree dates] else []))
     (traverse (dated_site fs) DATED)"

definition expect_problems :: "jsstring list \<Rightarrow> jsstring option \<Rightarrow> version_problem list" where
  "expect_problems versions expected = (case expected of None \<Rightarrow> []
     | Some x \<Rightarrow>
         if \<not> test SEMVER x then [ExpectNotSemver x]
         else case versions of [v] \<Rightarrow> if v \<noteq> x then [NotExpected v x] else [] | _ \<Rightarrow> [])"

definition version_check :: "files \<Rightarrow> jsstring option \<Rightarrow> version_error + version_problem list" where
  "version_check fs expected =
     (let rows = collect fs; versions = distinct_versions fs in
      case traverse (unversioned_problems fs) UNVERSIONED of Inl e \<Rightarrow> Inl e
      | Inr un \<Rightarrow>
        (case checkDates fs (case versions of [v] \<Rightarrow> Some v | _ \<Rightarrow> None) of Inl e \<Rightarrow> Inl e
         | Inr dates \<Rightarrow> Inr (
             concat (map row_problems rows) @
             (if length versions > 1 then [SitesDisagree versions] else []) @
             concat un @ dates @ expect_problems versions expected)))"

section \<open>Writing\<close>

text \<open>
  The loop of \<open>set\<close>: every site is read from the file as the sites before it have left it; the first
  error ends the loop, with the files written until then.
\<close>

fun set_sites :: "jsstring \<Rightarrow> site list \<Rightarrow> files \<Rightarrow> files \<times> version_error option" where
  "set_sites v [] fs = (fs, None)"
| "set_sites v (s # ss) fs =
     (case read_file fs (vs_file s) of
        Inl e \<Rightarrow> (fs, Some e)
      | Inr before \<Rightarrow>
          (case site_write s before v of
             Inl e \<Rightarrow> (fs, Some e)
           | Inr after \<Rightarrow>
               set_sites v ss (if before \<noteq> after then fs(vs_file s \<mapsto> after) else fs)))"

text \<open>The command line: the exit status and the files afterwards.\<close>

definition version_main :: "jsstring list \<Rightarrow> files \<Rightarrow> int \<times> files" where
  "version_main argv fs =
     (case argv of
        [] \<Rightarrow> (2, fs)
      | cmd # rest \<Rightarrow>
          if cmd = js ''check'' then
            let after = dropWhile (\<lambda>a. a \<noteq> js ''--expect'') rest;
                expected = (case after of _ # x # _ \<Rightarrow> Some x | _ \<Rightarrow> None)
            in ((case version_check fs expected of Inr [] \<Rightarrow> 0 | _ \<Rightarrow> 1), fs)
          else if cmd = js ''set'' then
            (case rest of
               [] \<Rightarrow> (1, fs)
             | v # _ \<Rightarrow>
                 if v = [] \<or> \<not> test SEMVER v then (1, fs)
                 else case set_sites v VERSIONED fs of (fs', e) \<Rightarrow> (if e = None then 0 else 1, fs'))
          else (2, fs))"

end
