(* ===== verification/Version_Check.thy ===== *)
theory Version_Check
  imports Version_Script
begin

text \<open>
  What \<open>scripts/version.mjs\<close> guarantees: writing a site replaces the version and nothing else, \<open>set\<close>
  changes files only by such edits, and \<open>check\<close> passes exactly when all sites agree.
\<close>

section \<open>Edits are surgical\<close>

definition site_plain :: "site \<Rightarrow> bool" where
  "site_plain s \<longleftrightarrow> no_groups (vs_before s) \<and> no_groups (vs_version s) \<and> no_groups (vs_after s)"

lemma VERSIONED_plain: "s \<in> set VERSIONED \<Longrightarrow> site_plain s"
proof -
  have "list_all site_plain VERSIONED"
    by (simp add: VERSIONED_def vsite_def site_plain_def RPlus_def ROpt_def RSpaces_def)
  then show "s \<in> set VERSIONED \<Longrightarrow> site_plain s" by (simp add: list_all_iff)
qed

lemma rmatch_anchor:
  "st' \<in> set (rmatch (if c then RBol True else REps) st) \<Longrightarrow> st' = st"
  "st' \<in> set (rmatch (if c then REol True else REps) st) \<Longrightarrow> st' = st"
  by (auto split: if_splits)

lemma rmatch_RSeqE:
  assumes "st' \<in> set (rmatch (RSeq r q) st)"
  obtains u where "u \<in> set (rmatch r st)" "st' \<in> set (rmatch q u)"
  using assms that by (auto simp del: split_paired_Ex)

lemma rmatch_site:
  assumes "st \<in> set (rmatch (site_re s) (b, a, []))" "site_plain s"
  obtains x y z a' where "a = x @ y @ z @ a'" "st = (rev (x @ y @ z) @ b, a', [(3, z), (2, y), (1, x)])"
proof -
  note p = assms(2) [unfolded site_plain_def]
  from assms(1) obtain u where u: "u \<in> set (rmatch (if vs_bol s then RBol True else REps) (b, a, []))"
    and su: "st \<in> set (rmatch (RSeq (RGroup 1 (vs_before s)) (RSeq (RGroup 2 (vs_version s))
      (RSeq (RGroup 3 (vs_after s)) (if vs_eol s then REol True else REps)))) u)"
    unfolding site_re_def by (rule rmatch_RSeqE)
  have "u = (b, a, [])" using u by (rule rmatch_anchor(1))
  with su have "st \<in> set (rmatch (RSeq (RGroup 1 (vs_before s)) (RSeq (RGroup 2 (vs_version s))
      (RSeq (RGroup 3 (vs_after s)) (if vs_eol s then REol True else REps)))) (b, a, []))"
    by simp
  then obtain u1 where u1: "u1 \<in> set (rmatch (RGroup 1 (vs_before s)) (b, a, []))"
    and s1: "st \<in> set (rmatch (RSeq (RGroup 2 (vs_version s)) (RSeq (RGroup 3 (vs_after s))
       (if vs_eol s then REol True else REps))) u1)"
    by (rule rmatch_RSeqE)
  obtain x a1 where x: "a = x @ a1" "u1 = (rev x @ b, a1, [(1, x)])"
    using rmatch_group_consumes [OF u1] p by blast
  from s1 x obtain u2 where u2: "u2 \<in> set (rmatch (RGroup 2 (vs_version s)) (rev x @ b, a1, [(1, x)]))"
    and s2: "st \<in> set (rmatch (RSeq (RGroup 3 (vs_after s)) (if vs_eol s then REol True else REps)) u2)"
    by (metis rmatch_RSeqE)
  obtain y a2 where y: "a1 = y @ a2" "u2 = (rev y @ rev x @ b, a2, [(2, y), (1, x)])"
    using rmatch_group_consumes [OF u2] p by blast
  from s2 y obtain u3 where u3: "u3 \<in> set (rmatch (RGroup 3 (vs_after s)) (rev y @ rev x @ b, a2, [(2, y), (1, x)]))"
    and s3: "st \<in> set (rmatch (if vs_eol s then REol True else REps) u3)"
    by (metis rmatch_RSeqE)
  obtain z a3 where z: "a2 = z @ a3" "u3 = (rev z @ rev y @ rev x @ b, a3, [(3, z), (2, y), (1, x)])"
    using rmatch_group_consumes [OF u3] p by blast
  have "st = u3" using s3 by (rule rmatch_anchor(2))
  then show ?thesis using that [of x y z a3] x y z by simp
qed

lemma match_once_Inr:
  assumes "match_once p t = Inr m"
  shows "exec p t = Some m"
proof -
  have "matchAll p t = [m]" using assms by (auto simp: match_once_def split: list.splits)
  then show ?thesis
    by (auto simp: matchAll_def exec_def split: option.splits prod.splits if_splits list.splits)
qed

text \<open>
  Where the version of a site stands: the site's pattern matches the text once, \<open>old\<close> is its second group, and
  \<open>pre\<close> and \<open>post\<close> are the text before and after it, the first and the third group included.
\<close>

definition version_at :: "site \<Rightarrow> jsstring \<Rightarrow> jsstring \<Rightarrow> jsstring \<Rightarrow> bool" where
  "version_at s pre old post \<longleftrightarrow> (\<exists>m u x z a. matchAll (site_re s) (pre @ old @ post) = [m] \<and>
     m_index m = length u \<and> m_text m = x @ old @ z \<and>
     group m 1 = Some x \<and> group m 2 = Some old \<and> group m 3 = Some z \<and> pre = u @ x \<and> post = z @ a)"

lemma site_match:
  assumes "s \<in> set VERSIONED" "matchAll (site_re s) t = [m]"
  obtains u x y z a where "t = (u @ x) @ y @ z @ a" "m_index m = length u" "m_text m = x @ y @ z"
    "group m 1 = Some x" "group m 2 = Some y" "group m 3 = Some z"
    "site_read s t = Inr y" "site_write s t v = Inr ((u @ x) @ v @ z @ a)"
proof -
  have once: "match_once (site_re s) t = Inr m" using assms(2) by (simp add: match_once_def)
  then have ex: "exec (site_re s) t = Some m" by (rule match_once_Inr)
  then obtain b0 st where h: "search_from (site_re s) [] t = Some (b0, st)" and m: "m = match_of (b0, st)"
    by (auto simp: exec_def)
  from search_from_SomeD [OF h] obtain u r sts where t: "t = u @ r" and b0: "b0 = rev u"
    and st: "rmatch (site_re s) (b0, r, []) = st # sts"
    by auto
  from st have "st \<in> set (rmatch (site_re s) (b0, r, []))" by simp
  then obtain x y z a where r: "r = x @ y @ z @ a" and st': "st = (rev (x @ y @ z) @ b0, a, [(3, z), (2, y), (1, x)])"
    by (rule rmatch_site) (rule VERSIONED_plain [OF assms(1)])
  have g: "group m 1 = Some x" "group m 2 = Some y" "group m 3 = Some z"
    and idx: "m_index m = length u" and mtext: "m_text m = x @ y @ z"
    using m st' b0 by (simp_all add: match_of_def group_def)
  have "site_read s t = Inr y" using once g by (simp add: site_read_def)
  moreover have "site_write s t v = Inr ((u @ x) @ v @ z @ a)"
    using once ex g idx mtext t r by (simp add: site_write_def replaceFirst_def)
  moreover have "t = (u @ x) @ y @ z @ a" using t r by simp
  ultimately show thesis using that g idx mtext by blast
qed

lemma site_write_Inl: "length (matchAll (site_re s) t) \<noteq> 1 \<Longrightarrow>
    site_read s t = Inl (MatchCount (length (matchAll (site_re s) t))) \<and>
    site_write s t v = Inl (MatchCount (length (matchAll (site_re s) t)))"
  by (auto simp: site_read_def site_write_def match_once_def split: list.split)

lemma single_match: "length (matchAll r t) = 1 \<Longrightarrow> \<exists>m. matchAll r t = [m]"
  by (cases "matchAll r t") auto

text \<open>Writing puts the version exactly where it stood.\<close>

lemma site_write_iff:
  assumes "s \<in> set VERSIONED"
  shows "site_write s t v = Inr t' \<longleftrightarrow> (\<exists>pre old post. t = pre @ old @ post \<and> version_at s pre old post \<and> t' = pre @ v @ post)"
proof
  assume w: "site_write s t v = Inr t'"
  then obtain m where m: "matchAll (site_re s) t = [m]"
    using site_write_Inl [of s t v] single_match [of "site_re s" t] by fastforce
  then show "\<exists>pre old post. t = pre @ old @ post \<and> version_at s pre old post \<and> t' = pre @ v @ post"
  proof (rule site_match [OF assms, where v = v])
    fix u x y z a
    assume h: "t = (u @ x) @ y @ z @ a" "m_index m = length u" "m_text m = x @ y @ z"
      "group m 1 = Some x" "group m 2 = Some y" "group m 3 = Some z" "site_write s t v = Inr ((u @ x) @ v @ z @ a)"
    have "version_at s (u @ x) y (z @ a)"
      unfolding version_at_def
      by (rule exI [of _ m], rule exI [of _ u], rule exI [of _ x], rule exI [of _ z], rule exI [of _ a])
        (use m h in simp)
    moreover have "t' = (u @ x) @ v @ z @ a" using w h(7) by simp
    ultimately show ?thesis using h(1) by (intro exI [of _ "u @ x"] exI [of _ y] exI [of _ "z @ a"]) simp
  qed
next
  assume "\<exists>pre old post. t = pre @ old @ post \<and> version_at s pre old post \<and> t' = pre @ v @ post"
  then obtain pre old post where t: "t = pre @ old @ post" "version_at s pre old post" "t' = pre @ v @ post" by blast
  from t(2) obtain m u x z a where p: "matchAll (site_re s) (pre @ old @ post) = [m]" "pre = u @ x" "post = z @ a"
      "m_index m = length u" "group m 1 = Some x" "group m 2 = Some old" "group m 3 = Some z"
    unfolding version_at_def by (elim exE conjE)
  have g: "matchAll (site_re s) t = [m]" "t = (u @ x) @ old @ z @ a" "t' = (u @ x) @ v @ z @ a"
    using p(1) unfolding t(1) t(3) p(2) p(3) by simp_all
  show "site_write s t v = Inr t'"
  proof (rule site_match [OF assms g(1), where v = v])
    fix u' x' y' z' a'
    assume h: "t = (u' @ x') @ y' @ z' @ a'" "m_index m = length u'"
      "group m 1 = Some x'" "group m 2 = Some y'" "group m 3 = Some z'" "site_write s t v = Inr ((u' @ x') @ v @ z' @ a')"
    then have "x' = x" "y' = old" "z' = z" "length u' = length u" using p(4-7) by simp_all
    then have "u' = u" "a' = a" using h(1) g(2) by simp_all
    then show ?thesis using h(6) g(3) \<open>x' = x\<close> \<open>z' = z\<close> by simp
  qed
qed

lemma site_write_cases:
  assumes "s \<in> set VERSIONED"
  shows "case site_read s t of
      Inr old \<Rightarrow> \<exists>pre post. t = pre @ old @ post \<and> site_write s t v = Inr (pre @ v @ post)
    | Inl e \<Rightarrow> site_write s t v = Inl e"
proof (cases "length (matchAll (site_re s) t) = 1")
  case True
  then obtain m where "matchAll (site_re s) t = [m]" using single_match by blast
  then show ?thesis
  proof (rule site_match [OF assms, where v = v])
    fix u x y z a
    assume "t = (u @ x) @ y @ z @ a" "site_read s t = Inr y" "site_write s t v = Inr ((u @ x) @ v @ z @ a)"
    then show ?thesis unfolding \<open>site_read s t = Inr y\<close> sum.case by blast
  qed
qed (use site_write_Inl [of s t v] in simp)

text \<open>
  Writing a version site. When the site's pattern matches exactly once, so that it reads a
  version, writing replaces that occurrence and keeps every other code unit of the file; otherwise
  writing raises the error that reading raises.
\<close>

theorem site_write_surgical:
  assumes "s \<in> set VERSIONED"
  shows "case site_read s t of
      Inr old \<Rightarrow> \<exists>pre post. t = pre @ old @ post \<and> site_write s t v = Inr (pre @ v @ post)
    | Inl e \<Rightarrow> site_write s t v = Inl e"
  using assms by (rule site_write_cases)

definition dart_site :: site where
  "dart_site = vsite ''dart'' ''packages/dart/pubspec.yaml'' ''version'' True
     (RLit (js ''version: '')) non_spaces RSpaces True"

definition example_pubspec :: jsstring where
  "example_pubspec = js ''name: n'' @ [NL] @ js ''version: 1.0.0''"

theorem site_write_surgical_witness:
  "dart_site \<in> set VERSIONED \<and> site_read dart_site example_pubspec = Inr (js ''1.0.0'') \<and>
   (\<exists>pre post. example_pubspec = pre @ js ''1.0.0'' @ post \<and>
      site_write dart_site example_pubspec (js ''1.2.0'') = Inr (pre @ js ''1.2.0'' @ post))"
proof -
  have d: "dart_site \<in> set VERSIONED" by (simp add: dart_site_def VERSIONED_def)
  have r: "site_read dart_site example_pubspec = Inr (js ''1.0.0'')" by code_simp
  show ?thesis
    using site_write_surgical [OF d, of example_pubspec "js ''1.2.0''"] d r unfolding r by simp
qed

section \<open>What \<open>set\<close> changes\<close>

text \<open>
  Writing the sites in order: each has its version replaced where it stands in the file as the sites before it
  have left it, until a file is missing or a pattern does not match exactly once.
\<close>

inductive sites_written :: "jsstring \<Rightarrow> site list \<Rightarrow> files \<Rightarrow> files \<Rightarrow> version_error option \<Rightarrow> bool" for v where
  all_written: "sites_written v [] fs fs None"
| one_written: "fs (vs_file s) = Some (pre @ old @ post) \<Longrightarrow> version_at s pre old post \<Longrightarrow>
    sites_written v ss (fs(vs_file s \<mapsto> pre @ v @ post)) fs' e \<Longrightarrow> sites_written v (s # ss) fs fs' e"
| file_missing: "fs (vs_file s) = None \<Longrightarrow> sites_written v (s # ss) fs fs (Some (ReadError (vs_file s)))"
| not_once: "fs (vs_file s) = Some t \<Longrightarrow> length (matchAll (site_re s) t) \<noteq> 1 \<Longrightarrow>
    sites_written v (s # ss) fs fs (Some (MatchCount (length (matchAll (site_re s) t))))"

lemma set_sites_written:
  "set ss \<subseteq> set VERSIONED \<Longrightarrow> set_sites v ss fs = (fs', e) \<Longrightarrow> sites_written v ss fs fs' e"
proof (induction ss arbitrary: fs)
  case (Cons s ss)
  show ?case
  proof (cases "fs (vs_file s)")
    case None
    then show ?thesis
      using Cons.prems(2) sites_written.file_missing [of fs s v ss, OF None] by (auto simp: read_file_def)
  next
    case (Some t)
    show ?thesis
    proof (cases "site_write s t v")
      case (Inl err)
      have "length (matchAll (site_re s) t) \<noteq> 1"
      proof
        assume "length (matchAll (site_re s) t) = 1"
        then obtain m where m: "matchAll (site_re s) t = [m]" using single_match by blast
        have "s \<in> set VERSIONED" using Cons.prems(1) by simp
        then obtain t' where "site_write s t v = Inr t'" by (rule site_match [OF _ m, where v = v])
        then show False using Inl by simp
      qed
      then show ?thesis
        using Cons.prems(2) Some Inl site_write_Inl [of s t v] sites_written.not_once [of fs s t v ss, OF Some]
        by (auto simp: read_file_def)
    next
      case (Inr t')
      then obtain pre old post where h: "t = pre @ old @ post" "version_at s pre old post" "t' = pre @ v @ post"
        using site_write_iff [of s t v t'] Cons.prems(1) by auto
      have "(if t \<noteq> t' then fs(vs_file s \<mapsto> t') else fs) = fs(vs_file s \<mapsto> t')" using Some by auto
      then have "set_sites v ss (fs(vs_file s \<mapsto> t')) = (fs', e)"
        using Cons.prems(2) Some Inr by (simp add: read_file_def)
      then have "sites_written v ss (fs(vs_file s \<mapsto> pre @ v @ post)) fs' e"
        using Cons.IH Cons.prems(1) h(3) by simp
      with Some h(2) show ?thesis unfolding h(1) by (rule sites_written.one_written)
    qed
  qed
qed (simp add: sites_written.all_written)

lemma sites_written_files:
  "sites_written v ss fs fs' e \<Longrightarrow> {p. fs' p \<noteq> fs p} \<subseteq> vs_file ` set ss"
  by (induction rule: sites_written.induct) (auto split: if_splits)

lemma SEMVER_not_Nil: "\<not> test SEMVER []"
  by code_simp

text \<open>
  \<^bold>\<open>C27.\<close> What \<open>set\<close> writes. Given a semantic version, \<open>version.mjs\<close> goes through the sites of the version table
  in order and replaces the version of each, and nothing else of its file: the text before the version and the
  text after it, with the first and the third group of the pattern, stay as they are. It stops with status 1, and
  the files as written until then, at the first file that is missing or whose pattern does not match exactly
  once; otherwise it ends with status 0. It changes only files of the table. Any other command line changes
  nothing, and \<open>set\<close> without a semantic version ends with status 1.
\<close>

theorem version_main_edits:
  "case version_main argv fs of (status, fs') \<Rightarrow>
     if \<exists>v rest. argv = js ''set'' # v # rest \<and> test SEMVER v
     then (\<exists>e. sites_written (argv ! 1) VERSIONED fs fs' e \<and> status = (if e = None then 0 else 1)) \<and>
       {p. fs' p \<noteq> fs p} \<subseteq> vs_file ` set VERSIONED
     else fs' = fs \<and> (if take 1 argv = [js ''set''] then status = 1 else True)"
proof (cases "\<exists>v rest. argv = js ''set'' # v # rest \<and> test SEMVER v")
  case True
  then obtain v rest where argv: "argv = js ''set'' # v # rest" "test SEMVER v" by blast
  then have v: "v \<noteq> []" using SEMVER_not_Nil by auto
  obtain fs' e where set: "set_sites v VERSIONED fs = (fs', e)" by fastforce
  have "js ''set'' \<noteq> js ''check''" by (simp add: js_def)
  then have "version_main argv fs = (if e = None then 0 else 1, fs')"
    using argv v set by (simp add: version_main_def)
  then show ?thesis
    using True argv set_sites_written [OF subset_refl set] sites_written_files [of v VERSIONED fs fs' e] by auto
next
  case False
  have "js ''set'' \<noteq> js ''check''" by (simp add: js_def)
  have "snd (version_main argv fs) = fs \<and> (take 1 argv = [js ''set''] \<longrightarrow> fst (version_main argv fs) = 1)"
  proof (cases argv)
    case (Cons c rest)
    show ?thesis
    proof (cases "c = js ''set''")
      case True
      then show ?thesis
        using False Cons \<open>js ''set'' \<noteq> js ''check''\<close> by (cases rest) (simp_all add: version_main_def)
    qed (simp add: Cons version_main_def Let_def)
  qed (simp add: version_main_def)
  then show ?thesis unfolding if_not_P [OF False] by (cases "version_main argv fs") simp
qed

section \<open>When the check passes\<close>

definition site_value :: "files \<Rightarrow> site \<Rightarrow> version_error + jsstring" where
  "site_value fs s = (case read_file fs (vs_file s) of Inl e \<Rightarrow> Inl e | Inr t \<Rightarrow> site_read s t)"

lemma collect_eq: "collect fs = map (\<lambda>s. (s, site_value fs s)) VERSIONED"
  by (simp add: collect_def site_value_def)

lemma rows_clean_iff:
  "concat (map row_problems (collect fs)) = [] \<and> length (distinct_versions fs) \<le> 1 \<longleftrightarrow>
    (\<exists>v. test SEMVER v \<and> list_all (\<lambda>s. site_value fs s = Inr v) VERSIONED)" (is "?L \<longleftrightarrow> ?R")
proof
  assume L: ?L
  have ok: "\<exists>v. site_value fs s = Inr v \<and> test SEMVER v" if "s \<in> set VERSIONED" for s
  proof -
    have "row_problems (s, site_value fs s) = []"
      using L that by (auto simp: collect_eq concat_eq_Nil_conv)
    then show ?thesis by (cases "site_value fs s") (auto simp: row_problems_def split: if_splits)
  qed
  have mem: "v \<in> set (List.map_filter row_version (collect fs))"
    if "s \<in> set VERSIONED" "site_value fs s = Inr v" "test SEMVER v" for s v
    using that SEMVER_not_Nil by (force simp: List.map_filter_def collect_eq row_version_def)
  have agree: "\<forall>x \<in> set (List.map_filter row_version (collect fs)).
      \<forall>y \<in> set (List.map_filter row_version (collect fs)). x = y"
    using L unfolding distinct_versions_def length_distinct_values_le_1 by blast
  have "hd VERSIONED \<in> set VERSIONED" by (simp add: VERSIONED_def)
  with ok obtain v where v: "site_value fs (hd VERSIONED) = Inr v" "test SEMVER v" by blast
  have "site_value fs s = Inr v" if s: "s \<in> set VERSIONED" for s
  proof -
    obtain w where w: "site_value fs s = Inr w" "test SEMVER w" using ok s by blast
    then show ?thesis
      using agree mem [OF s w] mem [OF \<open>hd VERSIONED \<in> set VERSIONED\<close> v] by auto
  qed
  with v show ?R by (auto simp: list_all_iff)
next
  assume ?R
  then obtain v where v: "test SEMVER v" "\<forall>s \<in> set VERSIONED. site_value fs s = Inr v"
    by (auto simp: list_all_iff)
  have "\<forall>r \<in> set (collect fs). row_problems r = []"
    using v by (auto simp: collect_eq row_problems_def)
  moreover have "set (List.map_filter row_version (collect fs)) \<subseteq> {v}"
    using v by (auto simp: List.map_filter_def collect_eq row_version_def split: if_splits)
  ultimately show ?L
    unfolding distinct_versions_def length_distinct_values_le_1
    by (auto simp: concat_eq_Nil_conv)
qed

lemma singleton_of_set: "distinct xs \<Longrightarrow> set xs = {v} \<Longrightarrow> xs = [v]"
  by (cases xs; cases "tl xs") auto

lemma distinct_versions_single:
  assumes "test SEMVER v" "list_all (\<lambda>s. site_value fs s = Inr v) VERSIONED"
  shows "distinct_versions fs = [v]"
proof -
  have "v \<noteq> []" using assms(1) SEMVER_not_Nil by auto
  then have "set (List.map_filter row_version (collect fs)) = {v}"
    using assms(2) by (force simp: List.map_filter_def collect_eq row_version_def list_all_iff VERSIONED_def)
  then have "set (distinct_versions fs) = {v}" "distinct (distinct_versions fs)"
    by (simp_all add: distinct_versions_def)
  then show ?thesis by (rule singleton_of_set [rotated])
qed

lemma DATED_captures: "d \<in> set DATED \<Longrightarrow> always_captures 1 (snd d) \<and> always_captures 2 (snd d)"
proof -
  have "list_all (\<lambda>d. always_captures 1 (snd d) \<and> always_captures 2 (snd d)) DATED"
    by (simp add: DATED_def CHANGELOG_RE_def CITATION_RE_def POM_DATE_RE_def del: One_nat_def)
  then show "d \<in> set DATED \<Longrightarrow> ?thesis" by (simp add: list_all_iff)
qed

text \<open>What a dated site says, when it is readable and has an entry.\<close>

definition dated_as :: "files \<Rightarrow> jsstring \<Rightarrow> jsstring \<Rightarrow> jsstring \<times> regex \<Rightarrow> bool" where
  "dated_as fs v date d \<longleftrightarrow>
     (\<exists>t m. fs (fst d) = Some t \<and> exec (snd d) t = Some m \<and> group m 1 = Some v \<and> group m 2 = Some date)"

lemma dated_site_iff:
  assumes "d \<in> set DATED"
  shows "dated_site fs d = Inr (f, Some (v, date)) \<longleftrightarrow> f = fst d \<and> dated_as fs v date d"
proof -
  have "\<exists>x y. group m 1 = Some x \<and> group m 2 = Some y" if "exec (snd d) t = Some m" for t m
    using that DATED_captures [OF assms] by (metis exec_group)
  then show ?thesis
    by (cases d; cases "fs (fst d)"; cases "exec (snd d) (the (fs (fst d)))")
      (fastforce simp: dated_site_def dated_as_def read_file_def)+
qed

lemma checkDates_clean_iff:
  assumes "v \<noteq> []"
  shows "checkDates fs (Some v) = Inr [] \<longleftrightarrow> (\<exists>date. list_all (dated_as fs v date) DATED)" (is "?L \<longleftrightarrow> ?R")
proof
  assume L: ?L
  then obtain seen where tr: "traverse (dated_site fs) DATED = Inr seen"
    and ps: "(let dates = distinct_values (List.map_filter (map_option snd \<circ> snd) seen) in
        concat (map (dated_problems (Some v)) seen) @
        (if length dates > 1 then [DatesDisagree dates] else [])) = []"
    unfolding checkDates_def map_sum_Inr_iff by blast
  from ps have clean: "\<forall>d \<in> set seen. dated_problems (Some v) d = []"
    and one: "length (distinct_values (List.map_filter (map_option snd \<circ> snd) seen)) \<le> 1"
    unfolding Let_def append_is_Nil_conv concat_eq_Nil_conv by (auto split: if_splits)
  have val: "\<exists>date. dated_site fs d = Inr (fst d, Some (v, date)) \<and>
      date \<in> set (List.map_filter (map_option snd \<circ> snd) seen)" if d: "d \<in> set DATED" for d
  proof -
    have "\<not> isl (dated_site fs d)" "projr (dated_site fs d) \<in> set seen"
      using tr d unfolding traverse_Inr_map by auto
    then obtain y where y: "dated_site fs d = Inr y" "y \<in> set seen" by (cases "dated_site fs d") auto
    obtain f x where fx: "y = (f, x)" by (cases y)
    from clean y(2) have "dated_problems (Some v) (f, x) = []" using fx by blast
    then obtain date where x: "x = Some (v, date)"
      using assms by (cases x) (auto simp: dated_problems_def split: if_splits)
    have "f = fst d" using y(1) fx dated_site_iff [OF d] x by blast
    moreover have "date \<in> set (List.map_filter (map_option snd \<circ> snd) seen)"
      using y(2) fx x by (force simp: List.map_filter_def)
    ultimately show ?thesis using y(1) fx x by blast
  qed
  have "hd DATED \<in> set DATED" by (simp add: DATED_def)
  with val obtain date where date: "date \<in> set (List.map_filter (map_option snd \<circ> snd) seen)" by blast
  have "dated_as fs v date d" if d: "d \<in> set DATED" for d
  proof -
    obtain e where e: "dated_site fs d = Inr (fst d, Some (v, e))"
      "e \<in> set (List.map_filter (map_option snd \<circ> snd) seen)" using val [OF d] by blast
    then have "e = date" using one date unfolding length_distinct_values_le_1 by blast
    then show ?thesis using e(1) dated_site_iff [OF d] by blast
  qed
  then have "list_all (dated_as fs v date) DATED" unfolding list_all_iff by blast
  then show ?R by blast
next
  assume ?R
  then obtain date where "\<forall>d \<in> set DATED. dated_as fs v date d" by (auto simp: list_all_iff)
  then have val: "\<forall>d \<in> set DATED. dated_site fs d = Inr (fst d, Some (v, date))"
    using dated_site_iff by blast
  let ?seen = "map (\<lambda>d. (fst d, Some (v, date))) DATED"
  have tr: "traverse (dated_site fs) DATED = Inr ?seen" using val by (auto simp: traverse_Inr_map)
  have "\<forall>d \<in> set ?seen. dated_problems (Some v) d = []" by (auto simp: dated_problems_def)
  moreover have "length (distinct_values (List.map_filter (map_option snd \<circ> snd) ?seen)) \<le> 1"
    unfolding length_distinct_values_le_1 by (auto simp: List.map_filter_def)
  ultimately show ?L using tr by (auto simp: checkDates_def Let_def concat_eq_Nil_conv)
qed

lemma unversioned_clean_iff:
  "(\<exists>un. traverse (unversioned_problems fs) UNVERSIONED = Inr un \<and> concat un = []) \<longleftrightarrow>
    (\<exists>t. fs (js ''packages/go/go.mod'') = Some t \<and> \<not> test GO_FORBIDDEN t) \<and>
    (\<exists>t. fs (js ''composer.json'') = Some t \<and> php_declares t = Inr False)"
  by (auto simp: UNVERSIONED_def unversioned_problems_def read_file_def go_declares_def map_sum_Inr_iff
      split: option.splits sum.splits if_splits)

text \<open>
  \<^bold>\<open>C26.\<close> Version agreement. \<open>check\<close> finds no problem exactly when one semantic version is read at every
  version site, the Go and PHP manifests declare none, every dated site documents that version with
  one common date, and the expected version, when given, is that one.
\<close>

theorem version_check_passes_iff:
  "version_check fs expected = Inr [] \<longleftrightarrow>
    (\<exists>v date. test SEMVER v \<and>
      list_all (\<lambda>s. \<exists>t. fs (vs_file s) = Some t \<and> site_read s t = Inr v) VERSIONED \<and>
      (\<exists>t. fs (js ''packages/go/go.mod'') = Some t \<and> \<not> test GO_FORBIDDEN t) \<and>
      (\<exists>t. fs (js ''composer.json'') = Some t \<and> php_declares t = Inr False) \<and>
      list_all (\<lambda>d. \<exists>t m. fs (fst d) = Some t \<and> exec (snd d) t = Some m \<and>
        group m 1 = Some v \<and> group m 2 = Some date) DATED \<and>
      (expected = None \<or> expected = Some v))"
proof -
  let ?un = "(\<exists>t. fs (js ''packages/go/go.mod'') = Some t \<and> \<not> test GO_FORBIDDEN t) \<and>
      (\<exists>t. fs (js ''composer.json'') = Some t \<and> php_declares t = Inr False)"
  have sv: "(\<exists>t. fs (vs_file s) = Some t \<and> site_read s t = Inr v) \<longleftrightarrow> site_value fs s = Inr v" for s v
    by (auto simp: site_value_def read_file_def split: option.splits)
  have ex: "expect_problems [v] expected = [] \<longleftrightarrow> expected = None \<or> expected = Some v" if "test SEMVER v" for v
    using that by (auto simp: expect_problems_def split: option.splits)
  define vs where "vs = distinct_versions fs"
  have "version_check fs expected = Inr [] \<longleftrightarrow>
      concat (map row_problems (collect fs)) = [] \<and> length vs \<le> 1 \<and> ?un \<and>
      checkDates fs (case vs of [v] \<Rightarrow> Some v | _ \<Rightarrow> None) = Inr [] \<and> expect_problems vs expected = []"
    unfolding version_check_def Let_def vs_def [symmetric] unversioned_clean_iff [symmetric]
    by (auto split: sum.splits)
  also have "\<dots> \<longleftrightarrow> (\<exists>v. test SEMVER v \<and> list_all (\<lambda>s. site_value fs s = Inr v) VERSIONED \<and> ?un \<and>
      checkDates fs (Some v) = Inr [] \<and> expect_problems [v] expected = [])"
  proof -
    have "(concat (map row_problems (collect fs)) = [] \<and> length vs \<le> 1) \<and> P vs \<longleftrightarrow>
        (\<exists>v. test SEMVER v \<and> list_all (\<lambda>s. site_value fs s = Inr v) VERSIONED \<and> P [v])" for P
      unfolding vs_def rows_clean_iff using distinct_versions_single by metis
    from this [of "\<lambda>vs. ?un \<and> checkDates fs (case vs of [v] \<Rightarrow> Some v | _ \<Rightarrow> None) = Inr [] \<and>
      expect_problems vs expected = []"]
    show ?thesis by (simp only: list.case conj_assoc)
  qed
  also have "\<dots> \<longleftrightarrow> (\<exists>v date. test SEMVER v \<and> list_all (\<lambda>s. site_value fs s = Inr v) VERSIONED \<and> ?un \<and>
      list_all (dated_as fs v date) DATED \<and> (expected = None \<or> expected = Some v))"
  proof -
    have "v \<noteq> []" if "test SEMVER v" for v using that SEMVER_not_Nil by auto
    then show ?thesis using checkDates_clean_iff ex by blast
  qed
  finally show ?thesis unfolding sv dated_as_def by blast
qed

end
