(* ===== verification/Actions_Pinned.thy ===== *)
theory Actions_Pinned
  imports Digest_Pin
begin

text \<open>
  \<open>scripts/check-actions-pinned.mjs\<close>: every third-party action and container image of a workflow is
  pinned to a commit or a digest, with the version in a trailing comment.

  The workflows are the names \<open>readdirSync\<close> lists with their texts. The lemmas show that the script
  accepts a line exactly when it names no third-party code or pins it.
\<close>

definition YAML_RE :: regex where \<comment> \<open>\<open>/\.ya?ml$/\<close>\<close>
  "YAML_RE = RSeqs [RLit (js ''.y''), ROpt (RLit (js ''a'')), RLit (js ''ml''), REol False]"

abbreviation non_blank :: regex where "non_blank \<equiv> RPlus True (RChar (\<lambda>c. \<not> is_space c))"

definition IMAGE_LINE_RE :: regex where \<comment> \<open>\<open>/^\s*image:\s*(\S+)(.*)$/\<close>\<close>
  "IMAGE_LINE_RE = RSeqs [RBol False, RSpaces, RLit (js ''image:''), RSpaces, RGroup 1 non_blank,
     RGroup 2 (RStar True RDot), REol False]"

definition USES_RE :: regex where \<comment> \<open>\<open>/^\s*(?:-\s+)?uses:\s*(\S+)(.*)$/\<close>\<close>
  "USES_RE = RSeqs [RBol False, RSpaces, ROpt (RSeq (RLit (js ''-'')) (RPlus True (RChar is_space))),
     RLit (js ''uses:''), RSpaces, RGroup 1 non_blank, RGroup 2 (RStar True RDot), REol False]"

definition VERSION_COMMENT_RE :: regex where \<comment> \<open>\<open>/^\s*#\s*\S/\<close>\<close>
  "VERSION_COMMENT_RE = RSeqs [RBol False, RSpaces, RLit (js ''#''), RSpaces, RChar (\<lambda>c. \<not> is_space c)]"

text \<open>\<open>ref.lastIndexOf("@")\<close>: the ref before the last \<open>@\<close> and what follows it.\<close>

definition split_last :: "cu \<Rightarrow> jsstring \<Rightarrow> (jsstring \<times> jsstring) option" where
  "split_last c s = (if c \<in> set s
     then Some (rev (drop 1 (dropWhile (\<lambda>x. x \<noteq> c) (rev s))), rev (takeWhile (\<lambda>x. x \<noteq> c) (rev s)))
     else None)"

datatype pin_problem =
    ImageMutable jsstring | ImageNoComment | ContainerMutable jsstring | NoRef jsstring
  | RefMutable jsstring jsstring | PinNoComment jsstring

datatype line_verdict = Irrelevant | Local | Pinned | Problem pin_problem

definition check_image :: "jsstring \<Rightarrow> jsstring \<Rightarrow> line_verdict" where
  "check_image ref rest =
     (if \<not> test DIGEST_RE ref then Problem (ImageMutable ref)
      else if \<not> test VERSION_COMMENT_RE rest then Problem ImageNoComment
      else Pinned)"

definition check_uses :: "jsstring \<Rightarrow> jsstring \<Rightarrow> line_verdict" where
  "check_uses ref rest =
     (if startsWith ref (js ''./'') \<or> startsWith ref (js ''.github/'') then Local
      else if startsWith ref (js ''docker://'') then
        (if \<not> test DIGEST_RE ref then Problem (ContainerMutable ref) else Pinned)
      else case split_last 64 ref of
        None \<Rightarrow> Problem (NoRef ref)
      | Some (action, version) \<Rightarrow>
          if \<not> test COMMIT_RE version then Problem (RefMutable ref version)
          else if \<not> test VERSION_COMMENT_RE rest then Problem (PinNoComment action)
          else Pinned)"

definition check_line :: "jsstring \<Rightarrow> line_verdict" where
  "check_line line =
     (case exec IMAGE_LINE_RE line of
        Some m \<Rightarrow> check_image (the (group m 1)) (the (group m 2))
      | None \<Rightarrow>
          (case exec USES_RE line of
             None \<Rightarrow> Irrelevant
           | Some m \<Rightarrow> check_uses (the (group m 1)) (the (group m 2))))"

text \<open>A problem with its file and line.\<close>

definition file_problems :: "jsstring \<times> jsstring \<Rightarrow> (jsstring \<times> nat \<times> pin_problem) list" where
  "file_problems f = concat (map
     (\<lambda>(line, i). case check_line line of Problem p \<Rightarrow> [(fst f, i, p)] | _ \<Rightarrow> [])
     (zip (lines (snd f)) [1..<Suc (length (lines (snd f)))]))"

definition workflows :: "(jsstring \<times> jsstring) list \<Rightarrow> (jsstring \<times> jsstring) list" where
  "workflows dir = sort_by (\<lambda>a b. byCodeUnit (fst a) (fst b)) (filter (\<lambda>f. test YAML_RE (fst f)) dir)"

definition count_verdicts :: "line_verdict \<Rightarrow> (jsstring \<times> jsstring) list \<Rightarrow> nat" where
  "count_verdicts v fs = sum_list (map (\<lambda>f. length (filter (\<lambda>l. check_line l = v) (lines (snd f)))) fs)"

datatype pin_outcome =
    NoWorkflows | PinFailed "(jsstring \<times> nat \<times> pin_problem) list" | PinOk nat nat nat

definition actions_main :: "(jsstring \<times> jsstring) list \<Rightarrow> pin_outcome" where
  "actions_main dir =
     (let fs = workflows dir; ps = concat (map file_problems fs) in
      if fs = [] then NoWorkflows
      else if ps \<noteq> [] then PinFailed ps
      else PinOk (length fs) (count_verdicts Pinned fs) (count_verdicts Local fs))"

fun actions_exit :: "pin_outcome \<Rightarrow> int" where
  "actions_exit NoWorkflows = 2"
| "actions_exit (PinFailed _) = 1"
| "actions_exit (PinOk _ _ _) = 0"

section \<open>What passing means\<close>

text \<open>A reference that cannot be moved: an image digest, or an action at a commit.\<close>

definition commit_pinned :: "jsstring \<Rightarrow> bool" where
  "commit_pinned ref \<longleftrightarrow> (\<exists>action sha. ref = action @ [64] @ sha \<and> length sha = 40 \<and> list_all lower_hex sha)"

definition uses_ok :: "jsstring \<Rightarrow> jsstring \<Rightarrow> bool" where
  "uses_ok ref rest \<longleftrightarrow>
     startsWith ref (js ''./'') \<or> startsWith ref (js ''.github/'') \<or>
     (if startsWith ref (js ''docker://'') then digest_pinned ref
      else commit_pinned ref \<and> test VERSION_COMMENT_RE rest)"

definition line_ok :: "jsstring \<Rightarrow> bool" where
  "line_ok line \<longleftrightarrow>
     (case exec IMAGE_LINE_RE line of
        Some m \<Rightarrow> digest_pinned (the (group m 1)) \<and> test VERSION_COMMENT_RE (the (group m 2))
      | None \<Rightarrow> (case exec USES_RE line of None \<Rightarrow> True | Some m \<Rightarrow> uses_ok (the (group m 1)) (the (group m 2))))"

lemma split_last_None: "split_last c s = None \<longleftrightarrow> c \<notin> set s"
  by (simp add: split_last_def)

lemma split_last_append: "c \<notin> set v \<Longrightarrow> split_last c (u @ c # v) = Some (u, v)"
proof -
  assume "c \<notin> set v"
  then have "\<forall>x \<in> set (rev v). x \<noteq> c" by auto
  then have "takeWhile (\<lambda>x. x \<noteq> c) (rev v @ c # rev u) = rev v @ takeWhile (\<lambda>x. x \<noteq> c) (c # rev u)"
    "dropWhile (\<lambda>x. x \<noteq> c) (rev v @ c # rev u) = dropWhile (\<lambda>x. x \<noteq> c) (c # rev u)"
    using takeWhile_append2 [of "rev v" "\<lambda>x. x \<noteq> c"] dropWhile_append2 [of "rev v" "\<lambda>x. x \<noteq> c"] by blast+
  then show ?thesis by (simp add: split_last_def)
qed

lemma commit_pinned_iff:
  "commit_pinned ref \<longleftrightarrow> (case split_last 64 ref of None \<Rightarrow> False | Some (_, v) \<Rightarrow> test COMMIT_RE v)"
proof (cases "64 \<in> set ref")
  case False
  then show ?thesis by (auto simp: commit_pinned_def split_last_def)
next
  case True
  then obtain u v where uv: "ref = u @ 64 # v" "64 \<notin> set v" by (metis split_list_last)
  have no_at: "64 \<notin> set sha" if "list_all lower_hex sha" for sha
    using that by (auto simp: list_all_iff is_digit_def)
  have "commit_pinned ref \<longleftrightarrow> length v = 40 \<and> list_all lower_hex v"
  proof
    assume "commit_pinned ref"
    then obtain a s where s: "ref = a @ [64] @ s" "length s = 40" "list_all lower_hex s"
      by (auto simp: commit_pinned_def)
    then have "split_last 64 ref = Some (a, s)" using split_last_append no_at by simp
    moreover have "split_last 64 ref = Some (u, v)" using uv split_last_append by simp
    ultimately show "length v = 40 \<and> list_all lower_hex v" using s by simp
  qed (use uv in \<open>auto simp: commit_pinned_def\<close>)
  then show ?thesis using uv by (simp add: split_last_append test_COMMIT_RE)
qed

lemma check_line_ok: "(\<nexists>p. check_line line = Problem p) \<longleftrightarrow> line_ok line"
proof -
  have "(\<nexists>p. check_image r x = Problem p) \<longleftrightarrow> digest_pinned r \<and> test VERSION_COMMENT_RE x" for r x
    by (auto simp: check_image_def test_DIGEST_RE)
  moreover have "(\<nexists>p. check_uses r x = Problem p) \<longleftrightarrow> uses_ok r x" for r x
    by (auto simp: check_uses_def uses_ok_def test_DIGEST_RE commit_pinned_iff split: option.splits)
  ultimately show ?thesis
    unfolding check_line_def line_ok_def
    by (cases "exec IMAGE_LINE_RE line"; cases "exec USES_RE line") simp_all
qed

lemma file_problems_Nil_iff: "file_problems f = [] \<longleftrightarrow> list_all line_ok (lines (snd f))"
proof -
  define Z where "Z = zip (lines (snd f)) [1..<Suc (length (lines (snd f)))]"
  have "file_problems f = [] \<longleftrightarrow> (\<forall>(l, i) \<in> set Z. \<nexists>p. check_line l = Problem p)"
    unfolding file_problems_def Z_def [symmetric]
    by (auto simp: concat_eq_Nil_conv split: line_verdict.splits)
  also have "\<dots> \<longleftrightarrow> (\<forall>l \<in> set (map fst Z). line_ok l)"
    by (simp add: case_prod_beta flip: check_line_ok)
  also have "map fst Z = lines (snd f)" unfolding Z_def by (rule map_fst_zip) (simp add: Suc_le_eq)
  finally show ?thesis by (simp add: list_all_iff)
qed

text \<open>
  \<^bold>\<open>C28.\<close> Workflow pinning. The script exits 0 exactly when there is a workflow file and, in every one of
  them, each line that names a container image pins it by digest with a comment, and each \<open>uses:\<close> line
  names something local, an image by digest, or an action at a 40-digit commit with a comment.
\<close>

theorem actions_pinned_iff:
  "actions_exit (actions_main dir) = 0 \<longleftrightarrow>
    list_ex (\<lambda>f. test YAML_RE (fst f)) dir \<and>
    list_all (\<lambda>f. list_all line_ok (lines (snd f))) (filter (\<lambda>f. test YAML_RE (fst f)) dir)"
proof -
  have set: "set (workflows dir) = {f \<in> set dir. test YAML_RE (fst f)}" by (simp add: workflows_def)
  then have "workflows dir = [] \<longleftrightarrow> \<not> list_ex (\<lambda>f. test YAML_RE (fst f)) dir"
    by (auto simp: list_ex_iff set_empty [symmetric] simp del: set_empty)
  moreover have "concat (map file_problems (workflows dir)) = [] \<longleftrightarrow>
      list_all (\<lambda>f. list_all line_ok (lines (snd f))) (filter (\<lambda>f. test YAML_RE (fst f)) dir)"
    by (auto simp: concat_eq_Nil_conv file_problems_Nil_iff set list_all_iff)
  ultimately show ?thesis by (simp add: actions_main_def Let_def)
qed

end
