(* ===== verification/Traceability.thy ===== *)
theory Traceability
  imports Json
begin

text \<open>
  \<open>scripts/build-traceability.mjs\<close>: the map from requirements to the vectors and scenarios that cite
  them, its JSON text, and the command line.

  The vector files are their parsed values, typed as their schemas have them: an absent optional member
  is \<open>None\<close>, and a \<open>?? []\<close> of the source reads it as the empty list.
\<close>

section \<open>The vector files\<close>

record vcase =
  vc_id :: jsstring
  vc_rule :: "jsstring option"

datatype const_value = CStr jsstring | CNum js_float

record test_vectors =
  tv_spec_version :: nat
  tv_counts :: "(jsstring \<times> nat) list"
  tv_constants :: "(jsstring \<times> const_value) list"
  tv_sections :: "(jsstring \<times> vcase list) list"

record step =
  sp_op :: jsstring
  sp_token_ref :: "jsstring option"
  sp_of :: "jsstring option"
  sp_sameFamilyAs :: "jsstring option"
  sp_sameExpiresAtAs :: "jsstring option"
  sp_bind :: "jsstring option"
  sp_expect :: bool \<comment> \<open>the step has an \<open>expect\<close> object\<close>
  sp_expect_ok :: "bool option"
  sp_expect_kid :: "jsstring option"
  sp_activeKid :: "jsstring option"
  sp_peppers :: "jsstring list"

record scenario =
  sc_id :: jsstring
  sc_condition :: "jsstring option"
  sc_requirements :: "jsstring list"
  sc_steps :: "step list"

record behavior_vectors =
  bv_spec_version :: nat
  bv_counts :: "(jsstring \<times> nat) list"
  bv_scenarios :: "scenario list"
  bv_conditions :: "jsstring list" \<comment> \<open>\<open>Object.keys(runner.conditions)\<close>\<close>
  bv_kids :: "jsstring list" \<comment> \<open>\<open>Object.keys(peppers)\<close>\<close>
  bv_default_peppers :: "jsstring list"
  bv_default_activeKid :: "jsstring option"

definition tvSections :: "jsstring list" where
  "tvSections = map js [''verifier_hashing'', ''device_hashing'', ''parsing'']"

definition tv_cases :: "test_vectors \<Rightarrow> jsstring \<Rightarrow> vcase list" where
  "tv_cases tv s = (case map_of (tv_sections tv) s of None \<Rightarrow> [] | Some cs \<Rightarrow> cs)"

text \<open>The requirements a specification defines, \<open>/\*\*\[(N-\d+)\]/g\<close>, as a \<open>Set\<close>.\<close>

definition DEFINED_RE :: regex where
  "DEFINED_RE = RSeqs [RLit (js ''**[''), RGroup 1 (RSeq (RLit (js ''N-'')) (RPlus True (RChar is_digit))),
     RLit (js '']'')]"

definition defined_reqs :: "jsstring \<Rightarrow> jsstring list" where
  "defined_reqs spec = distinct_values (map (\<lambda>m. the (group m 1)) (matchAll DEFINED_RE spec))"

section \<open>Building the map\<close>

type_synonym trace_rows = "(jsstring \<times> (jsstring list \<times> jsstring list)) list"

definition req_row :: "jsstring \<Rightarrow> trace_rows \<Rightarrow> jsstring list \<times> jsstring list" where
  "req_row req rows = (case map_of rows req of None \<Rightarrow> ([], []) | Some r \<Rightarrow> r)"

text \<open>\<open>set.add(x)\<close> on an insertion-ordered \<open>Set\<close>.\<close>

definition set_add :: "'a \<Rightarrow> 'a list \<Rightarrow> 'a list" where
  "set_add x xs = (if List.member xs x then xs else xs @ [x])"

definition add_req :: "jsstring \<Rightarrow> trace_rows \<Rightarrow> trace_rows" where
  "add_req req rows = map_set req (req_row req rows) rows"

definition rule_base :: "jsstring \<Rightarrow> jsstring" where
  "rule_base rule = hd (split_on 46 rule)"

definition add_case :: "vcase \<Rightarrow> trace_rows \<Rightarrow> trace_rows" where
  "add_case c rows =
     (if truthy (vc_rule c) then
        let req = rule_base (the (vc_rule c)); (vs, ss) = req_row req rows
        in map_set req (set_add (vc_id c) vs, ss) rows
      else rows)"

definition add_citation :: "jsstring \<times> jsstring \<Rightarrow> trace_rows \<Rightarrow> trace_rows" where
  "add_citation cit rows = (case cit of (req, i) \<Rightarrow>
     let (vs, ss) = req_row req rows in map_set req (vs, set_add i ss) rows)"

definition all_cases :: "test_vectors \<Rightarrow> vcase list" where
  "all_cases tv = concat (map (tv_cases tv) tvSections)"

definition scenario_citations :: "behavior_vectors \<Rightarrow> (jsstring \<times> jsstring) list" where
  "scenario_citations bv = concat (map (\<lambda>s. map (\<lambda>r. (r, sc_id s)) (sc_requirements s)) (bv_scenarios bv))"

definition trace_map :: "test_vectors \<Rightarrow> behavior_vectors \<Rightarrow> jsstring list \<Rightarrow> trace_rows" where
  "trace_map tv bv defs =
     fold add_citation (scenario_citations bv) (fold add_case (all_cases tv) (fold add_req defs []))"

definition byNumber :: "jsstring \<Rightarrow> jsstring \<Rightarrow> int" where
  "byNumber a b = float_sign (float_minus (Number (drop 2 a)) (Number (drop 2 b)))"

definition requirements :: "test_vectors \<Rightarrow> behavior_vectors \<Rightarrow> jsstring list \<Rightarrow> trace_rows" where
  "requirements tv bv defs =
     (let rows = trace_map tv bv defs in
      map (\<lambda>req. case req_row req rows of (vs, ss) \<Rightarrow> (req, (sort_by byCodeUnit vs, sort_by byCodeUnit ss)))
        (sort_by byNumber (map fst rows)))"

definition executed :: "trace_rows \<Rightarrow> nat" where
  "executed reqs = length (filter (\<lambda>(_, vs, ss). vs \<noteq> [] \<or> ss \<noteq> []) reqs)"

section \<open>The document\<close>

datatype doc = DStr jsstring | DNum nat | DArr "doc list" | DObj "(jsstring \<times> doc) list"

definition hex4 :: "cu \<Rightarrow> jsstring" where
  "hex4 c = map (\<lambda>i. let d = (unat c div 16 ^ i) mod 16 in of_nat (if d < 10 then 48 + d else 87 + d)) [3, 2, 1, 0]"

definition quote_unit :: "cu \<Rightarrow> jsstring" where
  "quote_unit c =
     (if c = 34 \<or> c = 92 then [92, c]
      else if c = 8 then [92, 98] else if c = 12 then [92, 102] else if c = 10 then [92, 110]
      else if c = 13 then [92, 114] else if c = 9 then [92, 116]
      else if c < 32 then [92, 117] @ hex4 c else [c])"

abbreviation high_surrogate :: "cu \<Rightarrow> bool" where "high_surrogate c \<equiv> 0xD800 \<le> c \<and> c \<le> 0xDBFF"
abbreviation low_surrogate :: "cu \<Rightarrow> bool" where "low_surrogate c \<equiv> 0xDC00 \<le> c \<and> c \<le> 0xDFFF"

text \<open>\<open>JSON.stringify\<close> of a string: an unpaired surrogate is escaped.\<close>

fun quote_units :: "jsstring \<Rightarrow> jsstring" where
  "quote_units [] = []"
| "quote_units [c] = (if high_surrogate c \<or> low_surrogate c then [92, 117] @ hex4 c else quote_unit c)"
| "quote_units (c # d # s) =
     (if high_surrogate c \<and> low_surrogate d then c # d # quote_units s
      else (if high_surrogate c \<or> low_surrogate c then [92, 117] @ hex4 c else quote_unit c) @ quote_units (d # s))"

definition quote_str :: "jsstring \<Rightarrow> jsstring" where
  "quote_str s = [34] @ quote_units s @ [34]"

text \<open>\<open>JSON.stringify(doc, null, 2)\<close>, at a nesting depth.\<close>

definition bracketed :: "cu \<Rightarrow> cu \<Rightarrow> nat \<Rightarrow> jsstring list \<Rightarrow> jsstring" where
  "bracketed opening closing depth items =
     (if items = [] then [opening, closing]
      else [opening, NL] @
        join_with (js '','' @ [NL]) (map (\<lambda>i. replicate (2 * depth + 2) 32 @ i) items) @
        [NL] @ replicate (2 * depth) 32 @ [closing])"

primrec stringify :: "doc \<Rightarrow> nat \<Rightarrow> jsstring" where
  "stringify (DStr s) n = quote_str s"
| "stringify (DNum k) n = decimal k"
| "stringify (DArr ds) n = bracketed 91 93 n (map (\<lambda>f. f (Suc n)) (map stringify ds))"
| "stringify (DObj ps) n = bracketed 123 125 n
     (map (\<lambda>(k, f). quote_str k @ js '': '' @ f (Suc n)) (map (map_prod id stringify) ps))"

definition TRACE_COMMENT :: jsstring where
  "TRACE_COMMENT = js ''GENERATED by scripts/build-traceability.mjs from spec/test-vectors.json and spec/behavior-vectors.json. Do not edit by hand; scripts/validate-vectors.mjs fails when this file is stale.''"

definition TRACE_DESCRIPTION :: jsstring where
  "TRACE_DESCRIPTION = js ''Requirement-to-test traceability for NEBULA, published per SPECIFICATION.md. `vectors` are ids in spec/test-vectors.json, `scenarios` are ids in spec/behavior-vectors.json. An empty pair means no vector or scenario cites the requirement. Most such requirements govern API shape, documentation or deployment and cannot be expressed as a vector, and are verified by review; a few are executed without citing anything, so an empty pair is a weaker statement than '' @
     [39] @ js ''unexecuted'' @ [39] @ js ''. Those are the constants block ([N-4]), checked against the `constants` section of spec/test-vectors.json by every per-language conformance runner; clock injection ([N-3]), which every scenario in spec/behavior-vectors.json is driven through; and the error-code set ([N-38]), each of whose ten codes is the expected outcome of at least one scenario.''"

definition build :: "test_vectors \<Rightarrow> behavior_vectors \<Rightarrow> jsstring list \<Rightarrow> doc" where
  "build tv bv defs =
     (let reqs = requirements tv bv defs in
      DObj [(js ''$comment'', DStr TRACE_COMMENT), (js ''description'', DStr TRACE_DESCRIPTION),
        (js ''spec_version'', DNum (tv_spec_version tv)),
        (js ''counts'', DObj [(js ''requirements'', DNum (length reqs)), (js ''executed'', DNum (executed reqs)),
           (js ''by_review'', DNum (length reqs - executed reqs))]),
        (js ''requirements'', DObj (map (\<lambda>(req, vs, ss).
           (req, DObj [(js ''vectors'', DArr (map DStr vs)), (js ''scenarios'', DArr (map DStr ss))])) reqs))])"

text \<open>The command line: the exit status, and the file when it is written.\<close>

definition trace_main ::
  "jsstring list \<Rightarrow> test_vectors \<Rightarrow> behavior_vectors \<Rightarrow> jsstring \<Rightarrow> jsstring option \<Rightarrow> int \<times> jsstring option" where
  "trace_main argv tv bv spec current =
     (let text = stringify (build tv bv (defined_reqs spec)) 0 @ [NL] in
      if js ''--check'' \<in> set argv then
        (case current of None \<Rightarrow> (1, None)
         | Some c \<Rightarrow> (if trim c \<noteq> trim text then 1 else 0, None))
      else (0, Some text))"

section \<open>What the map says\<close>

lemma req_row_map_set [simp]: "req_row r (map_set k v rows) = (if r = k then v else req_row r rows)"
  by (simp add: req_row_def)

lemma set_set_add [simp]: "set (set_add x xs) = insert x (set xs)"
  by (auto simp: set_add_def)

lemma distinct_set_add: "distinct xs \<Longrightarrow> distinct (set_add x xs)"
  by (simp add: set_add_def)

text \<open>The vectors and the scenarios that cite a requirement.\<close>

definition cited_by_cases :: "jsstring \<Rightarrow> vcase list \<Rightarrow> jsstring set" where
  "cited_by_cases req cs = {vc_id c | c. c \<in> set cs \<and> truthy (vc_rule c) \<and> rule_base (the (vc_rule c)) = req}"

definition case_reqs :: "vcase list \<Rightarrow> jsstring set" where
  "case_reqs cs = {rule_base (the (vc_rule c)) | c. c \<in> set cs \<and> truthy (vc_rule c)}"

definition rows_distinct :: "trace_rows \<Rightarrow> bool" where
  "rows_distinct rows \<longleftrightarrow> distinct (map fst rows) \<and>
     (\<forall>req. distinct (fst (req_row req rows)) \<and> distinct (snd (req_row req rows)))"

lemma fold_add_req:
  "rows_distinct rows \<Longrightarrow> rows_distinct (fold add_req defs rows) \<and>
    req_row r (fold add_req defs rows) = req_row r rows \<and>
    set (map fst (fold add_req defs rows)) = set (map fst rows) \<union> set defs"
proof (induction defs arbitrary: rows)
  case (Cons d defs)
  have "rows_distinct (add_req d rows)"
    using Cons.prems by (simp add: rows_distinct_def add_req_def distinct_map_set)
  moreover have "req_row r (add_req d rows) = req_row r rows" by (simp add: add_req_def)
  moreover have "set (map fst (add_req d rows)) = insert d (set (map fst rows))"
    unfolding add_req_def by (rule keys_map_set)
  ultimately show ?case using Cons.IH [of "add_req d rows"] by auto
qed simp

lemma add_case_step:
  assumes "rows_distinct rows"
  shows "rows_distinct (add_case c rows) \<and>
    set (fst (req_row r (add_case c rows))) = set (fst (req_row r rows)) \<union> cited_by_cases r [c] \<and>
    snd (req_row r (add_case c rows)) = snd (req_row r rows) \<and>
    set (map fst (add_case c rows)) = set (map fst rows) \<union> case_reqs [c]"
proof (cases "truthy (vc_rule c)")
  case True
  define q where "q = rule_base (the (vc_rule c))"
  obtain vs ss where row: "req_row q rows = (vs, ss)" by fastforce
  have eq: "add_case c rows = map_set q (set_add (vc_id c) vs, ss) rows"
    using True row by (simp add: add_case_def q_def)
  have d: "distinct vs" "distinct ss"
    using assms row by (simp_all add: rows_distinct_def) (metis fst_conv snd_conv)+
  then have "rows_distinct (add_case c rows)"
    using assms unfolding eq rows_distinct_def by (simp add: distinct_map_set distinct_set_add)
  moreover have "cited_by_cases r [c] = (if r = q then {vc_id c} else {})"
    using True by (auto simp: cited_by_cases_def q_def)
  moreover have "case_reqs [c] = {q}" using True by (auto simp: case_reqs_def q_def)
  ultimately show ?thesis
    unfolding eq keys_map_set using row by auto
qed (simp_all add: add_case_def cited_by_cases_def case_reqs_def assms)

lemma fold_add_case:
  "rows_distinct rows \<Longrightarrow> rows_distinct (fold add_case cs rows) \<and>
    set (fst (req_row r (fold add_case cs rows))) = set (fst (req_row r rows)) \<union> cited_by_cases r cs \<and>
    snd (req_row r (fold add_case cs rows)) = snd (req_row r rows) \<and>
    set (map fst (fold add_case cs rows)) = set (map fst rows) \<union> case_reqs cs"
proof (induction cs arbitrary: rows)
  case (Cons c cs)
  have split: "cited_by_cases r (c # cs) = cited_by_cases r [c] \<union> cited_by_cases r cs"
    "case_reqs (c # cs) = case_reqs [c] \<union> case_reqs cs"
    by (auto simp: cited_by_cases_def case_reqs_def)
  show ?case
    using add_case_step [OF Cons.prems, of c r] Cons.IH [of "add_case c rows"]
    unfolding split by (simp add: Un_assoc)
qed (simp add: cited_by_cases_def case_reqs_def)

lemma fold_add_citation:
  "rows_distinct rows \<Longrightarrow> rows_distinct (fold add_citation cits rows) \<and>
    fst (req_row r (fold add_citation cits rows)) = fst (req_row r rows) \<and>
    set (snd (req_row r (fold add_citation cits rows))) = set (snd (req_row r rows)) \<union> {i. (r, i) \<in> set cits} \<and>
    set (map fst (fold add_citation cits rows)) = set (map fst rows) \<union> fst ` set cits"
proof (induction cits arbitrary: rows)
  case (Cons cit cits)
  obtain q i where cit: "cit = (q, i)" by (cases cit)
  obtain vs ss where row: "req_row q rows = (vs, ss)" by fastforce
  have eq: "add_citation cit rows = map_set q (vs, set_add i ss) rows"
    using row by (simp add: add_citation_def cit)
  have d: "distinct vs" "distinct ss"
    using Cons.prems row by (simp_all add: rows_distinct_def) (metis fst_conv snd_conv)+
  then have "rows_distinct (add_citation cit rows)"
    using Cons.prems unfolding eq rows_distinct_def by (simp add: distinct_map_set distinct_set_add)
  moreover have "req_row r (add_citation cit rows) = (if r = q then (vs, set_add i ss) else req_row r rows)"
    unfolding eq by simp
  moreover have "set (map fst (add_citation cit rows)) = insert q (set (map fst rows))"
    unfolding eq by (rule keys_map_set)
  ultimately show ?case using Cons.IH [of "add_citation cit rows"] row cit by auto
qed simp

lemma trace_map_rows:
  "rows_distinct (trace_map tv bv defs) \<and>
   set (fst (req_row r (trace_map tv bv defs))) = cited_by_cases r (all_cases tv) \<and>
   set (snd (req_row r (trace_map tv bv defs))) = {i. (r, i) \<in> set (scenario_citations bv)} \<and>
   set (map fst (trace_map tv bv defs)) =
     set defs \<union> case_reqs (all_cases tv) \<union> fst ` set (scenario_citations bv)"
proof -
  have "rows_distinct []" by (simp add: rows_distinct_def req_row_def)
  note 1 = fold_add_req [OF this, of defs r]
  note 2 = fold_add_case [OF conjunct1 [OF 1], of "all_cases tv" r]
  note 3 = fold_add_citation [OF conjunct1 [OF 2], of "scenario_citations bv" r]
  show ?thesis using 1 2 3 by (simp add: trace_map_def req_row_def)
qed

lemma requirements_map:
  "requirements tv bv defs = map (\<lambda>req. (req, sort_by byCodeUnit (fst (req_row req (trace_map tv bv defs))),
     sort_by byCodeUnit (snd (req_row req (trace_map tv bv defs))))) (sort_by byNumber (map fst (trace_map tv bv defs)))"
  by (simp add: requirements_def Let_def case_prod_beta)

lemma requirements_keys:
  "distinct (map fst (requirements tv bv defs))"
  "set (map fst (requirements tv bv defs)) = set defs \<union> case_reqs (all_cases tv) \<union> fst ` set (scenario_citations bv)"
proof -
  have keys: "map fst (requirements tv bv defs) = sort_by byNumber (map fst (trace_map tv bv defs))"
    unfolding requirements_map by (simp add: comp_def)
  show "distinct (map fst (requirements tv bv defs))"
    unfolding keys using trace_map_rows [of tv bv defs] by (simp add: rows_distinct_def)
  show "set (map fst (requirements tv bv defs)) = set defs \<union> case_reqs (all_cases tv) \<union> fst ` set (scenario_citations bv)"
    unfolding keys using trace_map_rows [of tv bv defs] by simp
qed

lemma requirements_entries:
  "list_all (\<lambda>(req, vs, ss).
     distinct vs \<and> set vs = cited_by_cases req (all_cases tv) \<and>
     distinct ss \<and> set ss = {i. (req, i) \<in> set (scenario_citations bv)}) (requirements tv bv defs)"
  unfolding requirements_map using trace_map_rows [of tv bv defs]
  by (auto simp: list_all_iff rows_distinct_def)

text \<open>A requirement that a vector or a scenario cites.\<close>

definition is_cited :: "test_vectors \<Rightarrow> behavior_vectors \<Rightarrow> jsstring \<Rightarrow> bool" where
  "is_cited tv bv req \<longleftrightarrow> cited_by_cases req (all_cases tv) \<noteq> {} \<or> (\<exists>i. (req, i) \<in> set (scenario_citations bv))"

lemma is_cited_iff: "is_cited tv bv req \<longleftrightarrow> req \<in> case_reqs (all_cases tv) \<union> fst ` set (scenario_citations bv)"
proof -
  have "cited_by_cases req (all_cases tv) \<noteq> {} \<longleftrightarrow> req \<in> case_reqs (all_cases tv)"
    unfolding cited_by_cases_def case_reqs_def by blast
  moreover have "(\<exists>i. (req, i) \<in> set (scenario_citations bv)) \<longleftrightarrow> req \<in> fst ` set (scenario_citations bv)"
    by force
  ultimately show ?thesis unfolding is_cited_def by blast
qed

lemma executed_requirements:
  "executed (requirements tv bv defs) = length (filter (is_cited tv bv) (map fst (requirements tv bv defs)))"
proof -
  have "(case e of (_, vs, ss) \<Rightarrow> vs \<noteq> [] \<or> ss \<noteq> []) \<longleftrightarrow> (is_cited tv bv \<circ> fst) e"
    if "e \<in> set (requirements tv bv defs)" for e
  proof -
    obtain req vs ss where e: "e = (req, vs, ss)" by (cases e)
    then have "set vs = cited_by_cases req (all_cases tv)" "set ss = {i. (req, i) \<in> set (scenario_citations bv)}"
      using requirements_entries [of tv bv defs] that unfolding list_all_iff by fastforce+
    then show ?thesis using e by (auto simp: is_cited_def simp flip: set_empty)
  qed
  then have "filter (\<lambda>(_, vs, ss). vs \<noteq> [] \<or> ss \<noteq> []) (requirements tv bv defs) =
      filter (is_cited tv bv \<circ> fst) (requirements tv bv defs)"
    by (intro filter_cong refl)
  then show ?thesis by (simp add: executed_def filter_map)
qed

text \<open>
  \<^bold>\<open>C29.\<close> The traceability map. It has one entry for every requirement the specification defines or a
  vector or scenario cites, and under each the ids of exactly the vectors and scenarios that cite it,
  without repetition; the entries counted as executed are those with a citation.
\<close>

theorem traceability_exact:
  "distinct (map fst (requirements tv bv defs)) \<and>
   set (map fst (requirements tv bv defs)) =
     set defs \<union> case_reqs (all_cases tv) \<union> fst ` set (scenario_citations bv) \<and>
   list_all (\<lambda>(req, vs, ss).
      distinct vs \<and> set vs = cited_by_cases req (all_cases tv) \<and>
      distinct ss \<and> set ss = {i. (req, i) \<in> set (scenario_citations bv)}) (requirements tv bv defs) \<and>
   executed (requirements tv bv defs) = card (case_reqs (all_cases tv) \<union> fst ` set (scenario_citations bv))"
proof -
  have "executed (requirements tv bv defs) = card (set (filter (is_cited tv bv) (map fst (requirements tv bv defs))))"
    unfolding executed_requirements by (rule distinct_card [symmetric]) (rule distinct_filter [OF requirements_keys(1)])
  also have "set (filter (is_cited tv bv) (map fst (requirements tv bv defs))) =
      case_reqs (all_cases tv) \<union> fst ` set (scenario_citations bv)"
    unfolding set_filter requirements_keys(2) is_cited_iff by blast
  finally show ?thesis using requirements_keys requirements_entries by blast
qed

end
