(* ===== verification/Vector_Schemas.thy ===== *)
theory Vector_Schemas
  imports Json
begin

text \<open>
  \<open>scripts/validate-vectors.mjs\<close>, section 1: both vector files declare and satisfy their schemas, and the
  schemas reject fourteen planted defects.

  The validator \<open>ajv\<close> is a third-party package: the parameter \<open>ajv\<close> compiles a schema, or throws, and
  what it returns gives the error messages of a value, none when the value is valid. The files are
  JSON values here. A defect is an edit of such a value, which throws where the source's would: reading a
  property of \<open>undefined\<close> or \<open>null\<close>, calling a method that is not there, writing to a primitive.
\<close>

section \<open>Edits of JSON values\<close>

datatype pstep = Key jsstring | Idx nat

text \<open>
  Follow a path and edit what it leads to; the result is the whole value. What is missing is \<open>undefined\<close>,
  which the next access, or the edit, cannot use. An element of a string is a string of its own.
\<close>

fun at_path :: "pstep list \<Rightarrow> (json \<Rightarrow> js_exn + json) \<Rightarrow> json \<Rightarrow> js_exn + json" where
  "at_path [] f j = f j"
| "at_path (Key k # p) f (JObj ps) =
     (case map_of ps k of
        None \<Rightarrow> Inl TypeError
      | Some v \<Rightarrow> map_sum id (\<lambda>u. JObj (map_set k u ps)) (at_path p f v))"
| "at_path (Idx i # p) f (JObj ps) =
     (case map_of ps (decimal i) of
        None \<Rightarrow> Inl TypeError
      | Some v \<Rightarrow> map_sum id (\<lambda>u. JObj (map_set (decimal i) u ps)) (at_path p f v))"
| "at_path (Idx i # p) f (JArr vs) =
     (if i < length vs then map_sum id (\<lambda>u. JArr (vs[i := u])) (at_path p f (vs ! i)) else Inl TypeError)"
| "at_path (Idx i # p) f (JStr s) =
     (if i < length s then map_sum id (\<lambda>_. JStr s) (at_path p f (JStr [s ! i])) else Inl TypeError)"
| "at_path _ f _ = Inl TypeError"

text \<open>\<open>o.k = v\<close> and \<open>delete o.k\<close>. A named property of an array is no part of its JSON value.\<close>

fun set_key :: "string \<Rightarrow> json \<Rightarrow> json \<Rightarrow> js_exn + json" where
  "set_key k v (JObj ps) = Inr (JObj (map_set (js k) v ps))"
| "set_key k v (JArr vs) = Inr (JArr vs)"
| "set_key k v _ = Inl TypeError"

fun delete_key :: "string \<Rightarrow> json \<Rightarrow> js_exn + json" where
  "delete_key k (JObj ps) = Inr (JObj (filter (\<lambda>(l, _). l \<noteq> js k) ps))"
| "delete_key k JNull = Inl TypeError"
| "delete_key k j = Inr j"

text \<open>\<open>s.toUpperCase()\<close> of a text in ASCII, such as the hexadecimal digits it is applied to.\<close>

definition upper_ascii :: "jsstring \<Rightarrow> jsstring" where
  "upper_ascii s = map (\<lambda>c. if 97 \<le> c \<and> c \<le> 122 then c - 32 else c) s"

definition upper_key :: "string \<Rightarrow> json \<Rightarrow> js_exn + json" where
  "upper_key k j =
     (case get j (js k) of Some (JStr s) \<Rightarrow> set_key k (JStr (upper_ascii s)) j | _ \<Rightarrow> Inl TypeError)"

section \<open>Finding an element\<close>

fun read_prop :: "json option \<Rightarrow> string \<Rightarrow> js_exn + json option" where
  "read_prop None k = Inl TypeError"
| "read_prop (Some JNull) k = Inl TypeError"
| "read_prop (Some j) k = Inr (get j (js k))"

text \<open>\<open>xs.find(P)\<close> over elements with their paths; without one the result is \<open>undefined\<close>, used next.\<close>

fun find_path :: "(json option \<Rightarrow> js_exn + bool) \<Rightarrow> (pstep list \<times> json option) list \<Rightarrow> js_exn + pstep list" where
  "find_path P [] = Inl TypeError"
| "find_path P ((p, x) # xs) = and_then (P x) (\<lambda>b. if b then Inr p else find_path P xs)"

definition array_items :: "pstep list \<Rightarrow> json list \<Rightarrow> (pstep list \<times> json option) list" where
  "array_items p vs = map (\<lambda>i. (p @ [Idx i], Some (vs ! i))) [0..<length vs]"

definition parsing_cases :: "json \<Rightarrow> js_exn + (pstep list \<times> json option) list" where
  "parsing_cases d = and_then (read_prop (Some d) ''parsing'') (\<lambda>v.
     case v of Some (JArr vs) \<Rightarrow> Inr (array_items [Key (js ''parsing'')] vs) | _ \<Rightarrow> Inl TypeError)"

text \<open>\<open>d.scenarios.flatMap((x) => x.steps)\<close>: what is not an array is one element.\<close>

definition steps_of :: "pstep list \<times> json option \<Rightarrow> js_exn + (pstep list \<times> json option) list" where
  "steps_of px = (case px of (p, x) \<Rightarrow> and_then (read_prop x ''steps'') (\<lambda>v.
     Inr (case v of Some (JArr vs) \<Rightarrow> array_items (p @ [Key (js ''steps'')]) vs | _ \<Rightarrow> [(p @ [Key (js ''steps'')], v)])))"

definition all_steps :: "json \<Rightarrow> js_exn + (pstep list \<times> json option) list" where
  "all_steps d = and_then (read_prop (Some d) ''scenarios'') (\<lambda>v.
     case v of
       Some (JArr vs) \<Rightarrow> each steps_of (array_items [Key (js ''scenarios'')] vs)
     | _ \<Rightarrow> Inl TypeError)"

definition is_valid :: "bool \<Rightarrow> json option \<Rightarrow> js_exn + bool" where \<comment> \<open>\<open>c.valid\<close>, or \<open>!c.valid\<close>\<close>
  "is_valid b x = map_sum id (\<lambda>v. json_truthy v = b) (read_prop x ''valid'')"

definition has_inner :: "string \<Rightarrow> string \<Rightarrow> json option \<Rightarrow> js_exn + bool" where \<comment> \<open>\<open>x.k?.l\<close>\<close>
  "has_inner k l x = map_sum id (\<lambda>v. json_truthy (get_opt (non_nullish v) (js l))) (read_prop x k)"

definition has_op :: "string \<Rightarrow> json option \<Rightarrow> js_exn + bool" where \<comment> \<open>\<open>x.op === "..."\<close>\<close>
  "has_op s x = map_sum id (\<lambda>v. v = Some (JStr (js s))) (read_prop x ''op'')"

definition edit_case :: "bool \<Rightarrow> (json \<Rightarrow> js_exn + json) \<Rightarrow> json \<Rightarrow> js_exn + json" where
  "edit_case b f d = and_then (and_then (parsing_cases d) (find_path (is_valid b))) (\<lambda>p. at_path p f d)"

definition edit_step ::
  "(json option \<Rightarrow> js_exn + bool) \<Rightarrow> pstep list \<Rightarrow> (json \<Rightarrow> js_exn + json) \<Rightarrow> json \<Rightarrow> js_exn + json" where
  "edit_step P q f d = and_then (and_then (all_steps d) (find_path P)) (\<lambda>p. at_path (p @ q) f d)"

section \<open>The planted defects\<close>

definition TV_PATH :: jsstring where "TV_PATH = js ''spec/test-vectors.json''"
definition BV_PATH :: jsstring where "BV_PATH = js ''spec/behavior-vectors.json''"

definition first_of :: "string \<Rightarrow> pstep list" where
  "first_of section = [Key (js section), Idx 0]"

definition first_scenario_step :: "pstep list" where
  "first_scenario_step = [Key (js ''scenarios''), Idx 0, Key (js ''steps''), Idx 0]"

definition text_value :: "string \<Rightarrow> json" where "text_value s = JStr (js s)"

definition MUTATIONS :: "(jsstring \<times> string \<times> (json \<Rightarrow> js_exn + json)) list" where
  "MUTATIONS = [
     (TV_PATH, ''unknown key in a parsing case'', at_path (first_of ''parsing'') (set_key ''expected'' (text_value ''yes''))),
     (TV_PATH, ''uppercase hex in an expected hash'', at_path (first_of ''verifier_hashing'') (upper_key ''expected_hmac_sha256_hex'')),
     (TV_PATH, ''truncated hash'', at_path (first_of ''device_hashing'') (set_key ''expected_hmac_sha256_hex'' (text_value ''abc123''))),
     (TV_PATH, ''rejected token that names no rule'', edit_case False (delete_key ''rule'')),
     (TV_PATH, ''accepted token that also names a rule'', edit_case True (set_key ''rule'' (text_value ''N-6.1''))),
     (TV_PATH, ''case with no note'', at_path (first_of ''parsing'') (delete_key ''note'')),
     (BV_PATH, ''misspelled op'', at_path first_scenario_step (set_key ''op'' (text_value ''isue''))),
     (BV_PATH, ''unknown field on a step'', at_path first_scenario_step (set_key ''devicedId'' (text_value ''typo''))),
     (BV_PATH, ''error code outside [N-38]'',
        edit_step (has_inner ''expect'' ''error'') [Key (js ''expect'')] (set_key ''error'' (text_value ''EXPIRED''))),
     (BV_PATH, ''failure expectation without a code'',
        edit_step (has_inner ''expect'' ''error'') [Key (js ''expect'')] (delete_key ''error'')),
     (BV_PATH, ''scenario citing no requirement'', at_path (first_of ''scenarios'') (set_key ''requirements'' (JArr []))),
     (BV_PATH, ''token that is both a ref and a literal'',
        edit_step (has_inner ''token'' ''ref'') [Key (js ''token'')] (set_key ''literal'' (text_value ''nbl.x.y.z''))),
     (BV_PATH, ''partial status assertion'',
        edit_step (has_op ''expectStatusCounts'') [Key (js ''counts'')] (delete_key ''rotated'')),
     (BV_PATH, ''advance with no seconds'', edit_step (has_op ''advance'') [] (delete_key ''seconds''))]"

section \<open>The section\<close>

datatype schema_problem =
    WrongDeclaration jsstring "json option"
  | InvalidSchema jsstring
  | SchemaError jsstring jsstring
  | Suppressed jsstring nat
  | NotApplied jsstring string
  | Accepts jsstring string

type_synonym validator = "json \<Rightarrow> jsstring list"

record schema_inputs =
  si_tv :: json
  si_bv :: json
  si_schema :: "jsstring \<Rightarrow> json option" \<comment> \<open>reading and parsing a schema, \<open>None\<close> when that throws\<close>
  si_ajv :: "json \<Rightarrow> validator option" \<comment> \<open>\<open>ajv.compile\<close>, \<open>None\<close> when it throws\<close>

definition data_files :: "schema_inputs \<Rightarrow> (jsstring \<times> jsstring \<times> json) list" where
  "data_files si = [(TV_PATH, js ''spec/test-vectors.schema.json'', si_tv si),
     (BV_PATH, js ''spec/behavior-vectors.schema.json'', si_bv si)]"

definition validator_of :: "schema_inputs \<Rightarrow> jsstring \<Rightarrow> validator option" where
  "validator_of si schemaPath = Option.bind (si_schema si schemaPath) (si_ajv si)"

definition data_problems :: "schema_inputs \<Rightarrow> jsstring \<times> jsstring \<times> json \<Rightarrow> js_exn + schema_problem list" where
  "data_problems si file = (case file of (dataPath, schemaPath, data) \<Rightarrow>
     if data = JNull then Inl TypeError
     else
       let declared = get data (js ''$schema''); expected = js ''./'' @ last (split_on 47 schemaPath)
       in Inr (push (declared \<noteq> Some (JStr expected)) (WrongDeclaration dataPath declared) @
         (case validator_of si schemaPath of
            None \<Rightarrow> [InvalidSchema schemaPath]
          | Some validate \<Rightarrow>
              let errors = validate data
              in map (SchemaError dataPath) (take 25 errors) @
                 push (25 < length errors) (Suppressed dataPath (length errors - 25)))))"

text \<open>\<open>validators[dataPath]\<close>, with the value a fresh copy of the file has.\<close>

definition validators :: "schema_inputs \<Rightarrow> (jsstring \<times> validator \<times> json) list" where
  "validators si = concat (map (\<lambda>(dataPath, schemaPath, data).
     case validator_of si schemaPath of None \<Rightarrow> [] | Some v \<Rightarrow> [(dataPath, v, data)]) (data_files si))"

definition selftest_problems :: "schema_inputs \<Rightarrow> jsstring \<times> string \<times> (json \<Rightarrow> js_exn + json) \<Rightarrow> schema_problem list" where
  "selftest_problems si m = (case m of (dataPath, what, mutate) \<Rightarrow>
     case map_of (validators si) dataPath of
       None \<Rightarrow> []
     | Some (validate, data) \<Rightarrow>
         (case mutate data of
            Inl _ \<Rightarrow> [NotApplied dataPath what]
          | Inr copy \<Rightarrow> push (validate copy = []) (Accepts dataPath what)))"

definition schema_section :: "schema_inputs \<Rightarrow> js_exn + schema_problem list" where
  "schema_section si = both (each (data_problems si) (data_files si))
     (Inr (concat (map (selftest_problems si) MUTATIONS)))"

section \<open>What the section establishes\<close>

definition conforms :: "schema_inputs \<Rightarrow> jsstring \<times> jsstring \<times> json \<Rightarrow> bool" where
  "conforms si file = (case file of (dataPath, schemaPath, data) \<Rightarrow>
     get data (js ''$schema'') = Some (JStr (js ''./'' @ last (split_on 47 schemaPath))) \<and>
     (\<exists>validate. validator_of si schemaPath = Some validate \<and> validate data = []))"

definition bites :: "schema_inputs \<Rightarrow> jsstring \<times> string \<times> (json \<Rightarrow> js_exn + json) \<Rightarrow> bool" where
  "bites si m = (case m of (dataPath, what, mutate) \<Rightarrow>
     (\<exists>validate data defect. map_of (validators si) dataPath = Some (validate, data) \<and>
        mutate data = Inr defect \<and> validate defect \<noteq> []))"

lemma data_Nil_iff: "data_problems si f0 = Inr [] \<longleftrightarrow> conforms si f0"
proof -
  obtain dataPath schemaPath data where f: "f0 = (dataPath, schemaPath, data)" by (cases f0) auto
  have e: "map (SchemaError dataPath) (take 25 es) @ push (25 < length es) x = [] \<longleftrightarrow> es = []" for es x
    by (cases es) (auto simp: push_Nil_iff)
  have "get data k = Some v \<Longrightarrow> data \<noteq> JNull" for k v by auto
  then show ?thesis
    by (auto simp: f data_problems_def conforms_def Let_def push_Nil_iff e split: option.splits)
qed

lemma selftest_Nil_iff:
  "map_of (validators si) (fst m) \<noteq> None \<Longrightarrow> selftest_problems si m = [] \<longleftrightarrow> bites si m"
  by (auto simp: selftest_problems_def bites_def push_Nil_iff split: prod.splits sum.splits)

lemma paths_differ: "TV_PATH \<noteq> BV_PATH"
  by (simp add: TV_PATH_def BV_PATH_def js_def)

lemma mutation_paths: "m \<in> set MUTATIONS \<Longrightarrow> fst m = TV_PATH \<or> fst m = BV_PATH"
  by (auto simp: MUTATIONS_def)

text \<open>
  \<^bold>\<open>C32.\<close> The schemas bite. Section 1 reports nothing exactly when each vector file names its schema, the schemas
  compile and accept the files, and each of the fourteen planted defects can be planted in the file as it is
  and makes its schema report an error.
\<close>

theorem schemas_bite_iff:
  "schema_section si = Inr [] \<longleftrightarrow> list_all (conforms si) (data_files si) \<and> list_all (bites si) MUTATIONS"
proof -
  have "map_of (validators si) (fst m) \<noteq> None" if "list_all (conforms si) (data_files si)" "m \<in> set MUTATIONS" for m
    using that(1) mutation_paths [OF that(2)] paths_differ
    by (auto simp: data_files_def conforms_def validators_def)
  then have "list_all (conforms si) (data_files si) \<Longrightarrow> (\<forall>m \<in> set MUTATIONS. selftest_problems si m = []) \<longleftrightarrow> list_all (bites si) MUTATIONS"
    using selftest_Nil_iff by (auto simp: list_all_iff)
  moreover have "schema_section si = Inr [] \<longleftrightarrow>
      list_all (conforms si) (data_files si) \<and> (\<forall>m \<in> set MUTATIONS. selftest_problems si m = [])"
    unfolding schema_section_def both_Nil_iff each_Nil_iff data_Nil_iff sum.inject concat_map_Nil_iff list_all_iff ..
  ultimately show ?thesis by blast
qed

end
