(* ===== verification/Validate_Vectors.thy ===== *)
theory Validate_Vectors
  imports Traceability Vector_Schemas
begin

text \<open>
  \<open>scripts/validate-vectors.mjs\<close>, sections 2 to 8: declared counts, unique ids, citations, spec
  version, constants, the integrity of the scenarios and the traceability file.

  Section 1 is in theory \<open>Vector_Schemas\<close>; its problems are an argument of \<open>validate_vectors\<close>, and
  \<open>validate_script\<close> composes the two. A problem is a value, one constructor per message.
\<close>

datatype vv_problem =
    SchemaProblem schema_problem
  | SectionCount jsstring "nat option" "nat option"
  | ScenarioCount "nat option" nat
  | UnconditionalCount "nat option" nat
  | DuplicateId jsstring jsstring jsstring
  | NoRequirements
  | NotDefined jsstring jsstring "jsstring list"
  | NoSubRules jsstring jsstring jsstring
  | SubRuleBeyond jsstring jsstring jsstring nat
  | NoSpecVersion
  | SpecVersionDiffers jsstring nat jsstring
  | NoConstantsTable
  | NoConstantRow jsstring
  | ConstantDiffers jsstring jsstring "const_value option" const_value
  | ConstantUnmirrored jsstring
  | UnknownCondition jsstring jsstring
  | UnboundRef jsstring nat jsstring jsstring
  | Rebound jsstring nat jsstring
  | BindsFailure jsstring nat jsstring
  | UnknownKid jsstring nat jsstring
  | ActiveKidNotConfigured jsstring nat
  | AssertsNothing jsstring
  | DefaultKidNotConfigured
  | TraceMissing
  | TraceStale

section \<open>2. Counts\<close>

definition section_count_problems :: "test_vectors \<Rightarrow> vv_problem list" where
  "section_count_problems tv = concat (map (\<lambda>s.
     let declared = map_of (tv_counts tv) s; actual = map_option length (map_of (tv_sections tv) s)
     in if declared \<noteq> actual then [SectionCount s declared actual] else []) tvSections)"

definition unconditional :: "behavior_vectors \<Rightarrow> nat" where
  "unconditional bv = length (filter (\<lambda>s. sc_condition s = None) (bv_scenarios bv))"

definition count_problems :: "test_vectors \<Rightarrow> behavior_vectors \<Rightarrow> vv_problem list" where
  "count_problems tv bv =
     section_count_problems tv @
     (let declared = map_of (bv_counts bv) (js ''scenarios''); n = length (bv_scenarios bv)
      in if declared \<noteq> Some n then [ScenarioCount declared n] else []) @
     (let declared = map_of (bv_counts bv) (js ''unconditional''); n = unconditional bv
      in if declared \<noteq> Some n then [UnconditionalCount declared n] else [])"

section \<open>3. Unique ids\<close>

text \<open>\<open>claimId\<close>: the map \<open>seen\<close> from ids to where they were claimed, and the problems so far.\<close>

type_synonym claims = "(jsstring \<times> jsstring) list \<times> vv_problem list"

definition claimId :: "jsstring \<times> jsstring \<Rightarrow> claims \<Rightarrow> claims" where
  "claimId c st = (case c of (i, where_) \<Rightarrow> case st of (seen, ps) \<Rightarrow>
     (case map_of seen i of
        Some first \<Rightarrow> (seen, ps @ [DuplicateId i first where_])
      | None \<Rightarrow> (map_set i where_ seen, ps)))"

definition claimed_ids :: "test_vectors \<Rightarrow> behavior_vectors \<Rightarrow> (jsstring \<times> jsstring) list" where
  "claimed_ids tv bv =
     concat (map (\<lambda>s. map (\<lambda>c. (vc_id c, js ''test-vectors.json '' @ s)) (tv_cases tv s)) tvSections) @
     map (\<lambda>s. (sc_id s, js ''behavior-vectors.json scenarios'')) (bv_scenarios bv)"

definition id_problems :: "test_vectors \<Rightarrow> behavior_vectors \<Rightarrow> vv_problem list" where
  "id_problems tv bv = snd (fold claimId (claimed_ids tv bv) ([], []))"

section \<open>4. Citations\<close>

definition SUB_RULES_RE :: regex where \<comment> \<open>\<open>/\n\n((?:\d+\.[^\n]*\n)+)/\<close>\<close>
  "SUB_RULES_RE = RSeqs [RLit [NL, NL], RGroup 1 (RPlus True (RSeqs [RPlus True (RChar is_digit),
     RLit (js ''.''), RStar True (RChar (\<lambda>c. c \<noteq> NL)), RLit [NL]]))]"

definition NUMBERED_RE :: regex where \<comment> \<open>\<open>/^\d+\./\<close>\<close>
  "NUMBERED_RE = RSeqs [RBol False, RPlus True (RChar is_digit), RLit (js ''.'')]"

definition trim_end :: "jsstring \<Rightarrow> jsstring" where
  "trim_end s = rev (trim_start (rev s))"

definition subRuleCount :: "jsstring \<Rightarrow> jsstring \<Rightarrow> nat" where
  "subRuleCount spec req =
     (case indexOf spec (js ''**['' @ req @ js '']**'') of
        None \<Rightarrow> 0
      | Some start \<Rightarrow>
          (case match_group SUB_RULES_RE (drop start spec) 1 of
             None \<Rightarrow> 0
           | Some items \<Rightarrow> length (filter (test NUMBERED_RE) (lines (trim_end items)))))"

text \<open>\<open>cite(ref, where)\<close>: a map from references to the places that cite them, in order.\<close>

type_synonym citation_map = "(jsstring \<times> jsstring list) list"

definition cite :: "jsstring \<times> jsstring \<Rightarrow> citation_map \<Rightarrow> citation_map" where
  "cite c cits = (case c of (ref, where_) \<Rightarrow>
     map_set ref ((case map_of cits ref of None \<Rightarrow> [] | Some ws \<Rightarrow> ws) @ [where_]) cits)"

definition all_citations :: "test_vectors \<Rightarrow> behavior_vectors \<Rightarrow> (jsstring \<times> jsstring) list" where
  "all_citations tv bv =
     concat (map (\<lambda>s. concat (map (\<lambda>c.
        if truthy (vc_rule c) then [(the (vc_rule c), js ''test-vectors.json '' @ vc_id c)] else [])
        (tv_cases tv s))) tvSections) @
     concat (map (\<lambda>s. map (\<lambda>r. (r, js ''behavior-vectors.json '' @ sc_id s)) (sc_requirements s)) (bv_scenarios bv))"

definition citations :: "test_vectors \<Rightarrow> behavior_vectors \<Rightarrow> citation_map" where
  "citations tv bv = fold cite (all_citations tv bv) []"

text \<open>\<open>Number(sub) > n\<close>; a comparison with \<open>NaN\<close> is false.\<close>

definition float_exceeds :: "js_float \<Rightarrow> nat \<Rightarrow> bool" where
  "float_exceeds x n = (case x of NaN \<Rightarrow> False | Infinite neg \<Rightarrow> \<not> neg | Finite q \<Rightarrow> q > of_nat n)"

definition citation_problem :: "jsstring \<Rightarrow> jsstring \<times> jsstring list \<Rightarrow> vv_problem list" where
  "citation_problem spec cit = (case cit of (ref, wheres) \<Rightarrow>
     (let parts = split_on 46 ref; base = hd parts in
      if base \<notin> set (defined_reqs spec) then [NotDefined ref base wheres]
      else case drop 1 parts of
        [] \<Rightarrow> []
      | sub # _ \<Rightarrow>
          let n = subRuleCount spec base in
          if n = 0 then [NoSubRules ref sub (hd wheres)]
          else if float_exceeds (Number sub) n then [SubRuleBeyond ref sub (hd wheres) n]
          else []))"

definition citation_problems :: "jsstring \<Rightarrow> test_vectors \<Rightarrow> behavior_vectors \<Rightarrow> vv_problem list" where
  "citation_problems spec tv bv =
     (if defined_reqs spec = [] then [NoRequirements] else []) @
     concat (map (citation_problem spec) (citations tv bv))"

section \<open>5. Spec version\<close>

definition SPEC_VERSION_RE :: regex where \<comment> \<open>\<open>/\*\*Spec version:\*\*\s*(\d+)/\<close>\<close>
  "SPEC_VERSION_RE = RSeqs [RLit (js ''**Spec version:**''), RSpaces, RGroup 1 (RPlus True (RChar is_digit))]"

definition spec_version_problems :: "jsstring \<Rightarrow> test_vectors \<Rightarrow> behavior_vectors \<Rightarrow> vv_problem list" where
  "spec_version_problems spec tv bv =
     (case match_group SPEC_VERSION_RE spec 1 of
        None \<Rightarrow> [NoSpecVersion]
      | Some v \<Rightarrow> concat (map (\<lambda>(name, n). if decimal n \<noteq> v then [SpecVersionDiffers name n v] else [])
          [(js ''test-vectors.json'', tv_spec_version tv), (js ''behavior-vectors.json'', bv_spec_version bv)]))"

section \<open>6. Constants\<close>

definition TABLE_RE :: regex where \<comment> \<open>\<open>/## 1\. Constants\n([\s\S]*?)\n\n\*\*\[N-1\]/\<close>\<close>
  "TABLE_RE = RSeqs [RLit (js ''## 1. Constants'' @ [NL]), RGroup 1 (RStar False RAny),
     RLit ([NL, NL] @ js ''**[N-1]'')]"

definition TABLE_ROW_RE :: regex where \<comment> \<open>a row \<open>| `NAME` | value |\<close>: \<open>/^\|\s*`([A-Z_]+)`\s*\|\s*(.+?)\s*\|$/\<close>\<close>
  "TABLE_ROW_RE = RSeqs [RBol False, RLit (js ''|''), RSpaces, RLit [96],
     RGroup 1 (RPlus True (RChar (\<lambda>c. (65 \<le> c \<and> c \<le> 90) \<or> c = 95))), RLit [96], RSpaces, RLit (js ''|''),
     RSpaces, RGroup 2 (RPlus False RDot), RSpaces, RLit (js ''|''), REol False]"

definition QUOTED_RE :: regex where \<comment> \<open>a quoted string in backquotes\<close>
  "QUOTED_RE = RSeqs [RBol False, RLit [96, 34], RGroup 1 (RStar True RDot), RLit [34, 96], REol False]"

definition GROUP_SPACE_RE :: regex where \<comment> \<open>a digit-group space: U+00A0, U+202F or a space, before a digit\<close>
  "GROUP_SPACE_RE = RSeq (RChar (\<lambda>c. c = 0xA0 \<or> c = 0x202F \<or> c = 32)) (RLook (RChar is_digit))"

definition LEADING_DIGITS_RE :: regex where
  "LEADING_DIGITS_RE = RSeqs [RBol False, RGroup 1 (RPlus True (RChar is_digit))]"

definition const_of_cell :: "jsstring \<Rightarrow> const_value" where
  "const_of_cell raw =
     (case match_group QUOTED_RE raw 1 of
        Some q \<Rightarrow> CStr q
      | None \<Rightarrow>
          (case match_group LEADING_DIGITS_RE (replaceAll GROUP_SPACE_RE (\<lambda>_. []) raw) 1 of
             Some d \<Rightarrow> CNum (Number d)
           | None \<Rightarrow> CStr raw))"

definition const_row :: "jsstring \<Rightarrow> (jsstring \<times> const_value) list \<Rightarrow> (jsstring \<times> const_value) list" where
  "const_row line out = (case exec TABLE_ROW_RE line of
     None \<Rightarrow> out
   | Some m \<Rightarrow> map_set (the (group m 1)) (const_of_cell (the (group m 2))) out)"

definition specConstants :: "jsstring \<Rightarrow> (jsstring \<times> const_value) list option" where
  "specConstants spec = map_option (\<lambda>t. fold const_row (lines t) []) (match_group TABLE_RE spec 1)"

definition CONSTANT_MAP :: "(jsstring \<times> jsstring) list" where
  "CONSTANT_MAP = map (\<lambda>(a, b). (js a, js b))
    [(''prefix'', ''PREFIX''), (''selector_bytes'', ''SELECTOR_BYTES''), (''verifier_bytes'', ''VERIFIER_BYTES''),
     (''selector_chars'', ''SELECTOR_CHARS''), (''verifier_chars'', ''VERIFIER_CHARS''),
     (''max_kid_length'', ''MAX_KID_LENGTH''), (''max_token_length'', ''MAX_TOKEN_LENGTH''),
     (''min_pepper_length'', ''MIN_PEPPER_LENGTH''), (''default_absolute_ttl_seconds'', ''DEFAULT_ABSOLUTE_TTL''),
     (''default_idle_ttl_seconds'', ''DEFAULT_IDLE_TTL''), (''default_reuse_grace_seconds'', ''DEFAULT_REUSE_GRACE'')]"

text \<open>\<open>got !== want\<close>: \<open>NaN\<close> differs from itself, but \<open>Number\<close> of digits is never \<open>NaN\<close>.\<close>

definition constant_problem :: "test_vectors \<Rightarrow> (jsstring \<times> const_value) list \<Rightarrow> jsstring \<times> jsstring \<Rightarrow> vv_problem list" where
  "constant_problem tv consts kk = (case kk of (vecKey, specKey) \<Rightarrow>
     (case map_of consts specKey of
        None \<Rightarrow> [NoConstantRow specKey]
      | Some want \<Rightarrow>
          let got = map_of (tv_constants tv) vecKey
          in if got \<noteq> Some want then [ConstantDiffers vecKey specKey got want] else []))"

definition constant_problems :: "jsstring \<Rightarrow> test_vectors \<Rightarrow> vv_problem list" where
  "constant_problems spec tv =
     (case specConstants spec of
        None \<Rightarrow> [NoConstantsTable]
      | Some consts \<Rightarrow>
          concat (map (constant_problem tv consts) CONSTANT_MAP) @
          concat (map (\<lambda>name. if name \<notin> set (map snd CONSTANT_MAP) then [ConstantUnmirrored name] else [])
            (map fst consts)))"

section \<open>7. Scenarios\<close>

text \<open>The earlier tokens a step names; \<open>undefined\<close> and the empty string are skipped.\<close>

definition step_refs :: "step \<Rightarrow> (jsstring \<times> jsstring) list" where
  "step_refs st = concat (map (\<lambda>(what, v). if truthy v then [(js what, the v)] else [])
     [(''token.ref'', sp_token_ref st), (''of'', sp_of st),
      (''expect.sameFamilyAs'', sp_sameFamilyAs st), (''expect.sameExpiresAtAs'', sp_sameExpiresAtAs st)])"

definition step_kids :: "step \<Rightarrow> jsstring list" where
  "step_kids st = map the (filter truthy ([sp_activeKid st] @ map Some (sp_peppers st) @ [sp_expect_kid st]))"

definition bind_step :: "jsstring \<Rightarrow> nat \<Rightarrow> step \<Rightarrow> jsstring list \<Rightarrow> jsstring list \<times> vv_problem list" where
  "bind_step sid i st bound =
     (if truthy (sp_bind st) then
        let b = the (sp_bind st); re = (if b \<in> set bound then [Rebound sid i b] else []) in
        if sp_expect_ok st = Some False then (bound, re @ [BindsFailure sid i b])
        else (set_add b bound, re)
      else (bound, []))"

definition step_problems ::
  "jsstring list \<Rightarrow> jsstring \<Rightarrow> nat \<Rightarrow> step \<Rightarrow> jsstring list \<Rightarrow> jsstring list \<times> vv_problem list" where
  "step_problems kids sid i st bound =
     (let refs = concat (map (\<lambda>(what, name). if name \<notin> set bound then [UnboundRef sid i what name] else []) (step_refs st));
          (bound', binds) = bind_step sid i st bound;
          kps = concat (map (\<lambda>k. if k \<notin> set kids then [UnknownKid sid i k] else []) (step_kids st));
          rec = (if sp_op st = js ''reconfigure'' \<and> sp_activeKid st \<notin> set (map Some (sp_peppers st))
                 then [ActiveKidNotConfigured sid i] else [])
      in (bound', refs @ binds @ kps @ rec))"

fun steps_problems ::
  "jsstring list \<Rightarrow> jsstring \<Rightarrow> nat \<Rightarrow> step list \<Rightarrow> jsstring list \<Rightarrow> vv_problem list" where
  "steps_problems kids sid i [] bound = []"
| "steps_problems kids sid i (st # sts) bound =
     (case step_problems kids sid i st bound of
        (bound', ps) \<Rightarrow> ps @ steps_problems kids sid (Suc i) sts bound')"

definition scenario_problems :: "behavior_vectors \<Rightarrow> scenario \<Rightarrow> vv_problem list" where
  "scenario_problems bv s =
     (case sc_condition s of
        None \<Rightarrow> []
      | Some c \<Rightarrow> if c \<notin> set (bv_conditions bv) then [UnknownCondition (sc_id s) c] else []) @
     steps_problems (bv_kids bv) (sc_id s) 1 (sc_steps s) [] @
     (if \<not> list_ex (\<lambda>st. sp_expect st \<or> startsWith (sp_op st) (js ''expect'')) (sc_steps s)
      then [AssertsNothing (sc_id s)] else [])"

definition integrity_problems :: "behavior_vectors \<Rightarrow> vv_problem list" where
  "integrity_problems bv =
     concat (map (scenario_problems bv) (bv_scenarios bv)) @
     (if bv_default_activeKid bv \<notin> set (map Some (bv_default_peppers bv)) then [DefaultKidNotConfigured] else [])"

section \<open>8. Traceability, and the verdict\<close>

definition trace_problems ::
  "jsstring \<Rightarrow> test_vectors \<Rightarrow> behavior_vectors \<Rightarrow> jsstring option \<Rightarrow> vv_problem list" where
  "trace_problems spec tv bv on_disk =
     (case on_disk of
        None \<Rightarrow> [TraceMissing]
      | Some t \<Rightarrow>
          if trim t \<noteq> trim (stringify (build tv bv (defined_reqs spec)) 0) then [TraceStale] else [])"

definition validate_vectors ::
  "vv_problem list \<Rightarrow> jsstring \<Rightarrow> test_vectors \<Rightarrow> behavior_vectors \<Rightarrow> jsstring option \<Rightarrow> vv_problem list" where
  "validate_vectors schema spec tv bv on_disk =
     schema @ count_problems tv bv @ id_problems tv bv @ citation_problems spec tv bv @
     spec_version_problems spec tv bv @ constant_problems spec tv @ integrity_problems bv @
     trace_problems spec tv bv on_disk"

definition validate_exit :: "vv_problem list \<Rightarrow> int" where
  "validate_exit ps = (if ps \<noteq> [] then 1 else 0)"

text \<open>
  The whole script. Without \<open>ajv\<close> it stops with status 2, and an exception that nothing catches ends it with
  status 1. The vector files are given twice, as JSON to the schemas and as typed values to the rest.
\<close>

definition validate_script ::
  "bool \<Rightarrow> schema_inputs \<Rightarrow> jsstring \<Rightarrow> test_vectors \<Rightarrow> behavior_vectors \<Rightarrow> jsstring option \<Rightarrow> int" where
  "validate_script installed si spec tv bv on_disk =
     (if \<not> installed then 2
      else case schema_section si of
        Inl _ \<Rightarrow> 1
      | Inr ps \<Rightarrow> validate_exit (validate_vectors (map SchemaProblem ps) spec tv bv on_disk))"

lemma validate_script_passes:
  "validate_script installed si spec tv bv on_disk = 0 \<longleftrightarrow>
     installed \<and> schema_section si = Inr [] \<and> validate_vectors [] spec tv bv on_disk = []"
  by (auto simp: validate_script_def validate_exit_def validate_vectors_def split: sum.split)

end
