(* ===== verification/Vectors_Check.thy ===== *)
theory Vectors_Check
  imports Validate_Vectors
begin

text \<open>
  What \<open>scripts/validate-vectors.mjs\<close> establishes about the conformance artefacts: ids are unique,
  citations resolve, every scenario uses only tokens bound before, and the verdict as a whole.
\<close>

section \<open>Unique ids\<close>



section \<open>Citations\<close>










definition spec_with_later_list :: jsstring where
  "spec_with_later_list = js ''**[N-1]** a'' @ [NL, NL] @ js ''**[N-2]** b'' @ [NL, NL] @ js ''1. x'' @ [NL]"

text \<open>
  Sub-rule citations. The enumerated list counted for a requirement is the first one anywhere behind it, not only the run
  that follows its paragraph: here \<open>N-1\<close> has no list and is credited with that of \<open>N-2\<close>.
\<close>

theorem sub_rules_of_a_later_requirement:
  "subRuleCount spec_with_later_list (js ''N-1'') = 1 \<and>
   citation_problem spec_with_later_list (js ''N-1.1'', [js ''w'']) = []"
proof -
  have "subRuleCount spec_with_later_list (js ''N-1'') = 1"
    "defined_reqs spec_with_later_list = [js ''N-1'', js ''N-2'']"
    "split_on 46 (js ''N-1.1'') = [js ''N-1'', js ''1'']"
    by code_simp+
  then show ?thesis
    by (simp add: citation_problem_def float_exceeds_def js_eval)
qed

text \<open>A sub-rule that is no number or below 1 passes, as do the parts behind it.\<close>

theorem odd_sub_rules_pass:
  "list_all (\<lambda>ref. citation_problem spec_with_later_list (ref, [js ''w'']) = [])
     (map js [''N-2.0'', ''N-2.foo'', ''N-2.1.7''])"
proof -
  have "subRuleCount spec_with_later_list (js ''N-2'') = 1"
    "defined_reqs spec_with_later_list = [js ''N-1'', js ''N-2'']"
    "split_on 46 (js ''N-2.0'') = [js ''N-2'', js ''0'']" "split_on 46 (js ''N-2.foo'') = [js ''N-2'', js ''foo'']"
    "split_on 46 (js ''N-2.1.7'') = [js ''N-2'', js ''1'', js ''7'']"
    by code_simp+
  then show ?thesis
    by (simp add: citation_problem_def float_exceeds_def js_eval)
qed

section \<open>Scenarios\<close>

text \<open>The tokens bound before step \<open>i\<close>: results of earlier steps that are not expected to fail.\<close>

definition binds :: "step \<Rightarrow> jsstring \<Rightarrow> bool" where
  "binds st b \<longleftrightarrow> sp_bind st = Some b \<and> b \<noteq> [] \<and> sp_expect_ok st \<noteq> Some False"

definition step_ok :: "jsstring list \<Rightarrow> jsstring set \<Rightarrow> step \<Rightarrow> bool" where
  "step_ok kids bound st \<longleftrightarrow>
     snd ` set (step_refs st) \<subseteq> bound \<and>
     (truthy (sp_bind st) \<longrightarrow> the (sp_bind st) \<notin> bound \<and> sp_expect_ok st \<noteq> Some False) \<and>
     set (step_kids st) \<subseteq> set kids \<and>
     (sp_op st = js ''reconfigure'' \<longrightarrow> sp_activeKid st \<in> Some ` set (sp_peppers st))"

lemma step_problems_iff:
  "snd (step_problems kids sid i st bound) = [] \<longleftrightarrow> step_ok kids (set bound) st"
proof -
  obtain bound' ps where b: "bind_step sid i st bound = (bound', ps)" by fastforce
  have refs: "concat (map (\<lambda>(what, name). if name \<notin> set bound then [UnboundRef sid i what name] else []) (step_refs st)) = []
      \<longleftrightarrow> snd ` set (step_refs st) \<subseteq> set bound"
    by (fastforce simp: concat_eq_Nil_conv split: if_splits)
  have binds: "ps = [] \<longleftrightarrow>
      (truthy (sp_bind st) \<longrightarrow> the (sp_bind st) \<notin> set bound \<and> sp_expect_ok st \<noteq> Some False)"
    using b by (auto simp: bind_step_def Let_def split: if_splits)
  have kids: "concat (map (\<lambda>k. if k \<notin> set kids then [UnknownKid sid i k] else []) (step_kids st)) = []
      \<longleftrightarrow> set (step_kids st) \<subseteq> set kids"
    by (auto simp: concat_eq_Nil_conv)
  have rec: "(sp_op st = js ''reconfigure'' \<longrightarrow> sp_activeKid st \<in> Some ` set (sp_peppers st)) \<longleftrightarrow>
      (if sp_op st = js ''reconfigure'' \<and> sp_activeKid st \<notin> set (map Some (sp_peppers st))
       then [ActiveKidNotConfigured sid i] else []) = []"
    by simp
  show ?thesis
    unfolding step_problems_def Let_def step_ok_def b case_prod_conv snd_conv append_is_Nil_conv
      refs binds kids rec by (rule refl)
qed

lemma step_problems_bound:
  "set (fst (step_problems kids sid i st bound)) = set bound \<union> {b. binds st b}"
  by (cases "sp_bind st") (auto simp: step_problems_def bind_step_def Let_def binds_def)

lemma steps_problems_iff:
  "steps_problems kids sid i sts bound = [] \<longleftrightarrow>
    list_all (\<lambda>k. step_ok kids (set bound \<union> {b. \<exists>j < k. binds (sts ! j) b}) (sts ! k)) [0..<length sts]"
proof (induction sts arbitrary: i bound)
  case (Cons st sts)
  let ?ok = "\<lambda>sts bound k. step_ok kids (bound \<union> {b. \<exists>j < k. binds (sts ! j) b}) (sts ! k)"
  obtain bound' ps where sp: "step_problems kids sid i st bound = (bound', ps)" by fastforce
  have ps: "ps = [] \<longleftrightarrow> step_ok kids (set bound) st"
    using step_problems_iff [of kids sid i st bound] sp by simp
  have b': "set bound' = set bound \<union> {b. binds st b}"
    using step_problems_bound [of kids sid i st bound] sp by simp
  have "{b. \<exists>j < Suc k. binds ((st # sts) ! j) b} = {b. binds st b} \<union> {b. \<exists>j < k. binds (sts ! j) b}" for k
    by (auto simp: less_Suc_eq_0_disj)
  then have shift: "?ok (st # sts) (set bound) (Suc k) = ?ok sts (set bound') k" for k
    using b' by (simp add: Un_assoc)
  have zero: "?ok (st # sts) (set bound) 0 \<longleftrightarrow> step_ok kids (set bound) st" by simp
  have upto: "list_all Q [0..<length (st # sts)] \<longleftrightarrow> Q 0 \<and> list_all (\<lambda>k. Q (Suc k)) [0..<length sts]" for Q
  proof -
    have "[0..<length (st # sts)] = 0 # map Suc [0..<length sts]"
      by (simp add: upt_conv_Cons map_Suc_upt del: upt_Suc)
    then show ?thesis by (simp only: list.pred_inject list.pred_map comp_def)
  qed
  have "steps_problems kids sid i (st # sts) bound = [] \<longleftrightarrow>
      ps = [] \<and> steps_problems kids sid (Suc i) sts bound' = []"
    using sp by simp
  also have "\<dots> \<longleftrightarrow> ?ok (st # sts) (set bound) 0 \<and>
      list_all (\<lambda>k. ?ok (st # sts) (set bound) (Suc k)) [0..<length sts]"
    unfolding ps zero shift Cons.IH by (rule refl)
  also have "\<dots> \<longleftrightarrow> list_all (?ok (st # sts) (set bound)) [0..<length (st # sts)]"
    unfolding upto by (rule refl)
  finally show ?case .
qed simp

text \<open>
  \<^bold>\<open>C30.\<close> Scenario integrity. A scenario has no problem exactly when its condition is documented, some
  step asserts something, and every step names only tokens that an earlier step binds without
  expecting failure, binds a fresh name and not the result of a failure, uses only kids with a pepper,
  and reconfigures to a kid among its peppers.
\<close>

theorem scenario_integrity_iff:
  "scenario_problems bv s = [] \<longleftrightarrow>
    (sc_condition s = None \<or> the (sc_condition s) \<in> set (bv_conditions bv)) \<and>
    list_ex (\<lambda>st. sp_expect st \<or> startsWith (sp_op st) (js ''expect'')) (sc_steps s) \<and>
    list_all (\<lambda>k. step_ok (bv_kids bv) {b. \<exists>j < k. binds (sc_steps s ! j) b} (sc_steps s ! k))
      [0..<length (sc_steps s)]"
  by (auto simp: scenario_problems_def steps_problems_iff split: option.split)


end
