(* ===== verification/Check_Examples.thy ===== *)
theory Check_Examples
  imports Js_Lib
begin

text \<open>
  \<open>scripts/check-examples.mjs\<close>: every package ships a store template, and the CI job of the package
  runs the command that compiles it. The workflow is a text; the directory \<open>packages/x/examples\<close> is the
  tree \<open>readdirSync\<close> and \<open>isDirectory\<close> show, \<open>None\<close> when it is missing or no directory.

  The lemmas show that what \<open>runLines\<close> returns is executed by the job: the value of a \<open>run:\<close> key, or a
  line in the body of a \<open>run: |\<close> block, never a step name, an input or a comment.
\<close>

section \<open>The commands of a job\<close>

definition JOB_RE :: regex where \<comment> \<open>\<open>/^  [a-z][a-z0-9-]*:$/\<close>\<close>
  "JOB_RE = RSeqs [RBol False, RLit (js ''  ''), RChar (\<lambda>c. 97 \<le> c \<and> c \<le> 122),
     RStar True (RChar (\<lambda>c. (97 \<le> c \<and> c \<le> 122) \<or> is_digit c \<or> c = 45)), RLit (js '':''), REol False]"

definition RUN_RE :: regex where \<comment> \<open>\<open>/^(\s*)-?\s*run:\s*(.*)$/\<close>\<close>
  "RUN_RE = RSeqs [RBol False, RGroup 1 RSpaces, ROpt (RLit (js ''-'')), RSpaces, RLit (js ''run:''), RSpaces,
     RGroup 2 (RStar True RDot), REol False]"

definition scalar_marks :: "jsstring list" where
  "scalar_marks = map js [''|'', ''|-'', ''>'', ''>-'']"

text \<open>The lines between the header of a job and the next header.\<close>

definition job_lines :: "jsstring \<Rightarrow> jsstring \<Rightarrow> jsstring list" where
  "job_lines ci job =
     (case dropWhile (\<lambda>l. l \<noteq> js ''  '' @ job @ js '':'') (lines ci) of
        [] \<Rightarrow> []
      | _ # rest \<Rightarrow> takeWhile (\<lambda>l. \<not> test JOB_RE l) rest)"

text \<open>\<open>line.search(/\S/)\<close>, for a line that is not blank.\<close>

definition indent :: "jsstring \<Rightarrow> nat" where
  "indent l = length (takeWhile is_space l)"

fun run_loop :: "nat option \<Rightarrow> jsstring list \<Rightarrow> jsstring list" where
  "run_loop block [] = []"
| "run_loop block (line # ls) =
     (if block \<noteq> None \<and> (trim line = [] \<or> the block \<le> indent line)
      then trim line # run_loop block ls
      else case exec RUN_RE line of
        None \<Rightarrow> run_loop None ls
      | Some m \<Rightarrow>
          let rest = trim (the (group m 2)) in
          if rest \<in> set scalar_marks then run_loop (Some (length (the (group m 1)) + 2)) ls
          else if rest \<noteq> [] then rest # run_loop None ls
          else run_loop None ls)"

definition runLines :: "jsstring \<Rightarrow> jsstring \<Rightarrow> jsstring list" where
  "runLines ci job =
     filter (\<lambda>l. l \<noteq> [] \<and> \<not> startsWith l (js ''#'')) (run_loop None (job_lines ci job))"

section \<open>The packages\<close>

record example_package =
  ep_name :: jsstring
  ep_dir :: jsstring
  ep_ext :: "jsstring list"
  ep_command :: jsstring
  ep_why :: jsstring

definition ep :: "string \<Rightarrow> string \<Rightarrow> string \<Rightarrow> jsstring \<Rightarrow> jsstring \<Rightarrow> example_package" where
  "ep n d e c w = \<lparr> ep_name = js n, ep_dir = js d, ep_ext = [js e], ep_command = c, ep_why = w \<rparr>"

definition PACKAGES :: "example_package list" where
  "PACKAGES =
    [ep ''typescript'' ''examples'' ''.ts'' (js ''npx tsc -p tsconfig.ci-examples.json'')
       (js ''a CI-only tsconfig type-checks src and examples together''),
     ep ''python'' ''examples'' ''.py'' (js ''python -m compileall -q examples'')
       (js ''byte-compiles every example''),
     ep ''go'' ''examples'' ''.go'' (js ''go build ./...'')
       (js ''compiles every package in the module, examples/sqlstore included''),
     ep ''rust'' ''examples'' ''.rs'' (js ''cargo build --examples'')
       (js ''examples/*.rs are cargo examples by convention''),
     ep ''java'' ''examples'' ''.java'' (js ''javac -Xlint:all -cp target/classes'')
       (js ''Maven never compiles examples/, so javac does it against the built classes''),
     ep ''php'' ''examples'' ''.php'' (js ''glob('' @ [34] @ js ''packages/php/examples/*.php'' @ [34] @ js '')'')
       (js ''requiring the file is the check '' @ [0x2014] @ js '' PHP fatals at declaration time on an unsatisfied interface; the path is repository-relative because composer.json is the root manifest''),
     ep ''csharp'' ''examples'' ''.cs'' (js ''dotnet build '' @ [34] @ js ''$proj'' @ [34] @ js '' -c Release'')
       (js ''a throwaway csproj compiles them against the library project''),
     ep ''dart'' ''example'' ''.dart'' (js ''dart analyze --fatal-infos'')
       (js ''analyses the whole package, example/ included''),
     ep ''ruby'' ''examples'' ''.rb'' (js ''for f in examples/*.rb; do ruby -c '' @ [34] @ js ''$f'' @ [34] @ js ''; done'')
       (js ''the pg gem is absent, so a syntax check is the honest ceiling''),
     ep ''elixir'' ''examples'' ''.ex'' (js ''elixirc --ignore-module-conflict'')
       (js ''examples/ is outside lib/, so mix never compiles it'')]"

section \<open>The check\<close>

datatype dir_entry = File jsstring | Dir jsstring "dir_entry list"

text \<open>\<open>walk\<close>: the names of all files of a tree.\<close>

primrec walk :: "dir_entry \<Rightarrow> jsstring list" where
  "walk (File n) = [n]"
| "walk (Dir n es) = concat (map walk es)"

definition templates :: "example_package \<Rightarrow> dir_entry list \<Rightarrow> jsstring list" where
  "templates p es = filter (\<lambda>f. list_ex (\<lambda>e. endsWith f e) (ep_ext p)) (concat (map walk es))"

datatype example_problem =
    NoTemplateDir jsstring
  | NoTemplate jsstring "jsstring list"
  | NotCompiled jsstring nat jsstring jsstring

definition rel_path :: "example_package \<Rightarrow> jsstring" where
  "rel_path p = js ''packages/'' @ ep_name p @ js ''/'' @ ep_dir p"

text \<open>One package: its problem, or its row (path, number of templates, how they are compiled).\<close>

definition check_package ::
  "jsstring \<Rightarrow> (jsstring \<Rightarrow> dir_entry list option) \<Rightarrow> example_package \<Rightarrow> example_problem + jsstring \<times> nat \<times> jsstring" where
  "check_package ci dir p =
     (case dir (rel_path p) of
        None \<Rightarrow> Inl (NoTemplateDir (rel_path p))
      | Some es \<Rightarrow>
          let files = templates p es in
          if files = [] then Inl (NoTemplate (rel_path p) (ep_ext p))
          else if \<not> list_ex (\<lambda>l. str_includes l (ep_command p)) (runLines ci (ep_name p))
            then Inl (NotCompiled (rel_path p) (length files) (ep_command p) (ep_why p))
          else Inr (rel_path p, length files, ep_why p))"

definition examples_main ::
  "jsstring \<Rightarrow> (jsstring \<Rightarrow> dir_entry list option) \<Rightarrow> example_problem list \<times> (jsstring \<times> nat \<times> jsstring) list" where
  "examples_main ci dir =
     (let rs = map (check_package ci dir) PACKAGES
      in (concat (map (\<lambda>r. case r of Inl p \<Rightarrow> [p] | Inr _ \<Rightarrow> []) rs),
          concat (map (\<lambda>r. case r of Inl _ \<Rightarrow> [] | Inr row \<Rightarrow> [row]) rs)))"

definition examples_exit :: "example_problem list \<times> (jsstring \<times> nat \<times> jsstring) list \<Rightarrow> int" where
  "examples_exit r = (if fst r \<noteq> [] then 1 else 0)"

section \<open>What counts as executed\<close>

definition run_header :: "jsstring \<Rightarrow> nat \<Rightarrow> bool" where
  "run_header l ind \<longleftrightarrow>
     (\<exists>m. exec RUN_RE l = Some m \<and> trim (the (group m 2)) \<in> set scalar_marks \<and> ind = length (the (group m 1)) + 2)"

text \<open>Line \<open>i\<close> of \<open>L\<close> lies in the body of a block that a \<open>run:\<close> line above opens.\<close>

definition block_body :: "jsstring list \<Rightarrow> nat \<Rightarrow> bool" where
  "block_body L i \<longleftrightarrow>
     (\<exists>j ind. j < i \<and> run_header (L ! j) ind \<and>
        (\<forall>k. j < k \<and> k \<le> i \<longrightarrow> trim (L ! k) = [] \<or> ind \<le> indent (L ! k)))"

definition inline_run :: "jsstring \<Rightarrow> jsstring \<Rightarrow> bool" where
  "inline_run line l \<longleftrightarrow> (\<exists>m. exec RUN_RE line = Some m \<and> l = trim (the (group m 2)) \<and> l \<notin> set scalar_marks)"

definition executed_line :: "jsstring list \<Rightarrow> jsstring \<Rightarrow> bool" where
  "executed_line L l \<longleftrightarrow> (\<exists>i < length L. inline_run (L ! i) l \<or> (block_body L i \<and> l = trim (L ! i)))"

definition open_block :: "jsstring list \<Rightarrow> nat \<Rightarrow> nat option \<Rightarrow> bool" where
  "open_block L n block \<longleftrightarrow> (\<forall>ind. block = Some ind \<longrightarrow>
     (\<exists>j < n. run_header (L ! j) ind \<and> (\<forall>k. j < k \<and> k < n \<longrightarrow> trim (L ! k) = [] \<or> ind \<le> indent (L ! k))))"

lemma open_block_None [simp]: "open_block L n None"
  by (simp add: open_block_def)

lemma run_loop_executed:
  "l \<in> set (run_loop block ls) \<Longrightarrow> open_block (pre @ ls) (length pre) block \<Longrightarrow> executed_line (pre @ ls) l"
proof (induction ls arbitrary: block pre)
  case (Cons line ls)
  let ?L = "pre @ line # ls"
  have L: "?L = (pre @ [line]) @ ls" "?L ! length pre = line" "length pre < length ?L" by simp_all
  have IH: "executed_line ?L l" if "l \<in> set (run_loop b ls)" "open_block ?L (Suc (length pre)) b" for b
    using Cons.IH [of b "pre @ [line]"] that by simp
  show ?case
  proof (cases "block \<noteq> None \<and> (trim line = [] \<or> the block \<le> indent line)")
    case True
    then obtain ind where ind: "block = Some ind" "trim line = [] \<or> ind \<le> indent line" by auto
    from Cons.prems(2) obtain j where j: "j < length pre" "run_header (?L ! j) ind"
      "\<forall>k. j < k \<and> k < length pre \<longrightarrow> trim (?L ! k) = [] \<or> ind \<le> indent (?L ! k)"
      unfolding open_block_def ind(1) by blast
    then have all: "\<forall>k. j < k \<and> k \<le> length pre \<longrightarrow> trim (?L ! k) = [] \<or> ind \<le> indent (?L ! k)"
      using ind(2) L(2) by (metis le_neq_implies_less)
    have body: "block_body ?L (length pre)" unfolding block_body_def using j all by blast
    have still: "open_block ?L (Suc (length pre)) block"
      unfolding open_block_def using ind(1) j(1,2) all by (metis less_Suc_eq less_Suc_eq_le option.inject)
    from Cons.prems(1) True consider "l = trim line" | "l \<in> set (run_loop block ls)" by auto
    then show ?thesis
    proof cases
      case 1
      then show ?thesis unfolding executed_line_def using body L(2,3) by metis
    next
      case 2
      then show ?thesis using still by (rule IH)
    qed
  next
    case False
    then have next_lines: "run_loop block (line # ls) = (case exec RUN_RE line of None \<Rightarrow> run_loop None ls
      | Some m \<Rightarrow>
          let rest = trim (the (group m 2)) in
          if rest \<in> set scalar_marks then run_loop (Some (length (the (group m 1)) + 2)) ls
          else if rest \<noteq> [] then rest # run_loop None ls
          else run_loop None ls)"
      by (subst run_loop.simps(2)) (rule if_not_P)
    show ?thesis
    proof (cases "exec RUN_RE line")
      case None
      then have "l \<in> set (run_loop None ls)" using Cons.prems(1) next_lines by simp
      then show ?thesis by (rule IH) simp
    next
      case (Some m)
      let ?rest = "trim (the (group m 2))" and ?ind = "length (the (group m 1)) + 2"
      consider (scalar) "?rest \<in> set scalar_marks" "l \<in> set (run_loop (Some ?ind) ls)"
        | (inline) "?rest \<notin> set scalar_marks" "l = ?rest"
        | (rest) "l \<in> set (run_loop None ls)"
        using Cons.prems(1) Some unfolding next_lines by (auto simp: Let_def split: if_splits)
      then show ?thesis
      proof cases
        case scalar
        have "run_header line ?ind" using Some scalar(1) by (auto simp: run_header_def)
        then have "open_block ?L (Suc (length pre)) (Some ?ind)"
          unfolding open_block_def using L(2) by (auto intro!: exI [of _ "length pre"])
        with scalar(2) show ?thesis by (rule IH)
      next
        case inline
        then have "inline_run line l" using Some by (auto simp: inline_run_def)
        then show ?thesis unfolding executed_line_def using L(2,3) by metis
      next
        case rest
        then show ?thesis by (rule IH) simp
      qed
    qed
  qed
qed simp

text \<open>
  What \<open>runLines\<close> returns is executed. Every command it returns for a job is no comment and not
  empty, and is the value of a \<open>run:\<close> key of that job or a trimmed line in the body of a block such a
  key opens.
\<close>

theorem runLines_executed:
  "list_all (\<lambda>l. l \<noteq> [] \<and> \<not> startsWith l (js ''#'') \<and>
      (\<exists>i < length (job_lines ci job). inline_run (job_lines ci job ! i) l \<or>
         (block_body (job_lines ci job) i \<and> l = trim (job_lines ci job ! i)))) (runLines ci job)"
  using run_loop_executed [where pre = "[]" and block = None and ls = "job_lines ci job"]
  by (auto simp: list_all_iff runLines_def executed_line_def)

text \<open>
  Example coverage. The script exits 0 exactly when every package's template directory exists and
  holds a file with the package's extension, and some command its CI job runs contains the compiling
  command; its table then has one row per package.
\<close>

theorem examples_covered_iff:
  "examples_exit (examples_main ci dir) = 0 \<longleftrightarrow>
    list_all (\<lambda>p. \<exists>es. dir (rel_path p) = Some es \<and>
      list_ex (\<lambda>f. list_ex (\<lambda>e. endsWith f e) (ep_ext p)) (concat (map walk es)) \<and>
      list_ex (\<lambda>l. str_includes l (ep_command p)) (runLines ci (ep_name p))) PACKAGES"
proof -
  have ok: "(case check_package ci dir p of Inl q \<Rightarrow> [q] | Inr _ \<Rightarrow> []) = [] \<longleftrightarrow>
      (\<exists>es. dir (rel_path p) = Some es \<and>
        list_ex (\<lambda>f. list_ex (\<lambda>e. endsWith f e) (ep_ext p)) (concat (map walk es)) \<and>
        list_ex (\<lambda>l. str_includes l (ep_command p)) (runLines ci (ep_name p)))" for p
  proof (cases "dir (rel_path p)")
    case (Some es)
    have "templates p es \<noteq> [] \<longleftrightarrow> list_ex (\<lambda>f. list_ex (\<lambda>e. endsWith f e) (ep_ext p)) (concat (map walk es))"
      by (auto simp: templates_def filter_empty_conv list_ex_iff)
    then show ?thesis using Some by (auto simp: check_package_def Let_def)
  qed (simp add: check_package_def)
  show ?thesis
    unfolding examples_exit_def examples_main_def Let_def fst_conv
    by (simp add: concat_eq_Nil_conv ok list_all_iff) blast
qed

end
