(* ===== verification/Agents_Md.thy ===== *)
theory Agents_Md
  imports Docker_Test Traceability Encoding
begin

text \<open>
  \<open>scripts/check-agents-md.mjs\<close>: \<open>AGENTS.md\<close> still describes the repository. The script reads the CI
  workflow, the runtime matrix, the list of files \<open>git\<close> knows and the documents, collects problems,
  and with \<open>--write\<close> regenerates the command table between its two markers.

  The helpers \<open>ciJobs\<close>, \<open>cmp\<close> and \<open>declaredFloor\<close> repeat those of \<open>docker-test.mjs\<close> line by line, so
  they are the same functions here. The outside world is the record \<open>agents_world\<close>: what reading a file
  returns, what \<open>git ls-files\<close> printed, the entries of \<open>packages/\<close>, the parsed runtime matrix and the
  arguments. A problem keeps the data its message names.
\<close>

section \<open>Constants and helpers\<close>

definition MAX_LINES :: nat where "MAX_LINES = 210"

definition MAX_BYTES :: nat where "MAX_BYTES = 20000"

definition KNOWN_ABSENT :: "jsstring list" where
  "KNOWN_ABSENT = [js ''scripts/check-all.mjs'']"

definition agents_ciJobs :: "jsstring \<Rightarrow> jobs" where
  "agents_ciJobs txt = ciJobs txt"

definition WORKING_DIR_RE :: regex where \<comment> \<open>\<open>/^working-directory:\s*(\S+)\s*$/\<close>\<close>
  "WORKING_DIR_RE = RSeqs [RBol False, RLit (js ''working-directory:''), RSpaces,
     RGroup 1 (RPlus True (RChar (\<lambda>c. \<not> is_space c))), RSpaces, REol False]"

fun workingDirOf :: "jsstring list \<Rightarrow> jsstring option" where
  "workingDirOf [] = None"
| "workingDirOf (line # job) =
     (case exec WORKING_DIR_RE line of
        Some m \<Rightarrow> group m 1
      | None \<Rightarrow> workingDirOf job)"

definition agents_cmp :: "jsstring \<Rightarrow> jsstring \<Rightarrow> int" where
  "agents_cmp a b = docker_cmp a b"

definition agents_declaredFloor :: "runtime_matrix \<Rightarrow> jsstring \<Rightarrow> jsstring option" where
  "agents_declaredFloor matrix runtime = declaredFloor matrix runtime"

section \<open>The table of packages\<close>

datatype agents_step = Cmd jsstring | Shown jsstring jsstring \<comment> \<open>\<open>{anchor, show}\<close>\<close>

text \<open>\<open>normalise\<close>: the two fields of a step.\<close>

fun step_anchor :: "agents_step \<Rightarrow> jsstring" where
  "step_anchor (Cmd s) = s"
| "step_anchor (Shown a s) = a"

fun step_show :: "agents_step \<Rightarrow> jsstring" where
  "step_show (Cmd s) = s"
| "step_show (Shown a s) = s"

record agents_package =
  ag_key :: jsstring
  ag_label :: jsstring
  ag_runtime :: jsstring
  ag_dir :: jsstring
  ag_steps :: "agents_step list"

definition package_row :: "string \<Rightarrow> string \<Rightarrow> string \<Rightarrow> string \<Rightarrow> agents_step list \<Rightarrow> agents_package" where
  "package_row key label runtime dir steps =
     \<lparr> ag_key = js key, ag_label = js label, ag_runtime = js runtime, ag_dir = js dir, ag_steps = steps \<rparr>"

definition cmds :: "string list \<Rightarrow> agents_step list" where
  "cmds ss = map (\<lambda>s. Cmd (js s)) ss"

text \<open>\<open>ruby -Ilib "$f"\<close>, the anchor of Ruby's loop.\<close>

definition RUBY_ANCHOR :: jsstring where
  "RUBY_ANCHOR = js ''ruby -Ilib '' @ [34] @ js ''$f'' @ [34]"

definition AGENTS_PACKAGES :: "agents_package list" where
  "AGENTS_PACKAGES = [
     package_row ''typescript'' ''TypeScript'' ''node'' ''packages/typescript''
       (cmds [''npm ci'', ''npm run build'', ''npm test'']),
     package_row ''python'' ''Python'' ''python'' ''packages/python''
       (cmds [''pip install -e .'', ''pip install pytest'', ''pytest -q'']),
     package_row ''go'' ''Go'' ''go'' ''packages/go''
       (cmds [''go build ./...'', ''go vet ./...'', ''go test -race -count=1 ./...'']),
     package_row ''rust'' ''Rust'' ''rust'' ''packages/rust''
       (cmds [''cargo test'', ''cargo build --examples'', ''cargo clippy --all-targets -- -D warnings'']),
     package_row ''java'' ''Java'' ''java'' ''packages/java''
       (cmds [''mvn -B -ntp verify'']),
     package_row ''php'' ''PHP'' ''php'' ''*the repository root*''
       (cmds [''composer install --no-progress --no-interaction --prefer-dist'',
              ''vendor/bin/phpunit -c packages/php/phpunit.xml'']),
     package_row ''csharp'' ''.NET'' ''dotnet'' ''packages/csharp''
       (cmds [''dotnet restore'', ''dotnet build -c Release --no-restore'',
              ''dotnet test -c Release --no-build'']),
     package_row ''dart'' ''Dart'' ''dart'' ''packages/dart''
       (cmds [''dart pub get'', ''dart analyze --fatal-infos'', ''dart test'']),
     package_row ''ruby'' ''Ruby'' ''ruby'' ''packages/ruby''
       [Shown RUBY_ANCHOR (js ''for f in test/*_test.rb; do '' @ RUBY_ANCHOR @ js ''; done'')],
     package_row ''elixir'' ''Elixir'' ''elixir'' ''packages/elixir''
       (cmds [''mix deps.get'', ''mix test''])]"

section \<open>Floors\<close>

text \<open>The floor as displayed; for Elixir with the lowest OTP release.\<close>

definition otps :: "runtime_matrix \<Rightarrow> jsstring list" where
  "otps matrix = filter (\<lambda>v. v \<noteq> [])
     (List.map_filter (\<lambda>e. entry_prop e (js ''otp''))
       (case map_of matrix (js ''elixir'') of None \<Rightarrow> [] | Some es \<Rightarrow> es))"

definition floorOf :: "runtime_matrix \<Rightarrow> agents_package \<Rightarrow> jsstring option" where
  "floorOf matrix pkg =
     (case agents_declaredFloor matrix (ag_runtime pkg) of
        None \<Rightarrow> None
      | Some lowest \<Rightarrow>
          if lowest = [] then None
          else if ag_runtime pkg \<noteq> js ''elixir'' then Some lowest
          else if otps matrix \<noteq> [] then
            Some (lowest @ js '' / OTP '' @ hd (sort_by agents_cmp (otps matrix)))
          else Some lowest)"

datatype agents_problem =
    FloorUnusable jsstring jsstring
  | StrayFile jsstring
  | AgentsMissing
  | ClaudeMissing
  | ClaudeDiffers
  | TooManyLines nat
  | TooManyBytes nat
  | DirWithoutRow jsstring
  | RowWithoutDir jsstring
  | NoCiJob jsstring
  | CommandNotInCi jsstring jsstring
  | RunFromDiffers jsstring "jsstring option" "jsstring option"
  | NoAgentsBlock
  | AgentsStale
  | ScriptAbsent jsstring
  | ScriptNowExists jsstring
  | ContributingMissing
  | CorrectionOutlived jsstring
  | CorrectionDropped jsstring
  | UnknownNpmScript jsstring
  | NoRequirements
  | UndefinedRequirement jsstring
  | RangeStale jsstring jsstring
  | NoGateCount
  | GateCountWrong jsstring nat
  | GateWithoutNoun jsstring
  | GateNotNamed jsstring jsstring

definition floors :: "runtime_matrix \<Rightarrow> (jsstring \<times> jsstring) list" where
  "floors matrix = map (\<lambda>p. (ag_key p, case floorOf matrix p of None \<Rightarrow> js ''?'' | Some f \<Rightarrow> f)) AGENTS_PACKAGES"

definition agents_floor_problems :: "runtime_matrix \<Rightarrow> agents_problem list" where
  "agents_floor_problems matrix =
     concat (map (\<lambda>p. if floorOf matrix p = None then [FloorUnusable (ag_label p) (ag_runtime p)] else [])
       AGENTS_PACKAGES)"

section \<open>The generated block\<close>

definition COMMANDS_BEGIN :: jsstring where
  "COMMANDS_BEGIN = js ''<!-- BEGIN GENERATED: package-commands -->''"

definition COMMANDS_END :: jsstring where
  "COMMANDS_END = js ''<!-- END GENERATED: package-commands -->''"

text \<open>
  \<open>s.replace(r, t)\<close> with a string \<open>t\<close>: its \<open>$$\<close>, \<open>$&\<close>, \<open>$`\<close> and \<open>$'\<close> stand for a dollar, the match, the
  text before it and after it (GetSubstitution of ECMA-262, for a pattern without captures).
\<close>

fun get_substitution :: "jsstring \<Rightarrow> jsstring \<Rightarrow> jsstring \<Rightarrow> jsstring \<Rightarrow> jsstring" where
  "get_substitution pre matched post [] = []"
| "get_substitution pre matched post [c] = [c]"
| "get_substitution pre matched post (c # d # ts) =
     (if c = 36 \<and> d = 36 then 36 # get_substitution pre matched post ts
      else if c = 36 \<and> d = 38 then matched @ get_substitution pre matched post ts
      else if c = 36 \<and> d = 96 then pre @ get_substitution pre matched post ts
      else if c = 36 \<and> d = 39 then post @ get_substitution pre matched post ts
      else c # get_substitution pre matched post (d # ts))"

definition MATRIX_EXPR_RE :: regex where \<comment> \<open>\<open>/\$\{\{\s*matrix\.[\w-]+\s*\}\}/g\<close>\<close>
  "MATRIX_EXPR_RE = RSeqs [RLit (js ''${{''), RSpaces, RLit (js ''matrix.''),
     RPlus True (RChar (\<lambda>c. is_word_char c \<or> c = 45)), RSpaces, RLit (js ''}}'')]"

definition substitute :: "jsstring \<Rightarrow> jsstring \<Rightarrow> jsstring" where
  "substitute s lowest = replaceAll MATRIX_EXPR_RE
     (\<lambda>m. get_substitution (take (m_index m) s) (m_text m) (drop (m_index m + length (m_text m)) s) lowest) s"

definition agents_row :: "runtime_matrix \<Rightarrow> agents_package \<Rightarrow> jsstring" where
  "agents_row matrix p =
     (let lowest = the (map_of (floors matrix) (ag_key p));
          where_from = (if str_includes (ag_dir p) (js ''*'') then ag_dir p else js ''`'' @ ag_dir p @ js ''`'');
          cmd = join_with (js '' && '') (map (\<lambda>s. substitute (step_show s) lowest) (ag_steps p))
      in js ''| '' @ ag_label p @ js '' | '' @ where_from @ js '' | '' @ lowest @ js '' | `'' @ cmd @ js ''` |'')"

definition agents_note :: jsstring where
  "agents_note =
     js ''<sub>Floors come from `.github/runtime-matrix.json`; '' @
     js ''each row's directory and commands are asserted against the CI job of the same name in '' @
     js ''`.github/workflows/ci.yml` by `scripts/check-agents-md.mjs`. '' @
     js ''One row shows more than CI runs, so that the command works on one machine: Ruby's loop '' @
     [0x2014] @ js '' see below.</sub>''"

definition agents_table :: "runtime_matrix \<Rightarrow> jsstring" where
  "agents_table matrix = join_with [NL] (
     [COMMANDS_BEGIN, [], js ''| Package | Run from | Floor | Build and test |'', js ''|---|---|---|---|''] @
     map (agents_row matrix) AGENTS_PACKAGES @
     [[], agents_note, [], COMMANDS_END])"

section \<open>The world the script reads\<close>

record agents_world =
  aw_read :: "jsstring \<Rightarrow> jsstring option" \<comment> \<open>\<open>readFileSync\<close> below the root; \<open>None\<close> throws\<close>
  aw_git :: "jsstring option" \<comment> \<open>output of \<open>git ls-files -co --exclude-standard -- *AGENTS.md\<close>; \<open>None\<close> throws\<close>
  aw_packages :: "(jsstring \<times> bool) list option" \<comment> \<open>entries of \<open>packages/\<close>, \<open>True\<close> for a directory\<close>
  aw_matrix :: runtime_matrix
  aw_argv :: "jsstring list"

definition read_or_throw :: "agents_world \<Rightarrow> jsstring \<Rightarrow> js_exn + jsstring" where
  "read_or_throw w p = (case aw_read w p of None \<Rightarrow> Inl FileError | Some t \<Rightarrow> Inr t)"

section \<open>The checks\<close>

text \<open>1. There is one \<open>AGENTS.md\<close>, at the root.\<close>

definition found_files :: "jsstring \<Rightarrow> jsstring list" where
  "found_files out = filter (\<lambda>f. f \<noteq> []) (map trim (lines out))"

definition AGENTS :: jsstring where "AGENTS = js ''AGENTS.md''"

definition closed_set_problems :: "jsstring list \<Rightarrow> agents_problem list" where
  "closed_set_problems found =
     map StrayFile (filter (\<lambda>f. f \<noteq> AGENTS) found) @
     (if AGENTS \<in> set found then [] else [AgentsMissing])"

text \<open>2. \<open>CLAUDE.md\<close> is the import and nothing else.\<close>

definition WANT_CLAUDE :: jsstring where
  "WANT_CLAUDE = js ''@AGENTS.md'' @ [NL]"

definition claude_problems :: "agents_world \<Rightarrow> agents_problem list" where
  "claude_problems w =
     (case aw_read w (js ''CLAUDE.md'') of
        None \<Rightarrow> [ClaudeMissing]
      | Some t \<Rightarrow> if t \<noteq> WANT_CLAUDE then [ClaudeDiffers] else [])"

text \<open>3. Size.\<close>

definition lineCount :: "jsstring \<Rightarrow> nat" where
  "lineCount txt = length (lines (replaceFirst (RSeqs [RLit [NL], REol False]) (\<lambda>_. []) txt))"

definition size_problems :: "jsstring \<Rightarrow> agents_problem list" where
  "size_problems txt =
     (if lineCount txt > MAX_LINES then [TooManyLines (lineCount txt)] else []) @
     (if byteLength txt > MAX_BYTES then [TooManyBytes (byteLength txt)] else [])"

text \<open>4. A row per directory below \<open>packages/\<close>, and a directory per row.\<close>

definition package_dirs :: "(jsstring \<times> bool) list \<Rightarrow> jsstring list" where
  "package_dirs entries = sort_by byCodeUnit (map fst (filter snd entries))"

definition agents_row_problems :: "jsstring list \<Rightarrow> agents_problem list" where
  "agents_row_problems dirs =
     (let keys = map ag_key AGENTS_PACKAGES in
      map DirWithoutRow (filter (\<lambda>d. d \<notin> set keys) dirs) @
      map RowWithoutDir (filter (\<lambda>k. k \<notin> set dirs) keys))"

text \<open>5. Every command is in a line of the CI job of the same name; 5b. so is the directory.\<close>

definition step_in_job :: "jsstring list \<Rightarrow> agents_step \<Rightarrow> bool" where
  "step_in_job job s = list_ex (\<lambda>line. str_includes line (step_anchor s)) job"

definition wantDir :: "agents_package \<Rightarrow> jsstring option" where
  "wantDir pkg = (if startsWith (ag_dir pkg) (js ''packages/'') then Some (ag_dir pkg) else None)"

definition command_problems :: "jobs \<Rightarrow> agents_package \<Rightarrow> agents_problem list" where
  "command_problems jobs pkg =
     (case map_of jobs (ag_key pkg) of
        None \<Rightarrow> [NoCiJob (ag_key pkg)]
      | Some job \<Rightarrow>
          map (\<lambda>s. CommandNotInCi (step_anchor s) (ag_key pkg))
            (filter (\<lambda>s. \<not> step_in_job job s) (ag_steps pkg)) @
          (if wantDir pkg \<noteq> workingDirOf job
           then [RunFromDiffers (ag_label pkg) (wantDir pkg) (workingDirOf job)] else []))"

definition matched :: "jobs \<Rightarrow> nat" where
  "matched jobs = sum_list (map (\<lambda>pkg. case map_of jobs (ag_key pkg) of None \<Rightarrow> 0
     | Some job \<Rightarrow> length (filter (step_in_job job) (ag_steps pkg))) AGENTS_PACKAGES)"

text \<open>7. The generated block: the problems, and the new text when it is rewritten.\<close>

definition block_problems :: "bool \<Rightarrow> jsstring \<Rightarrow> jsstring \<Rightarrow> agents_problem list \<times> jsstring option" where
  "block_problems write wanted txt =
     (case (indexOf txt COMMANDS_BEGIN, indexOf txt COMMANDS_END) of
        (Some start, Some end_at) \<Rightarrow>
          let stop = end_at + length COMMANDS_END in
          if slice start stop txt \<noteq> wanted then
            if write then ([], Some (take start txt @ wanted @ drop stop txt))
            else ([AgentsStale], None)
          else ([], None)
      | _ \<Rightarrow> ([NoAgentsBlock], None))"

text \<open>The document without the block.\<close>

definition prose_of :: "jsstring \<Rightarrow> jsstring" where
  "prose_of txt =
     (case (indexOf txt COMMANDS_BEGIN, indexOf txt COMMANDS_END) of
        (Some s, Some e) \<Rightarrow> take s txt @ drop (e + length COMMANDS_END) txt
      | _ \<Rightarrow> txt)"

text \<open>8. The scripts the prose names exist, but for the one named because it does not.\<close>

definition SCRIPT_PATH_RE :: regex where \<comment> \<open>\<open>/scripts\/[\w.-]+\.mjs/g\<close>\<close>
  "SCRIPT_PATH_RE = RSeqs [RLit (js ''scripts/''),
     RPlus True (RChar (\<lambda>c. is_word_char c \<or> c = 46 \<or> c = 45)), RLit (js ''.mjs'')]"

definition mentioned :: "jsstring \<Rightarrow> jsstring list" where
  "mentioned prose = distinct_values (map m_text (matchAll SCRIPT_PATH_RE prose))"

definition script_problems :: "agents_world \<Rightarrow> jsstring \<Rightarrow> agents_problem list" where
  "script_problems w prose = concat (map (\<lambda>p.
     let absent = p \<in> set KNOWN_ABSENT; exists = aw_read w p \<noteq> None in
     (if \<not> absent \<and> \<not> exists then [ScriptAbsent p] else []) @
     (if absent \<and> exists then [ScriptNowExists p] else [])) (mentioned prose))"

text \<open>9. A correction of \<open>CONTRIBUTING.md\<close> stays exactly as long as the error.\<close>

definition COUPLED :: "(jsstring \<times> jsstring) list" where \<comment> \<open>\<open>inAgents\<close>, \<open>inContributing\<close>\<close>
  "COUPLED = [(js ''check-all.mjs'', js ''check-all.mjs''), (js ''not nine'', js ''nine version fields'')]"

definition correction_problems :: "agents_world \<Rightarrow> jsstring \<Rightarrow> agents_problem list" where
  "correction_problems w prose =
     (case aw_read w (js ''CONTRIBUTING.md'') of
        None \<Rightarrow> [ContributingMissing]
      | Some contributing \<Rightarrow> concat (map (\<lambda>(inAgents, inContributing).
          let corrected = str_includes prose inAgents; stillWrong = str_includes contributing inContributing in
          (if corrected \<and> \<not> stillWrong then [CorrectionOutlived inAgents] else []) @
          (if \<not> corrected \<and> stillWrong then [CorrectionDropped inAgents] else [])) COUPLED))"

text \<open>10. The npm scripts the prose tells to run exist. \<open>Object.keys\<close> of \<open>pkgJson.scripts ?? {}\<close>.\<close>

fun object_keys :: "json option \<Rightarrow> jsstring list" where
  "object_keys (Some (JObj ps)) = map fst ps"
| "object_keys (Some (JArr vs)) = map decimal [0..<length vs]"
| "object_keys (Some (JStr s)) = map decimal [0..<length s]"
| "object_keys _ = []"

definition npm_scripts :: "json \<Rightarrow> js_exn + jsstring list" where
  "npm_scripts pkgJson =
     (if pkgJson = JNull then Inl TypeError
      else Inr (object_keys (non_nullish (get pkgJson (js ''scripts'')))))"

definition NPM_RUN_RE :: regex where \<comment> \<open>\<open>/npm run ([\w:-]+)/g\<close>\<close>
  "NPM_RUN_RE = RSeq (RLit (js ''npm run ''))
     (RGroup 1 (RPlus True (RChar (\<lambda>c. is_word_char c \<or> c = 58 \<or> c = 45))))"

definition npm_problems :: "jsstring list \<Rightarrow> jsstring \<Rightarrow> agents_problem list" where
  "npm_problems scripts prose =
     map UnknownNpmScript (filter (\<lambda>s. s \<notin> set scripts) (map (\<lambda>m. the (group m 1)) (matchAll NPM_RUN_RE prose)))"

text \<open>11. The requirements the prose cites exist, and its range ends at the last one.\<close>

definition CITED_RE :: regex where \<comment> \<open>\<open>/\[(N-\d+)\]/g\<close>\<close>
  "CITED_RE = RSeqs [RLit (js ''[''), RGroup 1 (RSeq (RLit (js ''N-'')) (RPlus True (RChar is_digit))),
     RLit (js '']'')]"

definition RANGE_RE :: regex where \<comment> \<open>\<open>/\[N-(\d+)\]\.\.\[N-(\d+)\]/\<close>\<close>
  "RANGE_RE = RSeqs [RLit (js ''[N-''), RGroup 1 (RPlus True (RChar is_digit)), RLit (js '']..[N-''),
     RGroup 2 (RPlus True (RChar is_digit)), RLit (js '']'')]"

text \<open>\<open>Math.max\<close>, and \<open>===\<close> on numbers.\<close>

fun float_max :: "js_float \<Rightarrow> js_float \<Rightarrow> js_float" where
  "float_max NaN _ = NaN"
| "float_max _ NaN = NaN"
| "float_max (Infinite n) y = (if n then y else Infinite False)"
| "float_max x (Infinite n) = (if n then x else Infinite False)"
| "float_max (Finite p) (Finite q) = Finite (max p q)"

definition float_eq :: "js_float \<Rightarrow> js_float \<Rightarrow> bool" where
  "float_eq x y \<longleftrightarrow> x \<noteq> NaN \<and> x = y"

definition highest :: "jsstring list \<Rightarrow> js_float" where
  "highest ids = foldr float_max (map (\<lambda>i. Number (drop 2 i)) ids) (Infinite True)"

definition requirement_problems :: "jsstring \<Rightarrow> jsstring \<Rightarrow> agents_problem list" where
  "requirement_problems spec prose =
     (let ids = defined_reqs spec in
      if ids = [] then [NoRequirements]
      else
        map UndefinedRequirement
          (filter (\<lambda>r. r \<notin> set ids) (map (\<lambda>m. the (group m 1)) (matchAll CITED_RE prose))) @
        (case exec RANGE_RE prose of
           None \<Rightarrow> []
         | Some m \<Rightarrow>
             if \<not> float_eq (Number (the (group m 2))) (highest ids)
             then [RangeStale (the (group m 1)) (the (group m 2))] else []))"

text \<open>The gates \<open>npm run check\<close> chains: \<open>pkgJson.scripts?.check ?? ""\<close>, on which \<open>matchAll\<close> needs a string.\<close>

definition check_chain :: "json \<Rightarrow> js_exn + jsstring" where
  "check_chain pkgJson =
     (case non_nullish (get_opt (non_nullish (get pkgJson (js ''scripts''))) (js ''check'')) of
        None \<Rightarrow> Inr []
      | Some (JStr s) \<Rightarrow> Inr s
      | Some _ \<Rightarrow> Inl TypeError)"

definition WORDS :: "(jsstring \<times> nat) list" where
  "WORDS = [(js ''one'', 1), (js ''two'', 2), (js ''three'', 3), (js ''four'', 4), (js ''five'', 5),
     (js ''six'', 6), (js ''seven'', 7), (js ''eight'', 8), (js ''nine'', 9), (js ''ten'', 10),
     (js ''eleven'', 11), (js ''twelve'', 12), (js ''thirteen'', 13), (js ''fourteen'', 14), (js ''fifteen'', 15)]"

definition CHAINS_RE :: regex where \<comment> \<open>\<open>/That chains (\w+) gates/\<close>\<close>
  "CHAINS_RE = RSeqs [RLit (js ''That chains ''), RGroup 1 (RPlus True (RChar is_word_char)), RLit (js '' gates'')]"

text \<open>\<open>(?:^|&&)\s*node\s\<close>, and the same with the name of the script.\<close>

definition NODE_RE :: regex where
  "NODE_RE = RSeqs [RAlt (RBol False) (RLit (js ''&&'')), RSpaces, RLit (js ''node''), RChar is_space]"

definition NODE_SCRIPT_RE :: regex where \<comment> \<open>\<open>/(?:^|&&)\s*node\s+([\w.-]+\.mjs)/g\<close>\<close>
  "NODE_SCRIPT_RE = RSeqs [RAlt (RBol False) (RLit (js ''&&'')), RSpaces, RLit (js ''node''),
     RPlus True (RChar is_space),
     RGroup 1 (RSeq (RPlus True (RChar (\<lambda>c. is_word_char c \<or> c = 46 \<or> c = 45))) (RLit (js ''.mjs'')))]"

text \<open>\<open>toLowerCase\<close> of word characters.\<close>

definition lower_word :: "jsstring \<Rightarrow> jsstring" where
  "lower_word s = map (\<lambda>c. if 65 \<le> c \<and> c \<le> 90 then c + 32 else c) s"

definition word_number :: "jsstring \<Rightarrow> js_float" where
  "word_number s = (case map_of WORDS (lower_word s) of Some n \<Rightarrow> Finite (of_nat n) | None \<Rightarrow> Number s)"

definition gateCount :: "jsstring \<Rightarrow> nat" where
  "gateCount chain = length (matchAll NODE_RE chain)"

definition gate_count_problems :: "jsstring \<Rightarrow> jsstring \<Rightarrow> agents_problem list" where
  "gate_count_problems chain prose =
     (case match_group CHAINS_RE prose 1 of
        None \<Rightarrow> [NoGateCount]
      | Some claimed \<Rightarrow>
          if \<not> float_eq (word_number claimed) (Finite (of_nat (gateCount chain)))
          then [GateCountWrong claimed (gateCount chain)] else [])"

text \<open>11b. The sentence names every gate.\<close>

definition GATE_NOUNS :: "(jsstring \<times> jsstring) list" where
  "GATE_NOUNS = [
     (js ''version.mjs'', js ''versions''),
     (js ''validate-vectors.mjs'', js ''vectors''),
     (js ''check-licenses.mjs'', js ''licences''),
     (js ''check-skills.mjs'', js ''skills''),
     (js ''check-marketplace.mjs'', js ''marketplace''),
     (js ''check-runtime-matrix.mjs'', js ''runtime matrix''),
     (js ''check-agents-md.mjs'', js ''this file''),
     (js ''check-links.mjs'', js ''links''),
     (js ''check-actions-pinned.mjs'', js ''pinned actions''),
     (js ''check-examples.mjs'', js ''examples''),
     (js ''docker-test.mjs'', js ''Docker harness'')]"

definition SENTENCE_RE :: regex where \<comment> \<open>\<open>/That chains \w+ gates[\s\S]*?(?:\n\n|$)/\<close>\<close>
  "SENTENCE_RE = RSeqs [RLit (js ''That chains ''), RPlus True (RChar is_word_char), RLit (js '' gates''),
     RStar False RAny, RAlt (RLit [NL, NL]) (REol False)]"

definition sentence :: "jsstring \<Rightarrow> jsstring" where
  "sentence prose = replaceAll (RPlus True (RChar is_space)) (\<lambda>_. [32])
     (case exec SENTENCE_RE prose of None \<Rightarrow> [] | Some m \<Rightarrow> m_text m)"

definition gates_run :: "jsstring \<Rightarrow> jsstring list" where
  "gates_run chain = map (\<lambda>m. the (group m 1)) (matchAll NODE_SCRIPT_RE chain)"

definition gate_name_problems :: "jsstring \<Rightarrow> jsstring \<Rightarrow> agents_problem list" where
  "gate_name_problems chain prose = concat (map (\<lambda>g.
     case map_of GATE_NOUNS g of
       None \<Rightarrow> [GateWithoutNoun g]
     | Some noun \<Rightarrow> if \<not> str_includes (sentence prose) noun then [GateNotNamed noun g] else []) (gates_run chain))"

text \<open>Lines 548 to 661: the checks that read \<open>scripts/package.json\<close> and the specification.\<close>

definition manifest_problems :: "agents_world \<Rightarrow> jsstring \<Rightarrow> js_exn + agents_problem list" where
  "manifest_problems w prose =
     and_then (read_or_throw w (js ''scripts/package.json'')) (\<lambda>txt.
     and_then (case json_parse txt of None \<Rightarrow> Inl SyntaxError | Some j \<Rightarrow> Inr j) (\<lambda>pkgJson.
     and_then (npm_scripts pkgJson) (\<lambda>scripts.
     and_then (read_or_throw w (js ''SPECIFICATION.md'')) (\<lambda>spec.
     and_then (check_chain pkgJson) (\<lambda>chain.
       Inr (npm_problems scripts prose @ requirement_problems spec prose @
            gate_count_problems chain prose @ gate_name_problems chain prose))))))"

section \<open>The script\<close>

datatype agents_outcome =
    AgentsThrew js_exn | GitFailed | AgentsFailed "agents_problem list" | AgentsOk nat nat nat nat

text \<open>
  Lines 362 to 661, with a text to check: the problems, and the new text of \<open>AGENTS.md\<close>. The file is
  written before the remaining checks read theirs, so it is written also when one of them throws.
\<close>

definition text_problems ::
  "agents_world \<Rightarrow> jobs \<Rightarrow> jsstring \<Rightarrow> (js_exn + agents_problem list) \<times> jsstring option" where
  "text_problems w jobs txt =
     (case aw_packages w of
        None \<Rightarrow> (Inl FileError, None)
      | Some entries \<Rightarrow>
          let (block, written) = block_problems (js ''--write'' \<in> set (aw_argv w)) (agents_table (aw_matrix w)) txt;
              prose = prose_of (case written of None \<Rightarrow> txt | Some t \<Rightarrow> t)
          in (map_sum id (\<lambda>ps.
                size_problems txt @ agents_row_problems (package_dirs entries) @
                concat (map (command_problems jobs) AGENTS_PACKAGES) @ block @
                script_problems w prose @ correction_problems w prose @ ps)
              (manifest_problems w prose), written))"

definition agents_main :: "agents_world \<Rightarrow> agents_outcome \<times> jsstring option" where
  "agents_main w =
     (case read_or_throw w (js ''.github/workflows/ci.yml'') of
        Inl e \<Rightarrow> (AgentsThrew e, None)
      | Inr ci \<Rightarrow>
          let jobs = agents_ciJobs ci; floor_ps = agents_floor_problems (aw_matrix w) in
          case aw_git w of
            None \<Rightarrow> (GitFailed, None)
          | Some out \<Rightarrow>
              let found = found_files out;
                  first = floor_ps @ closed_set_problems found;
                  claude = claude_problems w
              in if AGENTS \<notin> set found then (AgentsFailed (first @ claude), None)
                 else case read_or_throw w AGENTS of
                   Inl e \<Rightarrow> (AgentsThrew e, None)
                 | Inr txt \<Rightarrow>
                     (case text_problems w jobs txt of
                        (Inl e, written) \<Rightarrow> (AgentsThrew e, written)
                      | (Inr ps, written) \<Rightarrow>
                          (if first @ claude @ ps = []
                           then AgentsOk (lineCount txt) (byteLength txt) (length AGENTS_PACKAGES) (matched jobs)
                           else AgentsFailed (first @ claude @ ps), written)))"

fun agents_exit :: "agents_outcome \<Rightarrow> int" where
  "agents_exit (AgentsThrew _) = 1"
| "agents_exit GitFailed = 2"
| "agents_exit (AgentsFailed _) = 1"
| "agents_exit (AgentsOk _ _ _ _) = 0"

end
