(* ===== verification/Agents_Check.thy ===== *)
theory Agents_Check
  imports Agents_Md Generated_Block
begin

text \<open>
  What \<open>scripts/check-agents-md.mjs\<close> guarantees: it passes exactly when \<open>AGENTS.md\<close> describes the
  repository (\<open>describes_repository\<close>), and after \<open>--write\<close> the command table is up to date while the
  prose around it is the same.
\<close>

section \<open>Rewriting the table\<close>

lemma set_replace_between: "set (replace_between f i s ms) \<subseteq> set s \<union> (\<Union>m \<in> set ms. set (f m))"
proof (induction ms arbitrary: i s)
  case (Cons m ms)
  let ?j = "m_index m + length (m_text m)"
  have "set (replace_between f ?j (drop (?j - i) s) ms) \<subseteq> set s \<union> (\<Union>m \<in> set ms. set (f m))"
    using Cons.IH [of ?j "drop (?j - i) s"] set_drop_subset [of "?j - i" s] by blast
  then show ?case using set_take_subset [of "m_index m - i" s] by auto
qed simp

lemma set_get_substitution: "set (get_substitution a m b t) \<subseteq> set a \<union> set m \<union> set b \<union> set t"
  by (induction a m b t rule: get_substitution.induct) auto

lemma set_substitute: "set (substitute s t) \<subseteq> set s \<union> set t"
proof -
  have "set (get_substitution (take (m_index m) s) (m_text m) (drop k s) t) \<subseteq> set s \<union> set t"
    if "m \<in> set (matchAll MATRIX_EXPR_RE s)" for m k
    using set_get_substitution [of "take (m_index m) s" "m_text m" "drop k s" t] set_matchAll [OF that]
      set_take_subset [of "m_index m" s] set_drop_subset [of k s] by blast
  then show ?thesis unfolding substitute_def replaceAll_def
    by (intro order_trans [OF set_replace_between]) blast
qed

text \<open>Floors without \<open><\<close> cannot form a marker, so the end marker of the table is its last line.\<close>

definition floors_clean :: "runtime_matrix \<Rightarrow> bool" where
  "floors_clean matrix \<longleftrightarrow> list_all (\<lambda>(_, f). 60 \<notin> set f) (floors matrix)"

lemma packages_clean:
  "list_all (\<lambda>p. 60 \<notin> set (ag_label p) \<and> 60 \<notin> set (ag_dir p) \<and>
     list_all (\<lambda>s. 60 \<notin> set (step_show s)) (ag_steps p)) AGENTS_PACKAGES"
  by (simp add: AGENTS_PACKAGES_def package_row_def cmds_def RUBY_ANCHOR_def js_def)

lemma agents_row_clean:
  assumes "floors_clean matrix" "p \<in> set AGENTS_PACKAGES"
  shows "60 \<notin> set (agents_row matrix p)"
proof -
  have "map fst (floors matrix) = map ag_key AGENTS_PACKAGES" by (simp add: floors_def comp_def)
  then have "ag_key p \<in> fst ` set (floors matrix)" using assms(2) by (metis imageI set_map)
  then obtain f where f: "map_of (floors matrix) (ag_key p) = Some f" by (metis map_of_eq_None_iff not_None_eq)
  then have "60 \<notin> set f" using assms(1) map_of_SomeD [OF f] by (auto simp: floors_clean_def list_all_iff)
  moreover have "60 \<notin> set (join_with (js '' && '') (map (\<lambda>s. substitute (step_show s) f) (ag_steps p)))"
  proof -
    have "60 \<notin> set (js '' && '')" by (simp add: js_def)
    moreover have "60 \<notin> set (substitute (step_show s) f)" if "s \<in> set (ag_steps p)" for s
      using packages_clean assms(2) that \<open>60 \<notin> set f\<close> set_substitute [of "step_show s" f]
      by (auto simp: list_all_iff)
    ultimately show ?thesis
      using set_join_with [of "js '' && ''" "map (\<lambda>s. substitute (step_show s) f) (ag_steps p)"] by auto
  qed
  moreover have "60 \<notin> set (ag_label p)" "60 \<notin> set (ag_dir p)"
    using packages_clean assms(2) by (auto simp: list_all_iff)
  ultimately show ?thesis by (simp add: agents_row_def f Let_def js_def)
qed

definition agents_body :: "runtime_matrix \<Rightarrow> jsstring" where
  "agents_body matrix = join_with [NL] (
     [drop 1 COMMANDS_BEGIN, [], js ''| Package | Run from | Floor | Build and test |'', js ''|---|---|---|---|''] @
     map (agents_row matrix) AGENTS_PACKAGES @ [[]]) @ [NL]"

definition agents_note_body :: jsstring where
  "agents_note_body = take (length agents_note - 7) (drop 1 agents_note)"

lemma agents_note_layout:
  "agents_note = 60 # agents_note_body @ 60 # js ''/sub>''" "60 \<notin> set agents_note_body"
  by (simp_all add: agents_note_body_def agents_note_def js_def)

lemma agents_table_layout:
  "agents_table matrix =
     60 # agents_body matrix @ 60 # agents_note_body @ 60 # (js ''/sub>'' @ [NL, NL]) @ COMMANDS_END"
proof -
  have mark: "COMMANDS_BEGIN = 60 # drop 1 COMMANDS_BEGIN" by (simp add: COMMANDS_BEGIN_def js_def)
  let ?head = "[[], js ''| Package | Run from | Floor | Build and test |'', js ''|---|---|---|---|''] @
     map (agents_row matrix) AGENTS_PACKAGES @ [[]]"
  have "agents_table matrix = join_with [NL] ((COMMANDS_BEGIN # ?head) @ [agents_note, [], COMMANDS_END])"
    by (simp add: agents_table_def)
  also have "\<dots> = join_with [NL] (COMMANDS_BEGIN # ?head) @ [NL] @ agents_note @ [NL, NL] @ COMMANDS_END"
    by (subst join_with_append) simp_all
  also have "join_with [NL] (COMMANDS_BEGIN # ?head) = 60 # join_with [NL] (drop 1 COMMANDS_BEGIN # ?head)"
    by (subst mark) (simp add: join_with_Cons)
  finally show ?thesis by (simp add: agents_body_def agents_note_layout(1))
qed

lemma agents_body_clean:
  assumes "floors_clean matrix"
  shows "60 \<notin> set (agents_body matrix)"
proof -
  have "60 \<notin> set (drop 1 COMMANDS_BEGIN)" "60 \<notin> set (js ''| Package | Run from | Floor | Build and test |'')"
    "60 \<notin> set (js ''|---|---|---|---|'')"
    by (simp_all add: COMMANDS_BEGIN_def js_def)
  then show ?thesis using agents_row_clean [OF assms]
      set_join_with [of "[NL]" "[drop 1 COMMANDS_BEGIN, [], js ''| Package | Run from | Floor | Build and test |'',
        js ''|---|---|---|---|''] @ map (agents_row matrix) AGENTS_PACKAGES @ [[]]"]
    by (auto simp: agents_body_def)
qed

lemma not_COMMANDS_END:
  "startsWith (60 # 115 # s) COMMANDS_END = False" "startsWith (60 # 47 # s) COMMANDS_END = False"
  "startsWith (60 # 33 # 45 # 45 # 32 # 66 # s) COMMANDS_END = False"
  by (simp_all add: COMMANDS_END_def js_def startsWith_def)

interpretation commands_block: generated_block COMMANDS_BEGIN COMMANDS_END agents_table floors_clean
proof
  show "length COMMANDS_END \<le> length COMMANDS_BEGIN" by (simp add: COMMANDS_BEGIN_def COMMANDS_END_def js_def)
  show "startsWith (agents_table matrix) COMMANDS_BEGIN" for matrix
    by (simp add: agents_table_def join_with_Cons)
  fix matrix
  assume clean: "floors_clean matrix"
  show "indexOf (agents_table matrix) COMMANDS_END =
      Some (length (agents_table matrix) - length COMMANDS_END)"
  proof (rule indexOf_last)
    show "COMMANDS_END = 60 # drop 1 COMMANDS_END" by (simp add: COMMANDS_END_def js_def)
    show "60 \<notin> set (agents_body matrix)" by (rule agents_body_clean [OF clean])
    show "60 \<notin> set agents_note_body" by (rule agents_note_layout(2))
    show "60 \<notin> set (js ''/sub>'' @ [NL, NL])" by (simp add: js_def)
    show "\<not> startsWith (60 # agents_body matrix @ z) COMMANDS_END" for z
      using not_COMMANDS_END(3) by (simp add: agents_body_def COMMANDS_BEGIN_def js_def join_with_Cons)
    show "\<not> startsWith (60 # agents_note_body @ z) COMMANDS_END" for z
    proof -
      obtain n where n: "agents_note_body = 115 # n" by (simp add: agents_note_body_def agents_note_def js_def)
      show ?thesis unfolding n append_Cons not_COMMANDS_END by simp
    qed
    show "\<not> startsWith (60 # (js ''/sub>'' @ [NL, NL]) @ z) COMMANDS_END" for z
      using not_COMMANDS_END(2) by (simp add: js_def)
  qed (rule agents_table_layout)
qed

text \<open>
  \<^bold>\<open>C34.\<close> Regenerating the command table. When \<open>AGENTS.md\<close> has its markers in order and \<open>--write\<close>
  rewrites it, the text before and after the block is kept, the block is up to date for every later
  run over the same matrix, and the prose that the other checks read is the same as before.
\<close>

theorem agents_write_converges:
  assumes clean: "floors_clean matrix"
    and i: "indexOf t COMMANDS_BEGIN = Some i" and j: "indexOf t COMMANDS_END = Some j" and ij: "i \<le> j"
    and w: "block_problems True (agents_table matrix) t = ([], Some t')"
  shows "t' = take i t @ agents_table matrix @ drop (j + length COMMANDS_END) t \<and>
    block_problems write (agents_table matrix) t' = ([], None) \<and> prose_of t' = prose_of t"
proof -
  have t': "t' = take i t @ agents_table matrix @ drop (j + length COMMANDS_END) t"
    using w i j by (auto simp: block_problems_def Let_def split: if_splits)
  note found = commands_block.splice_found [OF i j ij clean t']
  have "i \<le> length t" using i by (simp add: indexOf_Some_iff)
  then have "take i t' = take i t" by (simp add: t')
  then show ?thesis
    using found i j t' by (simp add: block_problems_def prose_of_def)
qed

definition example_agents :: jsstring where
  "example_agents = js ''# Agents'' @ [NL] @ COMMANDS_BEGIN @ [NL] @ COMMANDS_END @ [NL]"

theorem agents_write_converges_witness:
  "\<exists>t'. block_problems True (agents_table []) example_agents = ([], Some t') \<and>
     block_problems False (agents_table []) t' = ([], None) \<and> prose_of t' = prose_of example_agents"
proof -
  have b: "indexOf example_agents COMMANDS_BEGIN = Some 9" and e: "indexOf example_agents COMMANDS_END = Some 52"
    by (simp_all add: example_agents_def COMMANDS_BEGIN_def COMMANDS_END_def js_def startsWith_def)
  have clean: "floors_clean []"
    by (simp add: floors_clean_def floors_def floorOf_def agents_declaredFloor_def declaredFloor_def js_def list_all_iff)
  have "length (slice 9 (52 + length COMMANDS_END) example_agents) = 83"
    by (simp add: slice_def example_agents_def COMMANDS_BEGIN_def COMMANDS_END_def js_def)
  moreover have "length (agents_table []) > 83"
    by (simp add: agents_table_def join_with_Cons COMMANDS_BEGIN_def COMMANDS_END_def agents_note_def js_def)
  ultimately have "slice 9 (52 + length COMMANDS_END) example_agents \<noteq> agents_table []" by auto
  with b e obtain t' where t': "block_problems True (agents_table []) example_agents = ([], Some t')"
    by (simp add: block_problems_def)
  from agents_write_converges [OF clean b e _ t', of False] t' show ?thesis by auto
qed

section \<open>When the script passes\<close>

text \<open>The job of a package runs its commands, from its directory.\<close>

definition ci_runs :: "jobs \<Rightarrow> agents_package \<Rightarrow> bool" where
  "ci_runs jobs pkg \<longleftrightarrow> (\<exists>job. map_of jobs (ag_key pkg) = Some job \<and>
     (\<forall>s \<in> set (ag_steps pkg). \<exists>line \<in> set job. \<exists>u v. line = u @ step_anchor s @ v) \<and>
     workingDirOf job = wantDir pkg)"

text \<open>The prose is true of the world: scripts, corrections, npm scripts, requirements, gates.\<close>

definition requirements_cited :: "jsstring \<Rightarrow> jsstring \<Rightarrow> bool" where
  "requirements_cited spec prose \<longleftrightarrow> defined_reqs spec \<noteq> [] \<and>
     (\<forall>m \<in> set (matchAll CITED_RE prose). the (group m 1) \<in> set (defined_reqs spec)) \<and>
     (\<forall>m. exec RANGE_RE prose = Some m \<longrightarrow>
        float_eq (Number (the (group m 2))) (highest (defined_reqs spec)))"

definition gates_described :: "jsstring \<Rightarrow> jsstring \<Rightarrow> bool" where
  "gates_described chain prose \<longleftrightarrow>
     (\<exists>claimed. match_group CHAINS_RE prose 1 = Some claimed \<and>
        word_number claimed = Finite (of_nat (gateCount chain))) \<and>
     (\<forall>g \<in> set (gates_run chain). \<exists>noun u v. map_of GATE_NOUNS g = Some noun \<and> sentence prose = u @ noun @ v)"

definition prose_true :: "agents_world \<Rightarrow> jsstring \<Rightarrow> bool" where
  "prose_true w prose \<longleftrightarrow>
     (\<forall>p \<in> set (mentioned prose). aw_read w p = None \<longleftrightarrow> p \<in> set KNOWN_ABSENT) \<and>
     (\<exists>contributing. aw_read w (js ''CONTRIBUTING.md'') = Some contributing \<and>
        (\<forall>(a, c) \<in> set COUPLED. str_includes prose a \<longleftrightarrow> str_includes contributing c)) \<and>
     (\<exists>txt pkg scripts spec chain. aw_read w (js ''scripts/package.json'') = Some txt \<and>
        json_parse txt = Some pkg \<and> npm_scripts pkg = Inr scripts \<and> check_chain pkg = Inr chain \<and>
        aw_read w (js ''SPECIFICATION.md'') = Some spec \<and>
        (\<forall>m \<in> set (matchAll NPM_RUN_RE prose). the (group m 1) \<in> set scripts) \<and>
        requirements_cited spec prose \<and> gates_described chain prose)"

text \<open>The block is up to date, or it is rewritten: \<open>u\<close> is the text whose prose is checked.\<close>

definition block_settled :: "bool \<Rightarrow> jsstring \<Rightarrow> jsstring \<Rightarrow> jsstring \<Rightarrow> bool" where
  "block_settled write wanted t u \<longleftrightarrow>
     (\<exists>i j. indexOf t COMMANDS_BEGIN = Some i \<and> indexOf t COMMANDS_END = Some j \<and>
        (if slice i (j + length COMMANDS_END) t = wanted then u = t
         else write \<and> u = take i t @ wanted @ drop (j + length COMMANDS_END) t))"

definition describes_repository :: "agents_world \<Rightarrow> bool" where
  "describes_repository w \<longleftrightarrow> (\<exists>ci out txt entries u.
     aw_read w (js ''.github/workflows/ci.yml'') = Some ci \<and>
     aw_git w = Some out \<and> set (found_files out) = {AGENTS} \<and> aw_read w AGENTS = Some txt \<and>
     aw_read w (js ''CLAUDE.md'') = Some WANT_CLAUDE \<and>
     (\<forall>p \<in> set AGENTS_PACKAGES. floorOf (aw_matrix w) p \<noteq> None) \<and>
     lineCount txt \<le> MAX_LINES \<and> byteLength txt \<le> MAX_BYTES \<and>
     aw_packages w = Some entries \<and> {d. (d, True) \<in> set entries} = ag_key ` set AGENTS_PACKAGES \<and>
     (\<forall>p \<in> set AGENTS_PACKAGES. ci_runs (agents_ciJobs ci) p) \<and>
     block_settled (js ''--write'' \<in> set (aw_argv w)) (agents_table (aw_matrix w)) txt u \<and>
     prose_true w (prose_of u))"

lemma if_Nil_iff: "(if b then [x] else []) = [] \<longleftrightarrow> \<not> b" by simp

lemma parity_Nil_iff: "command_problems jobs p = [] \<longleftrightarrow> ci_runs jobs p"
proof (cases "map_of jobs (ag_key p)")
  case (Some job)
  then show ?thesis
    by (auto simp: command_problems_def ci_runs_def step_in_job_def list_ex_iff str_includes_iff filter_empty_conv)
qed (simp add: command_problems_def ci_runs_def)

lemma requirement_Nil_iff: "requirement_problems spec prose = [] \<longleftrightarrow> requirements_cited spec prose"
  by (auto simp: requirement_problems_def requirements_cited_def Let_def filter_empty_conv split: option.splits)

lemma gates_Nil_iff:
  "gate_count_problems chain prose @ gate_name_problems chain prose = [] \<longleftrightarrow> gates_described chain prose"
proof -
  have "gate_count_problems chain prose = [] \<longleftrightarrow>
      (\<exists>claimed. match_group CHAINS_RE prose 1 = Some claimed \<and>
        word_number claimed = Finite (of_nat (gateCount chain)))"
    by (auto simp: gate_count_problems_def float_eq_def split: option.splits)
  moreover have "gate_name_problems chain prose = [] \<longleftrightarrow>
      (\<forall>g \<in> set (gates_run chain). \<exists>noun u v. map_of GATE_NOUNS g = Some noun \<and> sentence prose = u @ noun @ v)"
  proof -
    have "(case map_of GATE_NOUNS g of None \<Rightarrow> [GateWithoutNoun g]
        | Some noun \<Rightarrow> if \<not> str_includes (sentence prose) noun then [GateNotNamed noun g] else []) = [] \<longleftrightarrow>
        (\<exists>noun u v. map_of GATE_NOUNS g = Some noun \<and> sentence prose = u @ noun @ v)" for g
      by (cases "map_of GATE_NOUNS g") (auto simp: str_includes_iff)
    then show ?thesis by (simp add: gate_name_problems_def concat_eq_Nil_conv)
  qed
  ultimately show ?thesis by (simp add: gates_described_def)
qed

lemma block_settled_iff:
  "block_settled write wanted t u \<longleftrightarrow>
     (\<exists>written. block_problems write wanted t = ([], written) \<and> u = (case written of None \<Rightarrow> t | Some t' \<Rightarrow> t'))"
  by (auto simp: block_settled_def block_problems_def Let_def split: option.splits if_splits)

lemma scripts_Nil_iff:
  "script_problems w prose = [] \<longleftrightarrow> (\<forall>p \<in> set (mentioned prose). aw_read w p = None \<longleftrightarrow> p \<in> set KNOWN_ABSENT)"
  by (auto simp: script_problems_def concat_eq_Nil_conv Let_def if_Nil_iff)

lemma corrections_Nil_iff:
  "correction_problems w prose = [] \<longleftrightarrow>
     (\<exists>contributing. aw_read w (js ''CONTRIBUTING.md'') = Some contributing \<and>
        (\<forall>(a, c) \<in> set COUPLED. str_includes prose a \<longleftrightarrow> str_includes contributing c))"
proof (cases "aw_read w (js ''CONTRIBUTING.md'')")
  case (Some t)
  then show ?thesis
    by (fastforce simp: correction_problems_def concat_eq_Nil_conv Let_def if_Nil_iff)
qed (simp add: correction_problems_def)

lemma manifest_Nil_iff:
  "manifest_problems w prose = Inr [] \<longleftrightarrow>
     (\<exists>txt pkg scripts spec chain. aw_read w (js ''scripts/package.json'') = Some txt \<and>
        json_parse txt = Some pkg \<and> npm_scripts pkg = Inr scripts \<and> check_chain pkg = Inr chain \<and>
        aw_read w (js ''SPECIFICATION.md'') = Some spec \<and>
        (\<forall>m \<in> set (matchAll NPM_RUN_RE prose). the (group m 1) \<in> set scripts) \<and>
        requirements_cited spec prose \<and> gates_described chain prose)"
proof -
  have r: "read_or_throw w p = Inr t \<longleftrightarrow> aw_read w p = Some t" for p t
    by (simp add: read_or_throw_def split: option.split)
  have j: "(case json_parse t of None \<Rightarrow> Inl SyntaxError | Some j \<Rightarrow> Inr j) = Inr k \<longleftrightarrow> json_parse t = Some k" for t k
    by (simp split: option.split)
  have n: "npm_problems scripts prose = [] \<longleftrightarrow>
      (\<forall>m \<in> set (matchAll NPM_RUN_RE prose). the (group m 1) \<in> set scripts)" for scripts
    by (auto simp: npm_problems_def filter_empty_conv)
  have g: "gates_described chain prose \<longleftrightarrow> gate_count_problems chain prose = [] \<and> gate_name_problems chain prose = []"
    for chain
    using gates_Nil_iff [of chain prose] by simp
  show ?thesis
    unfolding manifest_problems_def and_then_Inr_iff r j sum.inject append_is_Nil_conv n requirement_Nil_iff g
    by blast
qed

lemma row_Nil_iff:
  "agents_row_problems (package_dirs entries) = [] \<longleftrightarrow> {d. (d, True) \<in> set entries} = ag_key ` set AGENTS_PACKAGES"
proof -
  have "set (package_dirs entries) = {d. (d, True) \<in> set entries}"
    by (force simp: package_dirs_def image_iff)
  then show ?thesis by (auto simp: agents_row_problems_def Let_def filter_empty_conv)
qed

lemma closed_Nil_iff: "closed_set_problems found = [] \<longleftrightarrow> set found = {AGENTS}"
  by (auto simp: closed_set_problems_def filter_empty_conv)

lemma claude_Nil_iff: "claude_problems w = [] \<longleftrightarrow> aw_read w (js ''CLAUDE.md'') = Some WANT_CLAUDE"
  by (simp add: claude_problems_def split: option.split)

lemma floor_Nil_iff:
  "agents_floor_problems matrix = [] \<longleftrightarrow> (\<forall>p \<in> set AGENTS_PACKAGES. floorOf matrix p \<noteq> None)"
  by (simp add: agents_floor_problems_def concat_map_Nil_iff if_Nil_iff del: concat_eq_Nil_conv)

lemma size_Nil_iff: "size_problems t = [] \<longleftrightarrow> lineCount t \<le> MAX_LINES \<and> byteLength t \<le> MAX_BYTES"
  by (auto simp: size_problems_def)

lemmas problem_iffs = parity_Nil_iff row_Nil_iff closed_Nil_iff claude_Nil_iff floor_Nil_iff size_Nil_iff
  scripts_Nil_iff corrections_Nil_iff

lemma text_Nil_iff:
  "fst (text_problems w jobs t) = Inr [] \<longleftrightarrow>
     (\<exists>entries u. aw_packages w = Some entries \<and> size_problems t = [] \<and> agents_row_problems (package_dirs entries) = [] \<and>
        (\<forall>p \<in> set AGENTS_PACKAGES. command_problems jobs p = []) \<and>
        block_settled (js ''--write'' \<in> set (aw_argv w)) (agents_table (aw_matrix w)) t u \<and> prose_true w (prose_of u))"
proof (cases "aw_packages w")
  case (Some entries)
  obtain block written where b: "block_problems (js ''--write'' \<in> set (aw_argv w)) (agents_table (aw_matrix w)) t = (block, written)"
    by fastforce
  let ?u = "case written of None \<Rightarrow> t | Some t' \<Rightarrow> t'"
  have "prose_true w (prose_of ?u) \<longleftrightarrow> script_problems w (prose_of ?u) = [] \<and>
      correction_problems w (prose_of ?u) = [] \<and> manifest_problems w (prose_of ?u) = Inr []"
    unfolding prose_true_def scripts_Nil_iff corrections_Nil_iff manifest_Nil_iff by blast
  moreover have "block_settled (js ''--write'' \<in> set (aw_argv w)) (agents_table (aw_matrix w)) t u \<longleftrightarrow>
      block = [] \<and> u = ?u" for u
    unfolding block_settled_iff b by auto
  moreover have "fst (text_problems w jobs t) = Inr [] \<longleftrightarrow>
      manifest_problems w (prose_of ?u) = Inr [] \<and> size_problems t = [] \<and> agents_row_problems (package_dirs entries) = [] \<and>
      (\<forall>p \<in> set AGENTS_PACKAGES. command_problems jobs p = []) \<and> block = [] \<and>
      script_problems w (prose_of ?u) = [] \<and> correction_problems w (prose_of ?u) = []"
    unfolding text_problems_def Some b Let_def option.case prod.case fst_conv map_sum_Inr_iff append_is_Nil_conv
      concat_map_Nil_iff
    by blast
  ultimately show ?thesis using Some by auto
qed (simp add: text_problems_def)

lemma agents_exit_0: "agents_exit x = 0 \<longleftrightarrow> (\<exists>a b c d. x = AgentsOk a b c d)"
  by (cases x) auto

text \<open>The script gets to its checks and they find nothing.\<close>

lemma agents_main_passes_iff:
  "agents_exit (fst (agents_main w)) = 0 \<longleftrightarrow>
    (\<exists>ci out t. aw_read w (js ''.github/workflows/ci.yml'') = Some ci \<and> aw_git w = Some out \<and>
       AGENTS \<in> set (found_files out) \<and> aw_read w AGENTS = Some t \<and>
       agents_floor_problems (aw_matrix w) = [] \<and> closed_set_problems (found_files out) = [] \<and>
       claude_problems w = [] \<and> fst (text_problems w (agents_ciJobs ci) t) = Inr [])"
proof (cases "aw_read w (js ''.github/workflows/ci.yml'')")
  case ci: (Some ci)
  show ?thesis
  proof (cases "aw_git w")
    case git: (Some out)
    show ?thesis
    proof (cases "AGENTS \<in> set (found_files out)")
      case found: True
      show ?thesis
      proof (cases "aw_read w AGENTS")
        case (Some t)
        obtain ps written where "text_problems w (agents_ciJobs ci) t = (ps, written)" by fastforce
        then show ?thesis using ci git found Some
          by (cases ps) (simp_all add: agents_exit_0 agents_main_def read_or_throw_def Let_def)
      qed (use ci git found in \<open>simp add: agents_exit_0 agents_main_def read_or_throw_def\<close>)
    qed (use ci git in \<open>simp add: agents_exit_0 agents_main_def read_or_throw_def\<close>)
  qed (use ci in \<open>simp add: agents_exit_0 agents_main_def read_or_throw_def\<close>)
qed (simp add: agents_exit_0 agents_main_def read_or_throw_def)

text \<open>
  \<^bold>\<open>C33.\<close> \<open>AGENTS.md\<close>. The script exits 0 exactly when the file describes the repository: it is the only
  one, within its caps, \<open>CLAUDE.md\<close> imports it, the packages of the table are the directories below
  \<open>packages/\<close>, every command of the table is part of a line of the CI job of its package, which runs in
  the directory the table names, the table is the one the runtime matrix gives (or \<open>--write\<close> puts it
  there), and every script, npm script, requirement, count and gate name of the prose is right.
\<close>

theorem agents_check_passes_iff:
  "agents_exit (fst (agents_main w)) = 0 \<longleftrightarrow> describes_repository w"
proof
  assume "agents_exit (fst (agents_main w)) = 0"
  then obtain ci out t entries u where
    "aw_read w (js ''.github/workflows/ci.yml'') = Some ci" "aw_git w = Some out"
    "set (found_files out) = {AGENTS}" "aw_read w AGENTS = Some t"
    "aw_read w (js ''CLAUDE.md'') = Some WANT_CLAUDE"
    "\<forall>p \<in> set AGENTS_PACKAGES. floorOf (aw_matrix w) p \<noteq> None"
    "lineCount t \<le> MAX_LINES" "byteLength t \<le> MAX_BYTES" "aw_packages w = Some entries"
    "{d. (d, True) \<in> set entries} = ag_key ` set AGENTS_PACKAGES"
    "\<forall>p \<in> set AGENTS_PACKAGES. ci_runs (agents_ciJobs ci) p"
    "block_settled (js ''--write'' \<in> set (aw_argv w)) (agents_table (aw_matrix w)) t u" "prose_true w (prose_of u)"
    unfolding agents_main_passes_iff text_Nil_iff problem_iffs by (elim exE conjE)
  then show "describes_repository w" unfolding describes_repository_def by (intro exI conjI)
next
  assume "describes_repository w"
  then obtain ci out t entries u where d:
    "aw_read w (js ''.github/workflows/ci.yml'') = Some ci" "aw_git w = Some out"
    "set (found_files out) = {AGENTS}" "aw_read w AGENTS = Some t"
    "aw_read w (js ''CLAUDE.md'') = Some WANT_CLAUDE"
    "\<forall>p \<in> set AGENTS_PACKAGES. floorOf (aw_matrix w) p \<noteq> None"
    "lineCount t \<le> MAX_LINES" "byteLength t \<le> MAX_BYTES" "aw_packages w = Some entries"
    "{d. (d, True) \<in> set entries} = ag_key ` set AGENTS_PACKAGES"
    "\<forall>p \<in> set AGENTS_PACKAGES. ci_runs (agents_ciJobs ci) p"
    "block_settled (js ''--write'' \<in> set (aw_argv w)) (agents_table (aw_matrix w)) t u" "prose_true w (prose_of u)"
    unfolding describes_repository_def by (elim exE conjE)
  moreover have "fst (text_problems w (agents_ciJobs ci) t) = Inr []"
    unfolding text_Nil_iff problem_iffs using d(7-13) by (intro exI conjI)
  moreover have "AGENTS \<in> set (found_files out)" using d(3) by simp
  ultimately show "agents_exit (fst (agents_main w)) = 0"
    unfolding agents_main_passes_iff problem_iffs by (intro exI conjI)
qed

end
