(* ===== verification/Check_Links.thy ===== *)
theory Check_Links
  imports Json Encoding
begin

text \<open>
  \<open>scripts/check-links.mjs\<close>: every relative link of the documentation resolves. The file system is a
  function from absolute paths to nodes, an absolute path a list of segments (POSIX); \<open>git ls-files\<close>
  is its output. The cache of \<open>anchorsOf\<close> is part of the state the loop threads.
\<close>

section \<open>Paths\<close>

type_synonym fs_path = "jsstring list"

datatype fs_node = FileNode "jsstring option" | DirNode \<comment> \<open>a file with its text, if it is readable\<close>

type_synonym file_system = "fs_path \<Rightarrow> fs_node option"

fun norm_segs :: "fs_path \<Rightarrow> jsstring list \<Rightarrow> fs_path" where
  "norm_segs acc [] = acc"
| "norm_segs acc (s # ss) =
     (if s = [] \<or> s = js ''.'' then norm_segs acc ss
      else if s = js ''..'' then norm_segs (butlast acc) ss
      else norm_segs (acc @ [s]) ss)"

text \<open>\<open>join(home, p)\<close> and \<open>resolve(base, p)\<close>.\<close>

definition join_path :: "fs_path \<Rightarrow> jsstring \<Rightarrow> fs_path" where
  "join_path home p = norm_segs home (split_on 47 p)"

definition resolve_path :: "fs_path \<Rightarrow> jsstring \<Rightarrow> fs_path" where
  "resolve_path base p = norm_segs (if startsWith p (js ''/'') then [] else base) (split_on 47 p)"

text \<open>\<open>relative(home, p)\<close>.\<close>

fun relative_segs :: "fs_path \<Rightarrow> fs_path \<Rightarrow> jsstring list" where
  "relative_segs [] t = t"
| "relative_segs (r # rs) [] = map (\<lambda>_. js ''..'') (r # rs)"
| "relative_segs (r # rs) (t # ts) =
     (if r = t then relative_segs rs ts else map (\<lambda>_. js ''..'') (r # rs) @ t # ts)"

definition relative_path :: "fs_path \<Rightarrow> fs_path \<Rightarrow> jsstring" where
  "relative_path home t =
     map (\<lambda>c. if c = 92 then 47 else c) (join_with (js ''/'') (relative_segs home t))"

section \<open>\<open>decodeURIComponent\<close>\<close>

text \<open>
  ECMA-262, Decode: an escape \<open>%XY\<close> is an octet; octets are decoded as UTF-8. \<open>None\<close> is the
  \<open>URIError\<close> of a malformed escape.
\<close>

fun pct_octet :: "jsstring \<Rightarrow> (nat \<times> jsstring) option" where
  "pct_octet (c # h # l # s) =
     (case (digit_value 16 h, digit_value 16 l) of
        (Some a, Some b) \<Rightarrow> if c = 37 then Some (16 * a + b, s) else None
      | _ \<Rightarrow> None)"
| "pct_octet _ = None"

fun continuation :: "nat \<Rightarrow> nat \<Rightarrow> jsstring \<Rightarrow> (nat \<times> jsstring) option" where
  "continuation 0 acc s = Some (acc, s)"
| "continuation (Suc k) acc s =
     (case pct_octet s of
        None \<Rightarrow> None
      | Some (b, r) \<Rightarrow> if b div 64 = 2 then continuation k (acc * 64 + b mod 64) r else None)"

text \<open>The number of continuation octets and the payload of a leading one; the code points it may start.\<close>

definition lead_octet :: "nat \<Rightarrow> (nat \<times> nat) option" where
  "lead_octet b =
     (if b < 0x80 then Some (0, b)
      else if 0xC0 \<le> b \<and> b < 0xE0 then Some (1, b mod 32)
      else if 0xE0 \<le> b \<and> b < 0xF0 then Some (2, b mod 16)
      else if 0xF0 \<le> b \<and> b < 0xF8 then Some (3, b mod 8)
      else None)"

definition shortest_form :: "nat \<Rightarrow> nat \<Rightarrow> bool" where
  "shortest_form k n \<longleftrightarrow>
     (k = 0 \<or> k = 1 \<and> 0x80 \<le> n \<or> k = 2 \<and> 0x800 \<le> n \<and> \<not> surrogate n \<or>
      k = 3 \<and> 0x10000 \<le> n \<and> n \<le> 0x10FFFF)"

definition utf16_of :: "nat \<Rightarrow> jsstring" where
  "utf16_of n =
     (if n < 0x10000 then [of_nat n]
      else [of_nat (0xD800 + (n - 0x10000) div 0x400), of_nat (0xDC00 + (n - 0x10000) mod 0x400)])"

definition pct_char :: "jsstring \<Rightarrow> (jsstring \<times> jsstring) option" where
  "pct_char s =
     (case pct_octet s of
        None \<Rightarrow> None
      | Some (b, r) \<Rightarrow>
          (case lead_octet b of
             None \<Rightarrow> None
           | Some (k, p) \<Rightarrow>
               (case continuation k p r of
                  None \<Rightarrow> None
                | Some (n, r') \<Rightarrow> if shortest_form k n then Some (utf16_of n, r') else None)))"

lemma pct_octet_length: "pct_octet s = Some (b, r) \<Longrightarrow> length r < length s"
  by (induction s rule: pct_octet.induct) (auto split: option.splits if_splits)

lemma continuation_length: "continuation k acc s = Some (n, r) \<Longrightarrow> length r \<le> length s"
proof (induction k arbitrary: acc s)
  case (Suc k)
  then obtain b t where "pct_octet s = Some (b, t)" "continuation k (acc * 64 + b mod 64) t = Some (n, r)"
    by (auto split: option.splits if_splits)
  then show ?case using Suc.IH pct_octet_length by (meson less_imp_le order_trans)
qed simp

lemma pct_char_length: "pct_char s = Some (u, r) \<Longrightarrow> length r < length s"
  by (auto simp: pct_char_def split: option.splits if_splits prod.splits
      dest!: pct_octet_length continuation_length)

function decodeURIComponent :: "jsstring \<Rightarrow> jsstring option" where
  "decodeURIComponent s =
     (case s of
        [] \<Rightarrow> Some []
      | c # r \<Rightarrow>
          if c \<noteq> 37 then map_option ((#) c) (decodeURIComponent r)
          else (case pct_char s of
                  None \<Rightarrow> None
                | Some (u, r') \<Rightarrow> map_option ((@) u) (decodeURIComponent r')))"
  by pat_completeness auto
termination by (relation "measure length") (auto dest: pct_char_length)

declare decodeURIComponent.simps [simp del]

section \<open>Anchors\<close>

text \<open>
  \<open>toLowerCase\<close> as far as \<open>slug\<close> can see it: of the characters outside ASCII only U+0130 and U+212A
  have a lower-case form with an ASCII letter, and no other lower-case form is white space; the filter
  that follows removes everything else outside ASCII.
\<close>

fun lower_slug :: "jsstring \<Rightarrow> jsstring" where
  "lower_slug [] = []"
| "lower_slug (c # s) =
     (if 65 \<le> c \<and> c \<le> 90 then [c + 32]
      else if c = 0x0130 then [105, 0x0307]
      else if c = 0x212A then [107]
      else [c]) @ lower_slug s"

definition NOT_SLUG_RE :: regex where \<comment> \<open>\<open>/[^\w\s-]/gu\<close>\<close>
  "NOT_SLUG_RE = RChar (\<lambda>c. \<not> (is_word_char c \<or> is_space c \<or> c = 45))"

definition slug :: "jsstring \<Rightarrow> jsstring" where
  "slug heading =
     replaceAll (RChar is_space) (\<lambda>_. js ''-'')
       (replaceAll NOT_SLUG_RE (\<lambda>_. []) (lower_slug (trim heading)))"

definition FENCE_RE :: regex where \<comment> \<open>three backquotes or tildes: \<open>/^\s*(```|~~~)/\<close>\<close>
  "FENCE_RE = RSeqs [RBol False, RSpaces, RGroup 1 (RAlt (RLit (js ''```'')) (RLit (js ''~~~'')))]"

definition HEADING_RE :: regex where \<comment> \<open>\<open>/^#{1,6}\s+(.*?)\s*#*\s*$/\<close>\<close>
  "HEADING_RE = RSeqs [RBol False, RSeq (RLit (js ''#'')) (ROpt (RSeq (RLit (js ''#'')) (ROpt (RSeq (RLit (js ''#''))
       (ROpt (RSeq (RLit (js ''#'')) (ROpt (RSeq (RLit (js ''#'')) (ROpt (RLit (js ''#''))))))))))),
     RPlus True (RChar is_space), RGroup 1 (RStar False RDot), RSpaces,
     RStar True (RLit (js ''#'')), RSpaces, REol False]"

definition MARKUP_RE :: regex where \<comment> \<open>\<open>/[`*_]/g\<close>\<close>
  "MARKUP_RE = RChar (one_of ''`*_'')"

definition not_quote :: "cu \<Rightarrow> bool" where "not_quote c \<longleftrightarrow> c \<noteq> 34"

definition HTML_ANCHOR_RE :: regex where \<comment> \<open>\<open>/<a\s[^>]*(?:id|name)="([^"]+)"/g\<close>\<close>
  "HTML_ANCHOR_RE = RSeqs [RLit (js ''<a''), RChar is_space, RStar True (RChar (\<lambda>c. c \<noteq> 62)),
     RAlt (RLit (js ''id'')) (RLit (js ''name'')), RLit (js ''='' @ [34]),
     RGroup 1 (RPlus True (RChar not_quote)), RLit [34]]"

definition line_anchors :: "jsstring \<Rightarrow> jsstring list" where
  "line_anchors line =
     (case exec HEADING_RE line of
        None \<Rightarrow> []
      | Some m \<Rightarrow> [slug (replaceAll MARKUP_RE (\<lambda>_. []) (the (group m 1)))]) @
     map (\<lambda>m. the (group m 1)) (matchAll HTML_ANCHOR_RE line)"

fun anchors_loop :: "bool \<Rightarrow> jsstring list \<Rightarrow> jsstring list" where
  "anchors_loop inFence [] = []"
| "anchors_loop inFence (line # ls) =
     (if test FENCE_RE line then anchors_loop (\<not> inFence) ls
      else if inFence then anchors_loop inFence ls
      else line_anchors line @ anchors_loop inFence ls)"

text \<open>The set as a list; an unreadable file has no anchors.\<close>

definition file_anchors :: "file_system \<Rightarrow> fs_path \<Rightarrow> jsstring list" where
  "file_anchors fs p =
     (case fs p of Some (FileNode (Some txt)) \<Rightarrow> anchors_loop False (lines txt) | _ \<Rightarrow> [])"

type_synonym anchor_cache = "(fs_path \<times> jsstring list) list"

definition anchorsOf :: "file_system \<Rightarrow> anchor_cache \<Rightarrow> fs_path \<Rightarrow> jsstring list \<times> anchor_cache" where
  "anchorsOf fs cache p =
     (case map_of cache p of
        Some s \<Rightarrow> (s, cache)
      | None \<Rightarrow> let s = file_anchors fs p in (s, map_set p s cache))"

section \<open>Links\<close>

definition CODE_SPAN_RE :: regex where
  "CODE_SPAN_RE = RSeqs [RLit (js ''`''), RStar True (RChar (\<lambda>c. c \<noteq> 96)), RLit (js ''`'')]"

definition INLINE_RE :: regex where \<comment> \<open>\<open>/!?\[[^\]]*\]\(\s*<?([^)\s>]+)>?(?:\s+"[^"]*")?\s*\)/g\<close>\<close>
  "INLINE_RE = RSeqs [ROpt (RLit (js ''!'')), RLit (js ''[''), RStar True (RChar (\<lambda>c. c \<noteq> 93)), RLit (js '']('' ),
     RSpaces, ROpt (RLit (js ''<'')),
     RGroup 1 (RPlus True (RChar (\<lambda>c. c \<noteq> 41 \<and> \<not> is_space c \<and> c \<noteq> 62))),
     ROpt (RLit (js ''>'')),
     ROpt (RSeqs [RPlus True (RChar is_space), RLit [34], RStar True (RChar not_quote), RLit [34]]),
     RSpaces, RLit (js '')'')]"

definition REFERENCE_RE :: regex where \<comment> \<open>\<open>/^\s*\[[^\]]+\]:\s*<?([^\s>]+)>?/g\<close>\<close>
  "REFERENCE_RE = RSeqs [RBol False, RSpaces, RLit (js ''[''), RPlus True (RChar (\<lambda>c. c \<noteq> 93)), RLit (js '']:''),
     RSpaces, ROpt (RLit (js ''<'')), RGroup 1 (RPlus True (RChar (\<lambda>c. \<not> is_space c \<and> c \<noteq> 62))),
     ROpt (RLit (js ''>''))]"

definition HTML_LINK_RE :: regex where \<comment> \<open>\<open>/<(?:a|img)\s[^>]*(?:href|src)="([^"]+)"/g\<close>\<close>
  "HTML_LINK_RE = RSeqs [RLit (js ''<''), RAlt (RLit (js ''a'')) (RLit (js ''img'')), RChar is_space,
     RStar True (RChar (\<lambda>c. c \<noteq> 62)), RAlt (RLit (js ''href'')) (RLit (js ''src'')), RLit (js ''='' @ [34]),
     RGroup 1 (RPlus True (RChar not_quote)), RLit [34]]"

definition line_targets :: "jsstring \<Rightarrow> jsstring list" where
  "line_targets line =
     (let stripped = replaceAll CODE_SPAN_RE (\<lambda>m. replicate (length (m_text m)) 32) line;
          targets = (\<lambda>r. map (\<lambda>m. the (group m 1)) (matchAll r stripped))
      in targets INLINE_RE @ targets REFERENCE_RE @ targets HTML_LINK_RE)"

fun links_loop :: "bool \<Rightarrow> nat \<Rightarrow> jsstring list \<Rightarrow> (jsstring \<times> nat) list" where
  "links_loop inFence i [] = []"
| "links_loop inFence i (line # ls) =
     (if test FENCE_RE line then links_loop (\<not> inFence) (Suc i) ls
      else if inFence then links_loop inFence (Suc i) ls
      else map (\<lambda>t. (t, Suc i)) (line_targets line) @ links_loop inFence (Suc i) ls)"

definition linksIn :: "jsstring \<Rightarrow> (jsstring \<times> nat) list" where
  "linksIn txt = links_loop False 0 (lines txt)"

section \<open>The check\<close>

datatype link_problem =
    Unreadable jsstring
  | NoHeadingHere jsstring nat jsstring
  | EscapesRoot jsstring nat jsstring
  | TargetMissing jsstring nat jsstring jsstring
  | NoHeadingThere jsstring nat jsstring jsstring

record link_state =
  ls_cache :: anchor_cache
  ls_problems :: "link_problem list"
  ls_paths :: nat
  ls_anchors :: nat
  ls_external :: nat

definition SCHEME_RE :: regex where \<comment> \<open>\<open>/^[a-z][a-z0-9+.-]*:/i\<close>\<close>
  "SCHEME_RE = (let letter = (\<lambda>c. (97 \<le> c \<and> c \<le> 122) \<or> (65 \<le> c \<and> c \<le> 90)) in
     RSeqs [RBol False, RChar letter,
       RStar True (RChar (\<lambda>c. letter c \<or> is_digit c \<or> one_of ''+.-'' c)), RLit (js '':'')])"

definition external_link :: "jsstring \<Rightarrow> bool" where
  "external_link target \<longleftrightarrow> test SCHEME_RE target \<or> startsWith target (js ''//'')"

definition add_problem :: "link_problem \<Rightarrow> link_state \<Rightarrow> link_state" where
  "add_problem p st = st\<lparr>ls_problems := ls_problems st @ [p]\<rparr>"

definition check_anchor ::
  "file_system \<Rightarrow> fs_path \<Rightarrow> jsstring \<Rightarrow> link_problem \<Rightarrow> link_state \<Rightarrow> link_state" where
  "check_anchor fs p want problem st =
     (let (anchors, cache) = anchorsOf fs (ls_cache st) p;
          st = st\<lparr>ls_cache := cache\<rparr>
      in if want \<notin> set anchors then add_problem problem st else st)"

definition count_anchor :: "link_state \<Rightarrow> link_state" where
  "count_anchor st = st\<lparr>ls_anchors := ls_anchors st + 1\<rparr>"

definition check_link ::
  "file_system \<Rightarrow> fs_path \<Rightarrow> jsstring \<Rightarrow> jsstring \<times> nat \<Rightarrow> link_state \<Rightarrow> js_exn + link_state" where
  "check_link fs home file l st = (case l of (target, line) \<Rightarrow>
     let abs = join_path home file in
     if external_link target then Inr (st\<lparr>ls_external := ls_external st + 1\<rparr>)
     else if startsWith target (js ''#'') then
       (case decodeURIComponent (drop 1 target) of
          None \<Rightarrow> Inl URIError
        | Some want \<Rightarrow>
            Inr (count_anchor
              (if want \<noteq> [] then check_anchor fs abs want (NoHeadingHere file line want) st else st)))
     else
       let parts = split_on 35 target;
           anchor = (case parts of _ # a # _ \<Rightarrow> a | _ \<Rightarrow> [])
       in case decodeURIComponent (hd (split_on 63 (hd parts))) of
         None \<Rightarrow> Inl URIError
       | Some cleanPath \<Rightarrow>
           if cleanPath = [] then Inr st
           else
             let targetAbs = resolve_path (butlast abs) cleanPath;
                 rel = relative_path home targetAbs
             in if startsWith rel (js ''..'') then Inr (add_problem (EscapesRoot file line target) st)
                else case fs targetAbs of
                  None \<Rightarrow> Inr (add_problem (TargetMissing file line target rel) st)
                | Some node \<Rightarrow>
                    let st = st\<lparr>ls_paths := ls_paths st + 1\<rparr> in
                    if anchor = [] then Inr st
                    else if node = DirNode \<or> \<not> endsWith cleanPath (js ''.md'') then Inr st
                    else (case decodeURIComponent anchor of
                            None \<Rightarrow> Inl URIError
                          | Some want \<Rightarrow>
                              Inr (count_anchor
                                (check_anchor fs targetAbs want (NoHeadingThere file line rel want) st))))"

fun check_links ::
  "file_system \<Rightarrow> fs_path \<Rightarrow> jsstring \<Rightarrow> (jsstring \<times> nat) list \<Rightarrow> link_state \<Rightarrow> js_exn + link_state" where
  "check_links fs home file [] st = Inr st"
| "check_links fs home file (l # ls) st =
     and_then (check_link fs home file l st) (check_links fs home file ls)"

fun check_files :: "file_system \<Rightarrow> fs_path \<Rightarrow> jsstring list \<Rightarrow> link_state \<Rightarrow> js_exn + link_state" where
  "check_files fs home [] st = Inr st"
| "check_files fs home (file # files) st =
     (case fs (join_path home file) of
        Some (FileNode (Some txt)) \<Rightarrow>
          and_then (check_links fs home file (linksIn txt) st) (check_files fs home files)
      | _ \<Rightarrow> check_files fs home files (add_problem (Unreadable file) st))"

text \<open>The files \<open>git\<close> listed that exist, and the verdict. \<open>None\<close>: \<open>git\<close> failed, which throws.\<close>

definition markdown_files :: "file_system \<Rightarrow> fs_path \<Rightarrow> jsstring \<Rightarrow> jsstring list" where
  "markdown_files fs home out =
     filter (\<lambda>f. fs (join_path home f) \<noteq> None) (filter (\<lambda>f. f \<noteq> []) (map trim (lines out)))"

datatype links_outcome =
    LinksThrew js_exn | NoMarkdown | LinksFailed "link_problem list" | LinksOk nat nat nat nat

definition links_main :: "file_system \<Rightarrow> fs_path \<Rightarrow> jsstring option \<Rightarrow> links_outcome" where
  "links_main fs home git =
     (case git of
        None \<Rightarrow> LinksThrew FileError
      | Some out \<Rightarrow>
          let files = markdown_files fs home out in
          if files = [] then NoMarkdown
          else case check_files fs home files
              \<lparr>ls_cache = [], ls_problems = [], ls_paths = 0, ls_anchors = 0, ls_external = 0\<rparr> of
            Inl e \<Rightarrow> LinksThrew e
          | Inr st \<Rightarrow>
              if ls_problems st \<noteq> [] then LinksFailed (ls_problems st)
              else LinksOk (length files) (ls_paths st) (ls_anchors st) (ls_external st))"

fun links_exit :: "links_outcome \<Rightarrow> int" where
  "links_exit (LinksThrew _) = 1"
| "links_exit NoMarkdown = 2"
| "links_exit (LinksFailed _) = 1"
| "links_exit (LinksOk _ _ _ _) = 0"

end
