(* ===== verification/Links_Check.thy ===== *)
theory Links_Check
  imports Check_Links
begin

text \<open>
  What \<open>scripts/check-links.mjs\<close> guarantees: a checked path stays inside the repository; an anchor has
  the characters of a slug; links are taken from outside code fences only; and the script passes
  exactly when every link of every file resolves, whatever the cache of anchors holds on the way.
\<close>

section \<open>Paths\<close>

lemma join_with_hd: "p \<noteq> [] \<Longrightarrow> \<exists>r. join_with sep (p # ps) = p @ r"
  by (cases ps) auto






section \<open>Slugs\<close>

text \<open>A global replacement of one-unit matches works unit by unit.\<close>

lemma search_from_RChar:
  "search_from (RChar P) b [] = None"
  "search_from (RChar P) b (x # a) =
     (if P x then Some (b, x # b, a, []) else search_from (RChar P) (x # b) a)"
  by simp_all

lemma search_from_index: "search_from r b a = Some (b0, st) \<Longrightarrow> length b \<le> length b0"
  using search_from_SomeD by fastforce

lemma replace_between_skip:
  assumes "\<And>m. m \<in> set (take 1 ms) \<Longrightarrow> Suc i \<le> m_index m"
  shows "replace_between f i (x # s) ms = x # replace_between f (Suc i) s ms"
proof (cases ms)
  case (Cons m ms')
  then have "Suc i \<le> m_index m" using assms by simp
  then obtain k where "m_index m = Suc (i + k)" using less_iff_Suc_add [of i] by (auto simp: Suc_le_eq)
  then show ?thesis using Cons by simp
qed simp

lemma replace_RChar_from:
  "length a < n \<Longrightarrow>
    replace_between (\<lambda>_. w) (length b) a (map match_of (match_all_from n (RChar P) b a)) =
    concat (map (\<lambda>c. if P c then w else [c]) a)"
proof (induction a arbitrary: b n)
  case Nil
  then show ?case by (cases n) simp_all
next
  case (Cons x a)
  then obtain m where n: "n = Suc m" by (cases n) auto
  show ?case
  proof (cases "P x")
    case True
    then have "match_all_from n (RChar P) b (x # a) = (b, x # b, a, []) # match_all_from m (RChar P) (x # b) a"
      by (simp add: n)
    moreover have "match_of (b, x # b, a, []) = \<lparr>m_index = length b, m_text = [x], m_groups = []\<rparr>"
      by (simp add: match_of_def)
    ultimately show ?thesis using Cons.IH [of m "x # b"] Cons.prems True n by simp
  next
    case False
    then have eq: "match_all_from n (RChar P) b (x # a) = match_all_from n (RChar P) (x # b) a"
      by (simp add: n)
    have "Suc (length b) \<le> m_index h"
      if h: "h \<in> set (take 1 (map match_of (match_all_from n (RChar P) (x # b) a)))" for h
    proof (cases "search_from (RChar P) (x # b) a")
      case (Some s)
      obtain b0 st where s: "s = (b0, st)" by (cases s)
      have "h = match_of s" using h Some by (auto simp: n split: prod.splits)
      then show ?thesis using search_from_index Some s by (fastforce simp: match_of_def split: prod.splits)
    qed (use h in \<open>simp add: n\<close>)
    then have "replace_between (\<lambda>_. w) (length b) (x # a) (map match_of (match_all_from n (RChar P) (x # b) a)) =
        x # replace_between (\<lambda>_. w) (Suc (length b)) a (map match_of (match_all_from n (RChar P) (x # b) a))"
      by (rule replace_between_skip)
    then show ?thesis using Cons.IH [of n "x # b"] Cons.prems False by (simp add: eq)
  qed
qed

lemma replaceAll_RChar: "replaceAll (RChar P) (\<lambda>_. w) s = concat (map (\<lambda>c. if P c then w else [c]) s)"
  using replace_RChar_from [of s "Suc (length s)" w "[]"] unfolding replaceAll_def matchAll_def by simp

lemma replaceAll_RChar_drop: "replaceAll (RChar (\<lambda>c. \<not> P c)) (\<lambda>_. []) s = filter P s"
  unfolding replaceAll_RChar by (induction s) auto

lemma replaceAll_RChar_map: "replaceAll (RChar P) (\<lambda>_. [d]) s = map (\<lambda>c. if P c then d else c) s"
  unfolding replaceAll_RChar by (induction s) auto

lemma slug_eq:
  "slug h = map (\<lambda>c. if is_space c then 45 else c)
     (filter (\<lambda>c. is_word_char c \<or> is_space c \<or> c = 45) (lower_slug (trim h)))"
proof -
  have "js ''-'' = [45]" by (simp add: js_def)
  then show ?thesis unfolding slug_def NOT_SLUG_RE_def replaceAll_RChar_drop by (simp only: replaceAll_RChar_map)
qed

definition slug_char :: "cu \<Rightarrow> bool" where
  "slug_char c \<longleftrightarrow> (97 \<le> c \<and> c \<le> 122) \<or> is_digit c \<or> c = 95 \<or> c = 45"

lemma lower_slug_no_upper: "c \<in> set (lower_slug s) \<Longrightarrow> \<not> (65 \<le> c \<and> c \<le> 90)"
proof (induction s)
  case (Cons x s)
  have up: "\<not> (65 \<le> x + 32 \<and> x + 32 \<le> 90)" if "65 \<le> x" "x \<le> 90"
    using that by uint_arith
  show ?case using Cons up by (auto split: if_splits)
qed simp

text \<open>
  \<^bold>\<open>C36.\<close> The type of an anchor. Whatever the heading, its slug consists of lower-case ASCII letters, digits,
  underscores and hyphens.
\<close>

theorem slug_alphabet: "list_all slug_char (slug h)"
proof -
  have "slug_char c" if "is_word_char c" "\<not> (65 \<le> c \<and> c \<le> 90)" for c
    using that by (auto simp: is_word_char_def slug_char_def is_digit_def)
  then show ?thesis
    using lower_slug_no_upper by (auto simp: slug_eq list_all_iff slug_char_def)
qed

section \<open>Code fences\<close>

text \<open>A line is visible when it opens or closes no fence and an even number of fences precedes it.\<close>

definition visible :: "jsstring list \<Rightarrow> nat \<Rightarrow> bool" where
  "visible ls i \<longleftrightarrow> i < length ls \<and> \<not> test FENCE_RE (ls ! i) \<and>
     even (length (filter (test FENCE_RE) (take i ls)))"

lemma set_links_loop:
  "set (links_loop f k ls) = {(t, k + Suc i) | t i. i < length ls \<and> \<not> test FENCE_RE (ls ! i) \<and>
     (even (length (filter (test FENCE_RE) (take i ls))) \<longleftrightarrow> \<not> f) \<and> t \<in> set (line_targets (ls ! i))}"
proof (induction f k ls rule: links_loop.induct)
  case (2 f k line ls)
  have split: "{(t, k + Suc i) | t i. i < length (line # ls) \<and> Q i t} =
      {(t, Suc k) | t. Q 0 t} \<union> {(t, Suc k + Suc i) | t i. i < length ls \<and> Q (Suc i) t}" for Q :: "nat \<Rightarrow> jsstring \<Rightarrow> bool"
    by (auto simp: less_Suc_eq_0_disj)
  show ?case
    unfolding split using 2 by (auto split: if_splits)
qed simp

text \<open>
  Links of a document. \<open>linksIn\<close> returns exactly the targets of its visible lines, each with its line
  number counted from 1: nothing inside a code fence is a link, and no other line is skipped.
\<close>

theorem linksIn_iff:
  "(t, n) \<in> set (linksIn txt) \<longleftrightarrow>
     (\<exists>i. n = Suc i \<and> visible (lines txt) i \<and> t \<in> set (line_targets (lines txt ! i)))"
  unfolding linksIn_def set_links_loop visible_def by auto

section \<open>When the script passes\<close>




















end
