(* ===== verification/Check_Licenses.thy ===== *)
theory Check_Licenses
  imports Json Encoding Sha256
begin

text \<open>
  \<open>scripts/check-licenses.mjs\<close>: one licence, stated identically everywhere. The world is what the
  script observes: the node at a path relative to the root (a file with its octets and its text, or a
  directory with its entries), and the output of the two \<open>git\<close> commands. A checker returns the problems
  it pushes, or the exception that ends the script.
\<close>

section \<open>The world\<close>

datatype licence_node = LFile bytes jsstring | LDir "jsstring list"

record licence_world =
  lw_node :: "jsstring \<Rightarrow> licence_node option"
  lw_attr :: "jsstring list \<Rightarrow> jsstring option" \<comment> \<open>\<open>git check-attr export-ignore -- ...\<close>\<close>
  lw_composer :: "jsstring option" \<comment> \<open>\<open>git ls-files -- *composer.json\<close>\<close>

definition lw_exists :: "licence_world \<Rightarrow> jsstring \<Rightarrow> bool" where
  "lw_exists w p \<longleftrightarrow> lw_node w p \<noteq> None"

definition lw_read :: "licence_world \<Rightarrow> jsstring \<Rightarrow> js_exn + jsstring" where
  "lw_read w p = (case lw_node w p of Some (LFile _ t) \<Rightarrow> Inr t | _ \<Rightarrow> Inl FileError)"

definition lw_sha :: "licence_world \<Rightarrow> jsstring \<Rightarrow> js_exn + jsstring" where
  "lw_sha w p = (case lw_node w p of Some (LFile b _) \<Rightarrow> Inr (toHex (sha256 b)) | _ \<Rightarrow> Inl FileError)"

definition lw_readdir :: "licence_world \<Rightarrow> jsstring \<Rightarrow> js_exn + jsstring list" where
  "lw_readdir w p = (case lw_node w p of Some (LDir es) \<Rightarrow> Inr es | _ \<Rightarrow> Inl FileError)"

definition lw_isFile :: "licence_world \<Rightarrow> jsstring \<Rightarrow> js_exn + bool" where
  "lw_isFile w p = (case lw_node w p of None \<Rightarrow> Inl FileError | Some (LFile _ _) \<Rightarrow> Inr True | Some (LDir _) \<Rightarrow> Inr False)"

datatype licence_problem =
    MarkerMissing jsstring
  | NoBody
  | BodyDiffers jsstring
  | NoCopyright
  | TemplateLeft jsstring
  | SecondLicence
  | CrBytes
  | PackageMissing jsstring
  | CopyMissing jsstring
  | CopyDiffers jsstring
  | ExtraLicence jsstring jsstring
  | ManifestMissing jsstring
  | NotJson jsstring
  | NotIncluded jsstring jsstring
  | StaleEntries jsstring jsstring "json list"
  | WrongLicence jsstring jsstring "jsstring option"
  | WrongJsonLicence jsstring "json option"
  | Conflicting jsstring jsstring
  | NoAllowList jsstring jsstring
  | LicenseBlocks jsstring nat
  | IncludesLists jsstring nat
  | NoReleaseProfile jsstring
  | PluginGone jsstring jsstring
  | WrongList jsstring "jsstring list"
  | ArchiveExcludes
  | ComposerFiles "jsstring list"
  | NoGitattributes
  | ExportIgnored jsstring
  | LockWithoutRoot jsstring
  | ProseMissing jsstring
  | ProseMentions jsstring nat nat jsstring

type_synonym licence_result = "js_exn + licence_problem list"

section \<open>Constants and patterns\<close>

definition SPDX :: jsstring where "SPDX = js ''Apache-2.0''"

definition LICENCE_PACKAGES :: "jsstring list" where
  "LICENCE_PACKAGES = map js [''typescript'', ''python'', ''go'', ''rust'', ''java'',
     ''php'', ''csharp'', ''dart'', ''ruby'', ''elixir'']"

definition LICENCE_FILE :: jsstring where "LICENCE_FILE = js ''LICENSE''"

text \<open>A literal under the \<open>i\<close> flag: the letters of ASCII in either case.\<close>

definition fold_case :: "cu \<Rightarrow> cu" where
  "fold_case c = (if 65 \<le> c \<and> c \<le> 90 then c + 32 else c)"

fun RLitI :: "jsstring \<Rightarrow> regex" where
  "RLitI [] = REps"
| "RLitI (c # cs) = RSeq (RChar (\<lambda>x. fold_case x = fold_case c)) (RLitI cs)"

definition one_ofI :: "string \<Rightarrow> cu \<Rightarrow> bool" where
  "one_ofI s c \<longleftrightarrow> one_of s (fold_case c)"

text \<open>\<open>licen[cs]e\<close> with the \<open>i\<close> flag.\<close>

definition LICENCE_I :: regex where
  "LICENCE_I = RSeqs [RLitI (js ''licen''), RChar (one_ofI ''cs''), RLitI (js ''e'')]"

definition FORBIDDEN_LICENCE_FILE :: regex where \<comment> \<open>\<open>/^(licen[cs]e[-_.].*|copying(\..*)?)$/i\<close>\<close>
  "FORBIDDEN_LICENCE_FILE = RSeqs [RBol False,
     RGroup 1 (RAlt (RSeqs [LICENCE_I, RChar (one_of ''-_.''), RStar True RDot])
       (RSeq (RLitI (js ''copying'')) (ROpt (RGroup 2 (RSeq (RLit (js ''.'')) (RStar True RDot)))))),
     REol False]"

definition MIT_RE :: regex where \<comment> \<open>\<open>/\bMIT\b/\<close>\<close>
  "MIT_RE = RSeqs [RWordBoundary, RLit (js ''MIT''), RWordBoundary]"

definition DUAL_RE :: regex where \<comment> \<open>\<open>/dual[- ]licen[cs]/i\<close>\<close>
  "DUAL_RE = RSeqs [RLitI (js ''dual''), RChar (one_of ''- ''), RLitI (js ''licen''), RChar (one_ofI ''cs'')]"

section \<open>1. The root text\<close>

definition MARKERS :: "jsstring list" where
  "MARKERS = map js [''Apache License'', ''Version 2.0, January 2004'', ''http://www.apache.org/licenses/'',
     ''1. Definitions.'', ''3. Grant of Patent License.'', ''END OF TERMS AND CONDITIONS'',
     ''APPENDIX: How to apply the Apache License to your work.'']"

definition APACHE_2_0_BODY_SHA256 :: jsstring where
  "APACHE_2_0_BODY_SHA256 = js ''4bf96504d6e83ce5c6fc7167f1795d9ceaa68e70ab86bc5d08ab93184262bbbe''"

definition END_TERMS :: jsstring where "END_TERMS = js ''END OF TERMS AND CONDITIONS''"

definition body_problems :: "jsstring \<Rightarrow> licence_problem list" where
  "body_problems rootText =
     (case (indexOf rootText (js ''Apache License''), indexOf rootText END_TERMS) of
        (Some start, Some end_at) \<Rightarrow>
          let got = toHex (sha256 (utf8 (slice start (end_at + length END_TERMS) rootText)))
          in push (got \<noteq> APACHE_2_0_BODY_SHA256) (BodyDiffers got)
      | _ \<Rightarrow> [NoBody])"

definition root_problems :: "jsstring \<Rightarrow> licence_problem list" where
  "root_problems rootText =
     concat (map (\<lambda>m. push (\<not> str_includes rootText m) (MarkerMissing m)) MARKERS) @
     body_problems rootText @
     push (\<not> str_includes rootText (js ''Copyright 2026 Matteo Teodori'')) NoCopyright @
     concat (map (\<lambda>t. push (str_includes rootText t) (TemplateLeft t))
       [js ''[yyyy]'', js ''[name of copyright owner]'']) @
     push (test MIT_RE rootText \<or> test DUAL_RE rootText) SecondLicence @
     push (str_includes rootText [13]) CrBytes"

section \<open>2. One copy per package\<close>

definition extra_problems :: "licence_world \<Rightarrow> jsstring \<Rightarrow> jsstring \<Rightarrow> licence_result" where
  "extra_problems w prefix entry =
     (if test FORBIDDEN_LICENCE_FILE entry
      then map_sum id (\<lambda>f. push f (ExtraLicence prefix entry)) (lw_isFile w (prefix @ entry))
      else Inr [])"

definition package_dir :: "jsstring \<Rightarrow> jsstring" where
  "package_dir pkg = js ''packages/'' @ pkg"

definition copy_problems :: "licence_world \<Rightarrow> jsstring \<Rightarrow> jsstring \<Rightarrow> licence_result" where
  "copy_problems w rootHash pkg =
     (let dir = package_dir pkg; p = dir @ js ''/'' @ LICENCE_FILE in
      if \<not> lw_exists w dir then Inr [PackageMissing pkg]
      else both
        (if \<not> lw_exists w p then Inr [CopyMissing pkg]
         else map_sum id (\<lambda>h. push (h \<noteq> rootHash) (CopyDiffers pkg)) (lw_sha w p))
        (and_then (lw_readdir w dir) (each (extra_problems w (dir @ js ''/'')))))"

definition copies :: "licence_world \<Rightarrow> jsstring \<Rightarrow> nat" where
  "copies w rootHash = length (filter (\<lambda>pkg.
     lw_exists w (package_dir pkg) \<and> lw_sha w (package_dir pkg @ js ''/'' @ LICENCE_FILE) = Inr rootHash) LICENCE_PACKAGES)"

section \<open>3. and 4. The manifests\<close>

text \<open>\<open>manifest(rel)\<close> and what follows it: a missing manifest is a problem, not an exception.\<close>

definition with_manifest :: "licence_world \<Rightarrow> jsstring \<Rightarrow> (jsstring \<Rightarrow> licence_result) \<Rightarrow> licence_result" where
  "with_manifest w rel f =
     (if \<not> lw_exists w rel then Inr [ManifestMissing rel] else and_then (lw_read w rel) f)"

text \<open>\<open>asJson\<close>: what does not parse is a problem; the value \<open>null\<close> is skipped in silence.\<close>

definition with_json :: "jsstring \<Rightarrow> jsstring \<Rightarrow> (json \<Rightarrow> licence_result) \<Rightarrow> licence_result" where
  "with_json rel t f =
     (case json_parse t of
        None \<Rightarrow> Inr [NotJson rel]
      | Some j \<Rightarrow> if j = JNull then Inr [] else f j)"

text \<open>
  \<open>String(v)\<close>, as the patterns see it. A number is written without its digits: the patterns below look
  for letters, so no digit of a numeral matters to them.
\<close>

fun json_text :: "json \<Rightarrow> jsstring" where
  "json_text JNull = js ''null''"
| "json_text (JBool b) = (if b then js ''true'' else js ''false'')"
| "json_text (JNum _) = []"
| "json_text (JStr s) = s"
| "json_text (JArr vs) = join_with (js '','') (map (\<lambda>v. if v = JNull then [] else json_text v) vs)"
| "json_text (JObj _) = js ''[object Object]''"

definition STALE_RE :: regex where \<comment> \<open>\<open>/^\/?licen[cs]e[-_.]/i\<close>\<close>
  "STALE_RE = RSeqs [RBol False, ROpt (RLit (js ''/'')), LICENCE_I, RChar (one_of ''-_.'')]"

definition checkIncludes :: "jsstring \<Rightarrow> json list \<Rightarrow> jsstring \<Rightarrow> licence_problem list" where
  "checkIncludes rel entries label =
     (let stale = filter (\<lambda>e. test STALE_RE (json_text e)) entries in
      push (JStr LICENCE_FILE \<notin> set entries \<and> JStr (js ''/'' @ LICENCE_FILE) \<notin> set entries) (NotIncluded rel label) @
      push (stale \<noteq> []) (StaleEntries rel label stale))"

text \<open>The list literals of TOML, Ruby and Elixir.\<close>

definition COMMENT_TAIL_RE :: regex where \<comment> \<open>\<open>/#.*$/\<close>\<close>
  "COMMENT_TAIL_RE = RSeqs [RLit (js ''#''), RStar True RDot, REol False]"

definition END_QUOTES_RE :: regex where \<comment> \<open>\<open>/^["']|["']$/g\<close>\<close>
  "END_QUOTES_RE = (let quote = RChar (\<lambda>c. c = 34 \<or> c = 39) in
     RAlt (RSeq (RBol False) quote) (RSeq quote (REol False)))"

definition no_text :: "match_result \<Rightarrow> jsstring" where "no_text m = []"

definition tomlList :: "jsstring \<Rightarrow> jsstring list" where
  "tomlList inner = map (replaceAll END_QUOTES_RE no_text)
     (filter (\<lambda>s. s \<noteq> []) (map (\<lambda>s. trim (replaceFirst COMMENT_TAIL_RE no_text (trim s))) (split_on 44 inner)))"

definition rubyList :: "jsstring \<Rightarrow> jsstring list" where
  "rubyList inner = map (replaceAll END_QUOTES_RE no_text)
     (filter (\<lambda>s. s \<noteq> []) (map (\<lambda>s. trim (replaceFirst COMMENT_TAIL_RE no_text s)) (split_on 44 inner)))"

definition licences_stripXmlComments :: "jsstring \<Rightarrow> jsstring" where \<comment> \<open>\<open>/<!--[\s\S]*?-->/g\<close>\<close>
  "licences_stripXmlComments t = replaceAll (RSeqs [RLit (js ''<!--''), RStar False RAny, RLit (js ''-->'')]) no_text t"

text \<open>Patterns shared by the manifests.\<close>

definition line_key :: "string \<Rightarrow> regex" where \<comment> \<open>\<open>^key\s*\<close>\<close>
  "line_key key = RSeqs [RBol True, RLit (js key), RSpaces]"

definition LICENSE_STRING_RE :: regex where \<comment> \<open>\<open>/^license\s*=\s*"([^"]+)"/m\<close>\<close>
  "LICENSE_STRING_RE = RSeqs [line_key ''license'', RLit (js ''=''), RSpaces, RLit [34],
     RGroup 1 (RPlus True (RChar (\<lambda>c. c \<noteq> 34))), RLit [34]]"

definition bracket_list :: regex where \<comment> \<open>\<open>\s*=\s*\[([^\]]*)\]\<close>\<close>
  "bracket_list = RSeqs [RSpaces, RLit (js ''=''), RSpaces, RLit (js ''[''),
     RGroup 1 (RStar True (RChar (\<lambda>c. c \<noteq> 93))), RLit (js '']'')]"

definition element :: "string \<Rightarrow> regex" where \<comment> \<open>\<open><tag>([^<]+)<\/tag>\<close>\<close>
  "element tag = RSeqs [RLit (js ''<'' @ js tag @ js ''>''), RGroup 1 (RPlus True (RChar (\<lambda>c. c \<noteq> 60))),
     RLit (js ''</'' @ js tag @ js ''>'')]"

definition block_element :: "string \<Rightarrow> regex" where \<comment> \<open>\<open><tag>([\s\S]*?)<\/tag>\<close>\<close>
  "block_element tag = RSeqs [RLit (js ''<'' @ js tag @ js ''>''), RGroup 1 (RStar False RAny),
     RLit (js ''</'' @ js tag @ js ''>'')]"

definition all_groups :: "regex \<Rightarrow> jsstring \<Rightarrow> jsstring list" where
  "all_groups r t = map (\<lambda>m. the (group m 1)) (matchAll r t)"

text \<open>\<open>declared !== SPDX\<close>, and an allow-list that is there and names the licence.\<close>

definition declares :: "jsstring \<Rightarrow> string \<Rightarrow> jsstring option \<Rightarrow> licence_problem list" where
  "declares rel what declared = push (declared \<noteq> Some SPDX) (WrongLicence rel (js what) declared)"

definition allow_list ::
  "jsstring \<Rightarrow> string \<Rightarrow> (jsstring \<Rightarrow> jsstring list) \<Rightarrow> jsstring option \<Rightarrow> licence_problem list" where
  "allow_list rel label items inner =
     (case inner of
        None \<Rightarrow> [NoAllowList rel (js label)]
      | Some l \<Rightarrow> checkIncludes rel (map JStr (items l)) (js label))"

subsection \<open>npm\<close>

definition check_typescript :: "licence_world \<Rightarrow> licence_result" where
  "check_typescript w = (let rel = js ''packages/typescript/package.json'' in
     with_manifest w rel (\<lambda>t. with_json rel t (\<lambda>j. Inr (
       push (get j (js ''license'') \<noteq> Some (JStr SPDX)) (WrongJsonLicence rel (get j (js ''license''))) @
       (case get j (js ''files'') of
          Some (JArr files) \<Rightarrow> checkIncludes rel files (js ''files'')
        | _ \<Rightarrow> [NoAllowList rel (js ''files'')])))))"

subsection \<open>PyPI\<close>

definition LICENSE_TABLE_RE :: regex where \<comment> \<open>\<open>/^license\s*=\s*\{/m\<close>\<close>
  "LICENSE_TABLE_RE = RSeqs [line_key ''license'', RLit (js ''=''), RSpaces, RLit (js ''{'')]"

definition SDIST_RE :: regex where
  \<comment> \<open>\<open>/\[tool\.hatch\.build\.targets\.sdist\][\s\S]*?include\s*=\s*\[([^\]]*)\]/\<close>\<close>
  "SDIST_RE = RSeqs [RLit (js ''[tool.hatch.build.targets.sdist]''), RStar False RAny,
     RLit (js ''include''), bracket_list]"

definition check_python :: "licence_world \<Rightarrow> licence_result" where
  "check_python w = (let rel = js ''packages/python/pyproject.toml'' in
     with_manifest w rel (\<lambda>t. Inr (
       push (test LICENSE_TABLE_RE t) (Conflicting rel (js ''license is a table'')) @
       declares rel ''license'' (match_group LICENSE_STRING_RE t 1) @
       allow_list rel ''license-files'' tomlList
         (match_group (RSeqs [RBol True, RLit (js ''license-files''), bracket_list]) t 1) @
       allow_list rel ''the sdist include'' tomlList (match_group SDIST_RE t 1))))"

subsection \<open>crates.io\<close>

definition check_rust :: "licence_world \<Rightarrow> licence_result" where
  "check_rust w = (let rel = js ''packages/rust/Cargo.toml'' in
     with_manifest w rel (\<lambda>t. Inr (
       declares rel ''license'' (match_group LICENSE_STRING_RE t 1) @
       push (test (RSeq (line_key ''license-file'') (RLit (js ''=''))) t) (Conflicting rel (js ''license-file'')) @
       allow_list rel ''include'' tomlList (match_group (RSeqs [RBol True, RLit (js ''include''), bracket_list]) t 1))))"

subsection \<open>Maven\<close>

definition PLUGINS :: "jsstring list" where
  "PLUGINS = map js [''maven-source-plugin'', ''maven-javadoc-plugin'', ''maven-gpg-plugin'',
     ''central-publishing-maven-plugin'']"

definition RELEASE_RE :: regex where \<comment> \<open>\<open>/<profile>[\s\S]*?<id>release<\/id>([\s\S]*?)<\/profile>/\<close>\<close>
  "RELEASE_RE = RSeqs [RLit (js ''<profile>''), RStar False RAny, RLit (js ''<id>release</id>''),
     RGroup 1 (RStar False RAny), RLit (js ''</profile>'')]"

definition license_block_problems :: "jsstring \<Rightarrow> jsstring \<Rightarrow> licence_problem list" where
  "license_block_problems rel b =
     declares rel ''name'' (match_group (element ''name'') b 1) @
     (let url = match_group (element ''url'') b 1 in
      push (url \<noteq> Some (js ''https://www.apache.org/licenses/LICENSE-2.0.txt'')) (WrongLicence rel (js ''url'') url)) @
     (let dist = match_group (element ''distribution'') b 1 in
      push (dist \<noteq> Some (js ''repo'')) (WrongLicence rel (js ''distribution'') dist))"

definition check_java :: "licence_world \<Rightarrow> licence_result" where
  "check_java w = (let rel = js ''packages/java/pom.xml'' in
     with_manifest w rel (\<lambda>raw.
       let t = licences_stripXmlComments raw;
           blocks = all_groups (block_element ''license'') t;
           lists = all_groups (block_element ''includes'') t
       in Inr (
         push (length blocks \<noteq> 1) (LicenseBlocks rel (length blocks)) @
         concat (map (license_block_problems rel) blocks) @
         declares rel ''Bundle-License'' (match_group (element ''Bundle-License'') t 1) @
         push (length lists \<noteq> 2) (IncludesLists rel (length lists)) @
         concat (map (\<lambda>(l, i). checkIncludes rel (map (\<lambda>e. JStr (trim e)) (all_groups (element ''include'') l))
             (js ''resource <includes> #'' @ decimal i)) (zip lists [1..<Suc (length lists)])) @
         (case match_group RELEASE_RE t 1 of
            None \<Rightarrow> [NoReleaseProfile rel]
          | Some profile \<Rightarrow> concat (map (\<lambda>p. push
              (\<not> str_includes profile (js ''<artifactId>'' @ p @ js ''</artifactId>'')) (PluginGone rel p)) PLUGINS)))))"

subsection \<open>NuGet\<close>

definition PACKED_RE :: regex where \<comment> \<open>\<open>/<None\s+Include="([^"]+)"[^>]*Pack="true"/g\<close>\<close>
  "PACKED_RE = RSeqs [RLit (js ''<None''), RPlus True (RChar is_space), RLit (js ''Include='' @ [34]),
     RGroup 1 (RPlus True (RChar (\<lambda>c. c \<noteq> 34))), RLit [34], RStar True (RChar (\<lambda>c. c \<noteq> 62)),
     RLit (js ''Pack='' @ [34] @ js ''true'' @ [34])]"

definition check_csharp :: "licence_world \<Rightarrow> licence_result" where
  "check_csharp w = (let rel = js ''packages/csharp/src/NebulaToken/NebulaToken.csproj'' in
     with_manifest w rel (\<lambda>raw. let t = licences_stripXmlComments raw in Inr (
       declares rel ''PackageLicenseExpression'' (match_group (element ''PackageLicenseExpression'') t 1) @
       push (test (RAlt (RLit (js ''<PackageLicenseFile>'')) (RLit (js ''<PackageLicenseUrl>''))) t)
         (Conflicting rel (js ''PackageLicenseFile/PackageLicenseUrl'')) @
       checkIncludes rel (map (\<lambda>m. JStr (last (split_on 47 m))) (all_groups PACKED_RE t))
         (js ''the packed <None> items''))))"

subsection \<open>Packagist\<close>

text \<open>The prefixes of the path, and whether \<open>git check-attr\<close> reports one of them as set.\<close>

definition EXPORT_IGNORE_RE :: regex where \<comment> \<open>\<open>/:\s*export-ignore:\s*set\s*$/\<close>\<close>
  "EXPORT_IGNORE_RE = RSeqs [RLit (js '':''), RSpaces, RLit (js ''export-ignore:''), RSpaces, RLit (js ''set''),
     RSpaces, REol False]"

definition attr_candidates :: "jsstring \<Rightarrow> jsstring list" where
  "attr_candidates path = (let parts = split_on 47 path in
     map (\<lambda>i. join_with (js ''/'') (take (i + 1) parts)) [0..<length parts])"

definition exportIgnored :: "licence_world \<Rightarrow> jsstring \<Rightarrow> js_exn + bool" where
  "exportIgnored w path =
     (case lw_attr w (attr_candidates path) of
        None \<Rightarrow> Inl FileError
      | Some out \<Rightarrow> Inr (list_ex (test EXPORT_IGNORE_RE) (lines out)))"

text \<open>\<open>(json.archive?.exclude ?? []).some(...)\<close>: only an array has \<open>some\<close>.\<close>

definition LICENCE_WORD_RE :: regex where \<comment> \<open>\<open>/licen[cs]e/i\<close>\<close>
  "LICENCE_WORD_RE = LICENCE_I"

definition archive_problems :: "json \<Rightarrow> licence_result" where
  "archive_problems j =
     (case non_nullish (get_opt (non_nullish (get j (js ''archive''))) (js ''exclude'')) of
        None \<Rightarrow> Inr []
      | Some (JArr es) \<Rightarrow> Inr (push (list_ex (\<lambda>e. test LICENCE_WORD_RE (json_text e)) es) ArchiveExcludes)
      | Some _ \<Rightarrow> Inl TypeError)"

definition composer_problems :: "licence_world \<Rightarrow> licence_result" where
  "composer_problems w =
     (case lw_composer w of
        None \<Rightarrow> Inl FileError
      | Some out \<Rightarrow>
          let manifests = filter (\<lambda>s. s \<noteq> []) (lines out)
          in Inr (push (manifests \<noteq> [js ''composer.json'']) (ComposerFiles manifests)))"

definition attributes_problems :: "licence_world \<Rightarrow> licence_result" where
  "attributes_problems w =
     (if \<not> lw_exists w (js ''.gitattributes'') then Inr [NoGitattributes]
      else each (\<lambda>p. map_sum id (\<lambda>b. push b (ExportIgnored p)) (exportIgnored w p))
        [js ''LICENSE'', js ''packages/php/LICENSE''])"

definition check_php :: "licence_world \<Rightarrow> licence_result" where
  "check_php w = (let rel = js ''composer.json'' in
     with_manifest w rel (\<lambda>t. with_json rel t (\<lambda>j.
       let l = get j (js ''license'') in
       both (Inr (push (l \<noteq> Some (JStr SPDX)) (WrongJsonLicence rel l)))
       (both (archive_problems j)
       (both (composer_problems w) (attributes_problems w))))))"

subsection \<open>RubyGems\<close>

definition quote_char :: "cu \<Rightarrow> bool" where "quote_char c \<longleftrightarrow> c = 34 \<or> c = 39"

definition GEM_LICENSE_RE :: regex where \<comment> \<open>\<open>/spec\.license\s*=\s*['"]([^'"]+)['"]/\<close>\<close>
  "GEM_LICENSE_RE = RSeqs [RLit (js ''spec.license''), RSpaces, RLit (js ''=''), RSpaces, RChar quote_char,
     RGroup 1 (RPlus True (RChar (\<lambda>c. \<not> quote_char c))), RChar quote_char]"

definition GEM_FILES_RE :: regex where \<comment> \<open>\<open>/spec\.files\s*=\s*Dir\[([\s\S]*?)\]/\<close>\<close>
  "GEM_FILES_RE = RSeqs [RLit (js ''spec.files''), RSpaces, RLit (js ''=''), RSpaces, RLit (js ''Dir[''),
     RGroup 1 (RStar False RAny), RLit (js '']'')]"

definition check_ruby :: "licence_world \<Rightarrow> licence_result" where
  "check_ruby w = (let rel = js ''packages/ruby/nebula-token.gemspec'' in
     with_manifest w rel (\<lambda>t. Inr (
       push (test (RSeqs [RLit (js ''spec.licenses''), RSpaces, RLit (js ''='')]) t) (Conflicting rel (js ''spec.licenses'')) @
       declares rel ''spec.license'' (match_group GEM_LICENSE_RE t 1) @
       allow_list rel ''spec.files'' rubyList (match_group GEM_FILES_RE t 1))))"

subsection \<open>Hex, pub.dev and Go\<close>

definition HEX_LICENSES_RE :: regex where \<comment> \<open>\<open>/licenses:\s*\[([^\]]*)\]/\<close>\<close>
  "HEX_LICENSES_RE = RSeqs [RLit (js ''licenses:''), RSpaces, RLit (js ''[''),
     RGroup 1 (RStar True (RChar (\<lambda>c. c \<noteq> 93))), RLit (js '']'')]"

definition HEX_FILES_RE :: regex where \<comment> \<open>\<open>/files:\s*\[([\s\S]*?)\]/\<close>\<close>
  "HEX_FILES_RE = RSeqs [RLit (js ''files:''), RSpaces, RLit (js ''[''), RGroup 1 (RStar False RAny), RLit (js '']'')]"

definition check_elixir :: "licence_world \<Rightarrow> licence_result" where
  "check_elixir w = (let rel = js ''packages/elixir/mix.exs'' in
     with_manifest w rel (\<lambda>t.
       let declared = (case match_group HEX_LICENSES_RE t 1 of None \<Rightarrow> [] | Some raw \<Rightarrow> rubyList raw) in Inr (
       push (declared \<noteq> [SPDX]) (WrongList rel declared) @
       allow_list rel ''files'' rubyList (match_group HEX_FILES_RE t 1))))"

definition DART_KEY_RE :: regex where \<comment> \<open>\<open>/^licen[cs]e\s*:/m\<close>\<close>
  "DART_KEY_RE = RSeqs [RBol True, RLit (js ''licen''), RChar (one_of ''cs''), RLit (js ''e''), RSpaces, RLit (js '':'')]"

definition check_dart :: "licence_world \<Rightarrow> licence_result" where
  "check_dart w = (let rel = js ''packages/dart/pubspec.yaml'' in
     with_manifest w rel (\<lambda>t. Inr (push (test DART_KEY_RE t) (Conflicting rel (js ''licence key'')))))"

text \<open>\<open>CHECKS[pkg]\<close>; Go has no licence field, so its checker finds nothing.\<close>

definition CHECKS :: "(jsstring \<times> (licence_world \<Rightarrow> licence_result)) list" where
  "CHECKS = [(js ''typescript'', check_typescript), (js ''python'', check_python), (js ''rust'', check_rust),
     (js ''java'', check_java), (js ''csharp'', check_csharp), (js ''php'', check_php), (js ''ruby'', check_ruby),
     (js ''elixir'', check_elixir), (js ''dart'', check_dart), (js ''go'', \<lambda>_. Inr [])]"

definition manifests_result :: "licence_world \<Rightarrow> licence_result" where
  "manifests_result w = each (\<lambda>pkg. the (map_of CHECKS pkg) w) LICENCE_PACKAGES"

section \<open>4b. Lockfiles\<close>

definition LOCK_FILES :: "jsstring list" where
  "LOCK_FILES = js ''package-lock.json'' # js ''scripts/package-lock.json'' #
     map (\<lambda>p. package_dir p @ js ''/package-lock.json'') LICENCE_PACKAGES"

text \<open>The root entry \<open>json.packages?.[""]\<close>; reading \<open>license\<close> of a \<open>null\<close> entry throws.\<close>

definition lock_root :: "json \<Rightarrow> json option" where
  "lock_root j = get_opt (non_nullish (get j (js ''packages''))) []"

definition lock_problems :: "licence_world \<Rightarrow> jsstring \<Rightarrow> licence_result" where
  "lock_problems w rel =
     (if \<not> lw_exists w rel then Inr []
      else and_then (lw_read w rel) (\<lambda>t. with_json rel t (\<lambda>j.
        case lock_root j of
          None \<Rightarrow> Inr [LockWithoutRoot rel]
        | Some entry \<Rightarrow>
            if entry = JNull then Inl TypeError
            else Inr (push (get entry (js ''license'') \<noteq> Some (JStr SPDX))
              (WrongJsonLicence rel (get entry (js ''license'')))))))"

section \<open>5. Prose\<close>

definition PROSE :: "jsstring list" where
  "PROSE = map js [''README.md'', ''CONTRIBUTING.md'', ''GOVERNANCE.md'', ''CITATION.cff'', ''SECURITY.md'',
     ''COMPATIBILITY.md'', ''VERSIONING.md'', ''RELEASING.md'', ''SUPPORT.md'', ''CHANGELOG.md'',
     ''docs/COMPLIANCE.md'', ''docs/paper/nebula.tex'',
     ''.github/CODEOWNERS'', ''.github/workflows/ci.yml'', ''scripts/package.json''] @
     map (\<lambda>p. package_dir p @ js ''/README.md'') LICENCE_PACKAGES"

definition FORBIDDEN_PROSE :: "regex list" where
  \<comment> \<open>\<open>/\bApache-2\.0 OR MIT\b/\<close>, \<open>/\bLICENSE-(MIT|APACHE)\b/\<close>, \<open>/dual[- ]licen[cs]/i\<close>, \<open>/\bMIT\b/\<close>\<close>
  "FORBIDDEN_PROSE = [
     RSeqs [RWordBoundary, RLit (js ''Apache-2.0 OR MIT''), RWordBoundary],
     RSeqs [RWordBoundary, RLit (js ''LICENSE-''), RGroup 1 (RAlt (RLit (js ''MIT'')) (RLit (js ''APACHE''))), RWordBoundary],
     DUAL_RE, MIT_RE]"

text \<open>The problem names the line and which of the four patterns matched what.\<close>

definition prose_problems :: "licence_world \<Rightarrow> jsstring \<Rightarrow> licence_result" where
  "prose_problems w rel =
     (if \<not> lw_exists w rel then Inr [ProseMissing rel]
      else map_sum id (\<lambda>t. concat (map (\<lambda>(re, k).
          case exec re t of
            None \<Rightarrow> []
          | Some m \<Rightarrow> [ProseMentions rel (length (lines (take (m_index m) t))) k (m_text m)])
        (zip FORBIDDEN_PROSE [0..<length FORBIDDEN_PROSE]))) (lw_read w rel))"

section \<open>The script\<close>

datatype licence_outcome =
    RootMissing | LicencesThrew js_exn | LicencesFailed "licence_problem list" | LicencesOk

definition licences_result :: "licence_world \<Rightarrow> licence_result" where
  "licences_result w =
     and_then (lw_read w LICENCE_FILE) (\<lambda>rootText.
     and_then (lw_sha w LICENCE_FILE) (\<lambda>rootHash.
       both (Inr (root_problems rootText))
       (both (each (copy_problems w rootHash) LICENCE_PACKAGES)
       (both (and_then (lw_readdir w []) (each (extra_problems w [])))
       (both (manifests_result w)
       (both (each (lock_problems w) LOCK_FILES)
             (each (prose_problems w) PROSE)))))))"

definition licences_main :: "licence_world \<Rightarrow> licence_outcome" where
  "licences_main w =
     (if \<not> lw_exists w LICENCE_FILE then RootMissing
      else case licences_result w of
        Inl e \<Rightarrow> LicencesThrew e
      | Inr ps \<Rightarrow> if ps \<noteq> [] then LicencesFailed ps else LicencesOk)"

fun licences_exit :: "licence_outcome \<Rightarrow> int" where
  "licences_exit LicencesOk = 0"
| "licences_exit _ = 1"

end
