(* ===== verification/Licenses_Check.thy ===== *)
theory Licenses_Check
  imports Check_Licenses
begin

text \<open>
  What \<open>scripts/check-licenses.mjs\<close> guarantees: it passes exactly when the repository carries one
  licence (\<open>one_licence\<close>): the Apache-2.0 text at the root, one copy of it per package, and manifests,
  lockfiles and prose that say so. \<open>text_at\<close> and \<open>ships\<close> are the vocabulary of that statement.
\<close>

section \<open>Vocabulary\<close>




























section \<open>The pieces\<close>
































section \<open>The verdict\<close>


text \<open>
  A comment on a line of its own stays glued to the entry behind it: without the \<open>m\<close> flag the pattern for the
  tail of a line matches at the end of the text only. The item is \<open>#\<close>, a line end and \<open>L\<close>.
\<close>

lemma comment_line_hides_entry: "tomlList [35, 10, 76] = [[35, 10, 76]]"
  by code_simp

end
