(* ===== verification/Check_Marketplace.thy ===== *)
theory Check_Marketplace
  imports Check_Links
begin

text \<open>
  \<open>scripts/check-marketplace.mjs\<close>: the plugin manifest \<open>.claude-plugin/marketplace.json\<close> and the tree
  describe the same skills, and the documented install commands name them. The manifest is any JSON
  value; the file system is that of \<open>Check_Links\<close>; the three \<open>git\<close> commands are their results.
\<close>

section \<open>The world\<close>

record market_world =
  mw_fs :: file_system
  mw_home :: fs_path
  mw_ignored :: bool \<comment> \<open>\<open>git check-ignore\<close> found a rule for the manifest\<close>
  mw_skills :: "jsstring option" \<comment> \<open>\<open>git ls-files -- *SKILL.md\<close>; \<open>None\<close> when it failed\<close>
  mw_docs :: "jsstring option" \<comment> \<open>\<open>git ls-files -- *.md\<close>\<close>

definition MANIFEST :: jsstring where
  "MANIFEST = js ''.claude-plugin/marketplace.json''"

definition EXPECTED_PLUGINS :: nat where "EXPECTED_PLUGINS = 10"

definition SCHEMA_URL :: jsstring where
  "SCHEMA_URL = js ''https://json.schemastore.org/claude-code-marketplace.json''"

definition SOURCE_SLUG :: jsstring where "SOURCE_SLUG = js ''nebula-token/nebula-token''"

text \<open>\<open>abs\<close> joins the segments of a relative path to the root.\<close>

definition market_node :: "market_world \<Rightarrow> jsstring \<Rightarrow> fs_node option" where
  "market_node w rel = mw_fs w (join_path (mw_home w) rel)"

definition isDir :: "market_world \<Rightarrow> jsstring \<Rightarrow> bool" where
  "isDir w rel \<longleftrightarrow> market_node w rel = Some DirNode"

definition isFile :: "market_world \<Rightarrow> jsstring \<Rightarrow> bool" where
  "isFile w rel \<longleftrightarrow> (\<exists>t. market_node w rel = Some (FileNode t))"

lemma isFile_code [code]:
  "isFile w rel = (case market_node w rel of Some (FileNode _) \<Rightarrow> True | _ \<Rightarrow> False)"
  by (auto simp: isFile_def split: option.splits fs_node.splits)

definition market_read :: "market_world \<Rightarrow> jsstring \<Rightarrow> js_exn + jsstring" where
  "market_read w rel = (case market_node w rel of Some (FileNode (Some t)) \<Rightarrow> Inr t | _ \<Rightarrow> Inl FileError)"

section \<open>\<open>posix.normalize\<close> and \<open>posix.join\<close>\<close>

fun posix_segs :: "bool \<Rightarrow> jsstring list \<Rightarrow> jsstring list \<Rightarrow> jsstring list" where
  "posix_segs up acc [] = acc"
| "posix_segs up acc (s # ss) =
     (if s = [] \<or> s = js ''.'' then posix_segs up acc ss
      else if s = js ''..'' then
        (if acc \<noteq> [] \<and> last acc \<noteq> js ''..'' then posix_segs up (butlast acc) ss
         else if up then posix_segs up (acc @ [s]) ss
         else posix_segs up acc ss)
      else posix_segs up (acc @ [s]) ss)"

definition posix_normalize :: "jsstring \<Rightarrow> jsstring" where
  "posix_normalize p =
     (if p = [] then js ''.''
      else
        let absolute = startsWith p (js ''/''); trailing = endsWith p (js ''/'');
            path = join_with (js ''/'') (posix_segs (\<not> absolute) [] (split_on 47 p));
            path = (if path = [] \<and> \<not> absolute then js ''.'' else path);
            path = (if path \<noteq> [] \<and> trailing then path @ js ''/'' else path)
        in if absolute then js ''/'' @ path else path)"

definition posix_join :: "jsstring list \<Rightarrow> jsstring" where
  "posix_join ps = posix_normalize (join_with (js ''/'') (filter (\<lambda>p. p \<noteq> []) ps))"

section \<open>Problems\<close>

datatype market_problem =
    ManifestIgnored
  | SchemaUrl
  | MarketName
  | OwnerNotObject
  | OwnerName
  | PluginCount nat
  | PluginRoot
  | EntryName nat
  | DuplicateName nat jsstring
  | NeedsDescription jsstring
  | CarriesVersion jsstring
  | BadSource jsstring
  | SourceMissing jsstring jsstring
  | NotStrictFalse jsstring
  | PluginJsonExists jsstring
  | NoSkill jsstring jsstring
  | NoFrontmatter jsstring
  | NameDiffers jsstring "jsstring option"
  | NotCanonical jsstring
  | Unclaimed jsstring
  | UnknownPlugin jsstring jsstring
  | WrongMarketplace jsstring jsstring
  | UnknownSkill jsstring jsstring
  | ForeignSource jsstring jsstring
  | PublishesAll jsstring jsstring

section \<open>1. The manifest itself\<close>

definition kebab_char :: "cu \<Rightarrow> bool" where
  "kebab_char c \<longleftrightarrow> (97 \<le> c \<and> c \<le> 122) \<or> is_digit c"

definition KEBAB_RE :: regex where \<comment> \<open>\<open>/^[a-z0-9]+(-[a-z0-9]+)*$/\<close>\<close>
  "KEBAB_RE = RSeqs [RBol False, RPlus True (RChar kebab_char),
     RStar True (RGroup 1 (RSeq (RLit (js ''-'')) (RPlus True (RChar kebab_char)))), REol False]"

fun kebab :: "json option \<Rightarrow> bool" where
  "kebab (Some (JStr s)) = test KEBAB_RE s"
| "kebab _ = False"

definition owner_problems :: "json \<Rightarrow> market_problem list" where
  "owner_problems j =
     (case get j (js ''owner'') of
        Some (JObj ps) \<Rightarrow>
          (case map_of ps (js ''name'') of
             Some (JStr s) \<Rightarrow> push (trim s = []) OwnerName
           | _ \<Rightarrow> [OwnerName])
      | _ \<Rightarrow> [OwnerNotObject])"

text \<open>\<open>pluginRoot\<close>, and the problem when it is unusable.\<close>

definition TRAILING_SLASH_RE :: regex where \<comment> \<open>\<open>/\/$/\<close>\<close>
  "TRAILING_SLASH_RE = RSeq (RLit (js ''/'')) (REol False)"

definition drop_slash :: "jsstring \<Rightarrow> jsstring" where
  "drop_slash s = replaceFirst TRAILING_SLASH_RE (\<lambda>_. []) s"

definition plugin_root :: "json \<Rightarrow> market_problem list \<times> jsstring" where
  "plugin_root j =
     (case get_opt (non_nullish (get j (js ''metadata''))) (js ''pluginRoot'') of
        None \<Rightarrow> ([], [])
      | Some (JStr pr) \<Rightarrow>
          if startsWith pr (js ''./'') then ([], drop_slash (drop 2 pr)) else ([PluginRoot], [])
      | Some _ \<Rightarrow> ([PluginRoot], []))"

fun resolveSource :: "jsstring \<Rightarrow> json option \<Rightarrow> jsstring option" where
  "resolveSource pluginRoot (Some (JStr source)) =
     (if \<not> startsWith source (js ''./'') then None
      else
        let joined = posix_normalize (posix_join [pluginRoot, drop 2 source])
        in if joined = js ''..'' \<or> startsWith joined (js ''../'') then None else Some (drop_slash joined))"
| "resolveSource pluginRoot _ = None"

section \<open>2. Every entry has a skill\<close>

definition FRONT_RE :: regex where \<comment> \<open>\<open>/^---\r?\n([\s\S]*?)\r?\n---/\<close>\<close>
  "FRONT_RE = (let nl = RSeq (ROpt (RLit [13])) (RLit [10]) in
     RSeqs [RBol False, RLit (js ''---''), nl, RGroup 1 (RStar False RAny), nl, RLit (js ''---'')])"

definition NAME_RE :: regex where \<comment> \<open>\<open>/^name:\s*(\S+)\s*$/m\<close>\<close>
  "NAME_RE = RSeqs [RBol True, RLit (js ''name:''), RSpaces, RGroup 1 (RPlus True (RChar (\<lambda>c. \<not> is_space c))),
     RSpaces, REol True]"

record plugin_state =
  ps_names :: "jsstring list"
  ps_claimed :: "jsstring list" \<comment> \<open>the keys \<open>source::name\<close>\<close>
  ps_problems :: "market_problem list"

definition claim_key :: "jsstring \<Rightarrow> jsstring \<Rightarrow> jsstring" where
  "claim_key dir name = dir @ js ''::'' @ name"

definition skill_md :: "jsstring \<Rightarrow> jsstring \<Rightarrow> jsstring" where
  "skill_md dir name = dir @ js ''/skills/'' @ name @ js ''/SKILL.md''"

fun long_description :: "json option \<Rightarrow> bool" where
  "long_description (Some (JStr s)) = (20 \<le> length (trim s))"
| "long_description _ = False"

definition skill_problems :: "market_world \<Rightarrow> jsstring \<Rightarrow> jsstring \<Rightarrow> js_exn + market_problem list" where
  "skill_problems w dir name =
     (let md = skill_md dir name in
      if \<not> isFile w md then Inr [NoSkill name md]
      else map_sum id (\<lambda>t.
        case match_group FRONT_RE t 1 of
          None \<Rightarrow> [NoFrontmatter md]
        | Some front \<Rightarrow>
            let declared = match_group NAME_RE front 1
            in push (declared \<noteq> Some name) (NameDiffers md declared))
        (market_read w md))"

definition check_plugin ::
  "market_world \<Rightarrow> jsstring \<Rightarrow> nat \<Rightarrow> json \<Rightarrow> plugin_state \<Rightarrow> js_exn + plugin_state" where
  "check_plugin w pluginRoot i plugin st =
     (let add = (\<lambda>ps st. st\<lparr>ps_problems := ps_problems st @ ps\<rparr>) in
      case get plugin (js ''name'') of
        Some (JStr name) \<Rightarrow>
          if \<not> test KEBAB_RE name then Inr (add [EntryName i] st)
          else if name \<in> set (ps_names st) then Inr (add [DuplicateName i name] st)
          else
            let st = st\<lparr>ps_names := ps_names st @ [name]\<rparr>;
                st = add (push (\<not> long_description (get plugin (js ''description''))) (NeedsDescription name) @
                       push (get plugin (js ''version'') \<noteq> None) (CarriesVersion name)) st
            in (case resolveSource pluginRoot (get plugin (js ''source'')) of
                  None \<Rightarrow> Inr (add [BadSource name] st)
                | Some dir \<Rightarrow>
                    if \<not> isDir w dir then Inr (add [SourceMissing name dir] st)
                    else
                      let st = add (push (get plugin (js ''strict'') \<noteq> Some (JBool False)) (NotStrictFalse name) @
                             push (isFile w (dir @ js ''/.claude-plugin/plugin.json'')) (PluginJsonExists name)) st;
                          st = st\<lparr>ps_claimed := ps_claimed st @ [claim_key dir name]\<rparr>
                      in map_sum id (\<lambda>ps. add ps st) (skill_problems w dir name))
      | _ \<Rightarrow> Inr (add [EntryName i] st))"

fun check_plugins ::
  "market_world \<Rightarrow> jsstring \<Rightarrow> nat \<Rightarrow> json list \<Rightarrow> plugin_state \<Rightarrow> js_exn + plugin_state" where
  "check_plugins w pluginRoot i [] st = Inr st"
| "check_plugins w pluginRoot i (p # ps) st =
     and_then (check_plugin w pluginRoot i p st) (check_plugins w pluginRoot (Suc i) ps)"

section \<open>3. Every skill has an entry\<close>

definition listed_files :: "market_world \<Rightarrow> jsstring \<Rightarrow> jsstring list" where
  "listed_files w out = filter (isFile w) (filter (\<lambda>f. f \<noteq> []) (map trim (lines out)))"

definition SKILL_PATH_RE :: regex where \<comment> \<open>\<open>/^(.*)\/skills\/([^/]+)\/SKILL\.md$/\<close>\<close>
  "SKILL_PATH_RE = RSeqs [RBol False, RGroup 1 (RStar True RDot), RLit (js ''/skills/''),
     RGroup 2 (RPlus True (RChar (\<lambda>c. c \<noteq> 47))), RLit (js ''/SKILL.md''), REol False]"

definition tracked_problems :: "jsstring list \<Rightarrow> jsstring \<Rightarrow> market_problem list" where
  "tracked_problems claimed rel =
     (case exec SKILL_PATH_RE rel of
        None \<Rightarrow> [NotCanonical rel]
      | Some m \<Rightarrow> push (claim_key (the (group m 1)) (the (group m 2)) \<notin> set claimed) (Unclaimed rel))"

section \<open>4. The documented install lines\<close>

definition ident_char :: "cu \<Rightarrow> bool" where \<comment> \<open>\<open>[A-Za-z0-9._-]\<close>\<close>
  "ident_char c \<longleftrightarrow> (97 \<le> c \<and> c \<le> 122) \<or> (65 \<le> c \<and> c \<le> 90) \<or> is_digit c \<or> one_of ''._-'' c"

definition INSTALL_RE :: regex where
  \<comment> \<open>\<open>/(\/plugin|claude\s+plugin)\s+install\s+([A-Za-z0-9._-]+)@([A-Za-z0-9._-]+)/g\<close>\<close>
  "INSTALL_RE = RSeqs [
     RGroup 1 (RAlt (RLit (js ''/plugin'')) (RSeqs [RLit (js ''claude''), RPlus True (RChar is_space), RLit (js ''plugin'')])),
     RPlus True (RChar is_space), RLit (js ''install''), RPlus True (RChar is_space),
     RGroup 2 (RPlus True (RChar ident_char)), RLit (js ''@''), RGroup 3 (RPlus True (RChar ident_char))]"

definition blanks :: regex where "blanks = RPlus True (RLit (js '' ''))"

definition ADD_LINE_RE :: regex where \<comment> \<open>\<open>/^[ \t>]*(?:npx +)?skills +add +[^\n]*/gm\<close>\<close>
  "ADD_LINE_RE = RSeqs [RBol True, RStar True (RChar (\<lambda>c. c = 32 \<or> c = 9 \<or> c = 62)),
     ROpt (RSeq (RLit (js ''npx'')) blanks), RLit (js ''skills''), blanks, RLit (js ''add''), blanks,
     RStar True (RChar (\<lambda>c. c \<noteq> 10))]"

definition SKILL_ARG_RE :: regex where \<comment> \<open>\<open>/--skill +['"]?([A-Za-z0-9._-]+)/\<close>\<close>
  "SKILL_ARG_RE = RSeqs [RLit (js ''--skill''), blanks, ROpt (RChar (\<lambda>c. c = 39 \<or> c = 34)),
     RGroup 1 (RPlus True (RChar ident_char))]"

definition ADD_SOURCE_RE :: regex where \<comment> \<open>\<open>/skills +add +(\S+)/\<close>\<close>
  "ADD_SOURCE_RE = RSeqs [RLit (js ''skills''), blanks, RLit (js ''add''), blanks,
     RGroup 1 (RPlus True (RChar (\<lambda>c. \<not> is_space c)))]"

definition ALL_RE :: regex where \<comment> \<open>\<open>/[ \t]--all\b/\<close>\<close>
  "ALL_RE = RSeqs [RChar (\<lambda>c. c = 32 \<or> c = 9), RLit (js ''--all''), RWordBoundary]"

definition install_problems :: "jsstring list \<Rightarrow> json option \<Rightarrow> jsstring \<Rightarrow> jsstring \<Rightarrow> market_problem list" where
  "install_problems names marketplaceName rel txt = concat (map (\<lambda>m.
     let plugin = the (group m 2); market = the (group m 3) in
     push (plugin \<notin> set names) (UnknownPlugin rel plugin) @
     push (marketplaceName \<noteq> Some (JStr market)) (WrongMarketplace rel market)) (matchAll INSTALL_RE txt))"

definition add_problems :: "jsstring list \<Rightarrow> jsstring \<Rightarrow> jsstring \<Rightarrow> market_problem list" where
  "add_problems names rel txt = concat (map (\<lambda>m.
     let cmd = trim (m_text m) in
     (case match_group SKILL_ARG_RE cmd 1 of
        None \<Rightarrow> [] | Some name \<Rightarrow> push (name \<notin> set names) (UnknownSkill rel name)) @
     (case match_group ADD_SOURCE_RE cmd 1 of
        None \<Rightarrow> []
      | Some source \<Rightarrow> push (\<not> startsWith source (js ''.'') \<and> \<not> startsWith source (js ''/'') \<and> source \<noteq> SOURCE_SLUG)
          (ForeignSource rel source)) @
     push (test ALL_RE cmd) (PublishesAll rel cmd)) (matchAll ADD_LINE_RE txt))"

definition doc_problems ::
  "market_world \<Rightarrow> jsstring list \<Rightarrow> json option \<Rightarrow> jsstring \<Rightarrow> js_exn + market_problem list" where
  "doc_problems w names marketplaceName rel =
     map_sum id (\<lambda>txt. install_problems names marketplaceName rel txt @ add_problems names rel txt) (market_read w rel)"

section \<open>The script\<close>

datatype market_outcome =
    MarketMissing | MarketNotJson | NoPluginsArray | MarketGitFailed | MarketThrew js_exn
  | MarketFailed "market_problem list" | MarketOk nat nat

definition head_problems :: "market_world \<Rightarrow> json \<Rightarrow> market_problem list" where
  "head_problems w j =
     push (mw_ignored w) ManifestIgnored @
     push (get j (js ''$schema'') \<noteq> Some (JStr SCHEMA_URL)) SchemaUrl @
     push (\<not> kebab (get j (js ''name''))) MarketName @ owner_problems j"

definition first_problems :: "market_world \<Rightarrow> json \<Rightarrow> json list \<Rightarrow> market_problem list" where
  "first_problems w j plugins = head_problems w j @
     push (length plugins \<noteq> EXPECTED_PLUGINS) (PluginCount (length plugins)) @ fst (plugin_root j)"

definition market_docs :: "market_world \<Rightarrow> jsstring list" where
  "market_docs w = (case mw_docs w of None \<Rightarrow> [] | Some out \<Rightarrow> listed_files w out)"

definition market_report :: "market_world \<Rightarrow> json \<Rightarrow> json list \<Rightarrow> plugin_state \<Rightarrow> market_outcome" where
  "market_report w j plugins st =
     (case mw_skills w of
        None \<Rightarrow> MarketGitFailed
      | Some out \<Rightarrow>
          (case traverse (doc_problems w (ps_names st) (get j (js ''name''))) (market_docs w) of
             Inl e \<Rightarrow> MarketThrew e
           | Inr pss \<Rightarrow>
               let tracked = listed_files w out;
                   ps = ps_problems st @ concat (map (tracked_problems (ps_claimed st)) tracked) @ concat pss
               in if ps \<noteq> [] then MarketFailed ps else MarketOk (length plugins) (length tracked)))"

definition market_body :: "market_world \<Rightarrow> json \<Rightarrow> json list \<Rightarrow> market_outcome" where
  "market_body w j plugins =
     (case check_plugins w (snd (plugin_root j)) 0 plugins
         \<lparr>ps_names = [], ps_claimed = [], ps_problems = first_problems w j plugins\<rparr> of
        Inl e \<Rightarrow> MarketThrew e
      | Inr st \<Rightarrow> market_report w j plugins st)"

definition market_main :: "market_world \<Rightarrow> market_outcome" where
  "market_main w =
     (if \<not> isFile w MANIFEST then MarketMissing
      else case market_read w MANIFEST of
        Inl e \<Rightarrow> MarketThrew e
      | Inr raw \<Rightarrow>
          (case json_parse raw of
             None \<Rightarrow> MarketNotJson
           | Some j \<Rightarrow>
               if j = JNull then MarketThrew TypeError
               else (case get j (js ''plugins'') of
                 Some (JArr plugins) \<Rightarrow> market_body w j plugins
               | _ \<Rightarrow> NoPluginsArray)))"

fun market_exit :: "market_outcome \<Rightarrow> int" where
  "market_exit (MarketOk _ _) = 0"
| "market_exit MarketGitFailed = 2"
| "market_exit _ = 1"

end
