(* ===== verification/Market_Check.thy ===== *)
theory Market_Check
  imports Check_Marketplace
begin

text \<open>
  What \<open>scripts/check-marketplace.mjs\<close> guarantees: it passes exactly when the manifest and the tree
  describe the same skills (\<open>marketplace_coherent\<close>): every entry has its skill, every skill that \<open>git\<close>
  lists has its entry, and the documented commands name both. A source never leaves the repository.
\<close>

section \<open>Entries\<close>



definition entered :: "(jsstring \<times> jsstring) list \<Rightarrow> plugin_state \<Rightarrow> plugin_state" where
  "entered nds st = st\<lparr>ps_names := ps_names st @ map fst nds,
     ps_claimed := ps_claimed st @ map (\<lambda>(n, d). claim_key d n) nds\<rparr>"






lemma entered_simps [simp]:
  "entered [] st = st" "entered nds (entered mds st) = entered (mds @ nds) st"
  "ps_problems (entered nds st) = ps_problems st" "ps_names (entered nds st) = ps_names st @ map fst nds"
  by (simp_all add: entered_def)





section \<open>Listed skills and documented commands\<close>









section \<open>When the script passes\<close>















section \<open>Sources stay inside\<close>

definition climbs :: "jsstring list \<Rightarrow> bool" where
  "climbs ss \<longleftrightarrow> js ''..'' \<in> set ss"

lemma norm_segs_inside: "\<not> climbs ss \<Longrightarrow> \<exists>r. norm_segs acc ss = acc @ r"
proof (induction ss arbitrary: acc)
  case (Cons s ss)
  then have tail: "\<exists>r. norm_segs acc' ss = acc' @ r" for acc' by (simp add: climbs_def)
  have s: "s \<noteq> js ''..''" using Cons.prems by (auto simp: climbs_def)
  obtain r where "norm_segs (acc @ [s]) ss = (acc @ [s]) @ r" using tail by blast
  then show ?case using tail [of acc] s by simp
qed simp

text \<open>A normal form climbs only at its start, and not at all when it is absolute.\<close>

definition normal_segs :: "bool \<Rightarrow> jsstring list \<Rightarrow> bool" where
  "normal_segs up ss \<longleftrightarrow> (\<exists>k r. ss = replicate k (js ''..'') @ r \<and> \<not> climbs r \<and> (\<not> up \<longrightarrow> k = 0))"

lemma normal_segs_step:
  assumes "normal_segs up acc"
  shows "s \<noteq> js ''..'' \<Longrightarrow> normal_segs up (acc @ [s])"
    and "acc \<noteq> [] \<Longrightarrow> last acc \<noteq> js ''..'' \<Longrightarrow> normal_segs up (butlast acc)"
    and "up \<Longrightarrow> acc = [] \<or> last acc = js ''..'' \<Longrightarrow> normal_segs up (acc @ [js ''..''])"
proof -
  obtain k r where a: "acc = replicate k (js ''..'') @ r" "\<not> climbs r" "\<not> up \<longrightarrow> k = 0"
    using assms by (auto simp: normal_segs_def)
  show "normal_segs up (acc @ [s])" if "s \<noteq> js ''..''"
    unfolding normal_segs_def using a that by (intro exI [of _ k] exI [of _ "r @ [s]"]) (auto simp: climbs_def)
  show "normal_segs up (butlast acc)" if "acc \<noteq> []" "last acc \<noteq> js ''..''"
  proof -
    have "r \<noteq> []" using a that by (cases k rule: nat.exhaust) (auto simp: last_replicate replicate_append_same [symmetric])
    then show ?thesis unfolding normal_segs_def using a
      by (intro exI [of _ k] exI [of _ "butlast r"]) (auto simp: climbs_def butlast_append dest: in_set_butlastD)
  qed
  show "normal_segs up (acc @ [js ''..''])" if "up" "acc = [] \<or> last acc = js ''..''"
  proof -
    have "r = []" using a that(2) by (cases r rule: rev_cases) (auto simp: climbs_def)
    then show ?thesis unfolding normal_segs_def using a that(1)
      by (intro exI [of _ "Suc k"] exI [of _ "[]"]) (simp add: climbs_def replicate_append_same)
  qed
qed

text \<open>What the start and the three steps keep, the normal form keeps.\<close>

lemma posix_segs_keeps:
  assumes "\<And>acc s. I acc \<Longrightarrow> s \<in> S \<Longrightarrow> s \<noteq> js ''..'' \<Longrightarrow> I (acc @ [s])"
    and "\<And>acc. I acc \<Longrightarrow> acc \<noteq> [] \<Longrightarrow> last acc \<noteq> js ''..'' \<Longrightarrow> I (butlast acc)"
    and "\<And>acc. I acc \<Longrightarrow> up \<Longrightarrow> acc = [] \<or> last acc = js ''..'' \<Longrightarrow> I (acc @ [js ''..''])"
  shows "I acc \<Longrightarrow> set ss \<subseteq> S \<Longrightarrow> I (posix_segs up acc ss)"
proof (induction ss arbitrary: acc)
  case (Cons s ss)
  then have ss: "set ss \<subseteq> S" "s \<in> S" by auto
  consider "s = [] \<or> s = js ''.''" | "s = js ''..''" "s \<noteq> js ''.''" "s \<noteq> []" "acc \<noteq> []" "last acc \<noteq> js ''..''"
    | "s = js ''..''" "s \<noteq> js ''.''" "s \<noteq> []" "acc = [] \<or> last acc = js ''..''"
    | "s \<noteq> []" "s \<noteq> js ''.''" "s \<noteq> js ''..''" by blast
  then show ?case
  proof cases
    case 1
    then show ?thesis using Cons.IH [OF Cons.prems(1) ss(1)] by simp
  next
    case 2
    then show ?thesis using Cons.IH [OF assms(2) ss(1)] Cons.prems(1) by simp
  next
    case 3
    then show ?thesis using Cons.IH [OF assms(3) ss(1)] Cons.IH [OF Cons.prems(1) ss(1)] Cons.prems(1)
      by (cases up) auto
  next
    case 4
    then show ?thesis using Cons.IH [OF assms(1) ss(1)] Cons.prems(1) ss(2) by simp
  qed
qed simp

lemma posix_segs_normal: "normal_segs up (posix_segs up [] ss)"
  by (rule posix_segs_keeps [where S = UNIV]) (auto simp: normal_segs_step, simp add: normal_segs_def climbs_def)

lemma posix_segs_no_slash:
  "(\<And>s. s \<in> set ss \<Longrightarrow> 47 \<notin> set s) \<Longrightarrow> s \<in> set (posix_segs up [] ss) \<Longrightarrow> 47 \<notin> set s"
proof -
  assume a: "\<And>s. s \<in> set ss \<Longrightarrow> 47 \<notin> set s" and s: "s \<in> set (posix_segs up [] ss)"
  have "\<forall>s \<in> set (posix_segs up [] ss). 47 \<notin> set s"
    by (rule posix_segs_keeps [where S = "set ss"]) (auto simp: a js_def dest: in_set_butlastD)
  then show ?thesis using s by blast
qed

lemma drop_slash_cases: "drop_slash s = s \<or> s = drop_slash s @ js ''/''"
proof (cases "search_from TRAILING_SLASH_RE [] s")
  case None
  then show ?thesis by (simp add: drop_slash_def replaceFirst_def exec_def)
next
  case (Some x)
  obtain b0 st where x: "x = (b0, st)" by (cases x)
  obtain u v where u: "s = u @ v" "b0 = rev u" and m: "\<exists>sts. rmatch TRAILING_SLASH_RE (b0, v, []) = st # sts"
    using search_from_SomeD [of TRAILING_SLASH_RE "[]" s b0 st] Some x by auto
  then have v: "v = [47]" "st = (47 # b0, [], [])"
    by (auto simp: TRAILING_SLASH_RE_def js_def split: list.splits if_splits)
  then have "drop_slash s = u"
    using Some x u by (simp add: drop_slash_def replaceFirst_def exec_def match_of_def)
  then show ?thesis using u v by (simp add: js_def)
qed

lemma split_on_snoc: "split_on c (s @ [c]) = split_on c s @ [[]]"
proof (induction s)
  case (Cons x s)
  then show ?case by (cases "split_on c s") auto
qed simp

lemma climbs_snoc: "climbs (split_on 47 (s @ js ''/'')) \<longleftrightarrow> climbs (split_on 47 s)"
  by (simp add: js_def [of "''/''"] split_on_snoc climbs_def) (simp add: js_def)

lemma climbs_drop_slash: "climbs (split_on 47 (drop_slash s)) \<Longrightarrow> climbs (split_on 47 s)"
  using drop_slash_cases [of s] climbs_snoc [of "drop_slash s"] by metis

lemma climbs_join:
  assumes "\<And>s. s \<in> set ss \<Longrightarrow> 47 \<notin> set s"
  shows "climbs (split_on 47 (join_with (js ''/'') ss)) \<longleftrightarrow> climbs ss"
proof (cases ss)
  case Nil
  then show ?thesis by (simp add: climbs_def js_def)
next
  case Cons
  then have "split_on 47 (join_with [47] ss) = ss" using assms by (intro split_join) auto
  then show ?thesis by (simp add: js_def [of "''/''"])
qed

lemma posix_normalize_climbs:
  assumes "climbs (split_on 47 (posix_normalize p))"
  shows "posix_normalize p = js ''..'' \<or> startsWith (posix_normalize p) (js ''../'')"
proof (cases "p = []")
  case True
  then show ?thesis using assms by (simp add: posix_normalize_def climbs_def js_def)
next
  case False
  let ?abs = "startsWith p (js ''/'')"
  let ?ss = "posix_segs (\<not> ?abs) [] (split_on 47 p)"
  let ?body = "if join_with (js ''/'') ?ss = [] \<and> \<not> ?abs then js ''.'' else join_with (js ''/'') ?ss"
  let ?tail = "if ?body \<noteq> [] \<and> endsWith p (js ''/'') then js ''/'' else []"
  have n: "posix_normalize p = (if ?abs then js ''/'' else []) @ ?body @ ?tail"
    using False by (simp add: posix_normalize_def Let_def)
  have "climbs (split_on 47 (?body @ ?tail))"
    using assms unfolding n by (auto simp: climbs_def js_def split: if_splits)
  then have b: "climbs (split_on 47 ?body)" using climbs_snoc [of ?body] by (auto split: if_splits)
  have "climbs (split_on 47 (join_with (js ''/'') ?ss))"
  proof (cases "join_with (js ''/'') ?ss = [] \<and> \<not> ?abs")
    case True
    have "climbs (split_on 47 (js ''.''))" using b unfolding if_P [OF True] .
    then show ?thesis by (simp add: climbs_def js_def)
  next
    case False
    then show ?thesis using b by (simp only: if_False)
  qed
  then have c: "climbs ?ss" using climbs_join posix_segs_no_slash split_on_parts by metis
  obtain k r where k: "?ss = replicate k (js ''..'') @ r" "\<not> climbs r" "?abs \<longrightarrow> k = 0"
    using posix_segs_normal [of "\<not> ?abs" "split_on 47 p"] by (auto simp: normal_segs_def)
  then obtain k' where "k = Suc k'" using c by (cases k) (auto simp: climbs_def)
  then obtain rest where ss: "?ss = js ''..'' # rest" "\<not> ?abs" using k by auto
  have "posix_normalize p = join_with (js ''/'') (js ''..'' # rest) @ ?tail"
    unfolding n ss(1) using ss(2) by (cases rest) (auto simp: js_def)
  then show ?thesis by (cases rest) (auto simp: startsWith_def js_def)
qed

text \<open>
  \<^bold>\<open>C39.\<close> Sources stay inside. Whatever \<open>source\<close> an entry gives and whatever \<open>pluginRoot\<close> is prepended, the
  directory that \<open>resolveSource\<close> accepts lies below the repository root.
\<close>

theorem resolveSource_inside:
  "case resolveSource pluginRoot source of
     None \<Rightarrow> True
   | Some dir \<Rightarrow> \<exists>u. join_path home dir = home @ u"
proof (cases "resolveSource pluginRoot source")
  case (Some dir)
  then obtain s where "source = Some (JStr s)"
    by (cases "(pluginRoot, source)" rule: resolveSource.cases) auto
  then obtain p where p: "dir = drop_slash (posix_normalize p)"
    "\<not> (posix_normalize p = js ''..'' \<or> startsWith (posix_normalize p) (js ''../''))"
    using Some by (auto simp: Let_def split: if_splits)
  then have "\<not> climbs (split_on 47 dir)"
    using posix_normalize_climbs climbs_drop_slash by blast
  then show ?thesis using norm_segs_inside Some by (simp add: join_path_def)
qed simp

end
