(* ===== verification/Check_Skills.thy ===== *)
theory Check_Skills
  imports Check_Licenses
begin

text \<open>
  \<open>scripts/check-skills.mjs\<close>: ten agent skills, shipped in installable form. The world is that of the
  licence check with the listing of the skill files: a node at a path relative to the root, the answer of
  \<open>git check-attr\<close>, and the output of \<open>git ls-files\<close>.
\<close>

section \<open>The world\<close>

record skill_world =
  sw_node :: "jsstring \<Rightarrow> licence_node option"
  sw_attr :: "jsstring list \<Rightarrow> jsstring option"
  sw_listed :: "jsstring option" \<comment> \<open>\<open>git ls-files -- *SKILL.md\<close>; \<open>None\<close> when it failed\<close>

definition sw_exists :: "skill_world \<Rightarrow> jsstring \<Rightarrow> bool" where
  "sw_exists w p \<longleftrightarrow> sw_node w p \<noteq> None"

definition sw_read :: "skill_world \<Rightarrow> jsstring \<Rightarrow> js_exn + jsstring" where
  "sw_read w p = (case sw_node w p of Some (LFile _ t) \<Rightarrow> Inr t | _ \<Rightarrow> Inl FileError)"

datatype skill_problem =
    SManifestMissing jsstring
  | OutsideLayout jsstring
  | SkillMissing jsstring
  | SkillNoFrontmatter jsstring
  | SkillName jsstring "jsstring option"
  | SkillDirectory jsstring jsstring
  | NoDescription jsstring
  | ShortDescription jsstring nat
  | NotStated jsstring nat
  | GraceSample jsstring nat jsstring
  | RevokeDiscarded jsstring nat
  | NoIndex
  | CopyUnderSkills jsstring
  | SNotJson jsstring
  | SNoAllowList jsstring jsstring
  | SNotIncluded jsstring jsstring jsstring
  | NoForceInclude jsstring
  | ForceIncludePath jsstring jsstring
  | SIncludesLists jsstring nat
  | WrongPackagePath jsstring jsstring
  | SArchiveExcludes jsstring
  | SExportIgnored jsstring
  | PubExcludes jsstring

type_synonym skill_result = "js_exn + skill_problem list"

definition SKILL_PACKAGES :: "jsstring list" where
  "SKILL_PACKAGES = map js [''typescript'', ''python'', ''go'', ''rust'', ''java'',
     ''php'', ''csharp'', ''dart'', ''ruby'', ''elixir'']"

text \<open>\<open>exportIgnored\<close>: the path and every directory above it, as \<open>git\<close> sees them.\<close>

definition skills_exportIgnored :: "skill_world \<Rightarrow> jsstring \<Rightarrow> js_exn + bool" where
  "skills_exportIgnored w path =
     (case sw_attr w (attr_candidates path) of
        None \<Rightarrow> Inl FileError
      | Some out \<Rightarrow> Inr (list_ex (test EXPORT_IGNORE_RE) (lines out)))"

definition skillDir :: "jsstring \<Rightarrow> jsstring" where
  "skillDir pkg = js ''nebula-token-'' @ pkg"

definition skillPath :: "jsstring \<Rightarrow> jsstring" where
  "skillPath pkg = js ''packages/'' @ pkg @ js ''/skills/'' @ skillDir pkg @ js ''/SKILL.md''"

definition with_skill_manifest :: "skill_world \<Rightarrow> jsstring \<Rightarrow> (jsstring \<Rightarrow> skill_result) \<Rightarrow> skill_result" where
  "with_skill_manifest w rel f =
     (if \<not> sw_exists w rel then Inr [SManifestMissing rel] else and_then (sw_read w rel) f)"

section \<open>1. Exactly ten, at those paths\<close>

definition found :: "skill_world \<Rightarrow> jsstring \<Rightarrow> jsstring list" where
  "found w out = filter (sw_exists w) (filter (\<lambda>f. f \<noteq> []) (map trim (lines out)))"

definition layout_problems :: "skill_world \<Rightarrow> jsstring \<Rightarrow> skill_problem list" where
  "layout_problems w out =
     concat (map (\<lambda>rel. push (rel \<notin> set (map skillPath SKILL_PACKAGES)) (OutsideLayout rel)) (found w out))"

section \<open>2. Each skill, read and asserted\<close>

definition SKILL_FRONT_RE :: regex where \<comment> \<open>\<open>/^---\n([\s\S]*?)\n---\n/\<close>\<close>
  "SKILL_FRONT_RE = RSeqs [RBol False, RLit (js ''---''), RLit [10], RGroup 1 (RStar False RAny), RLit [10],
     RLit (js ''---''), RLit [10]]"

definition front_key_re :: "string \<Rightarrow> regex" where \<comment> \<open>\<open>/^key:\s*(.+?)\s*$/m\<close>\<close>
  "front_key_re key = RSeqs [RBol True, RLit (js key), RLit (js '':''), RSpaces, RGroup 1 (RPlus False RDot),
     RSpaces, REol True]"

definition alts :: "regex list \<Rightarrow> regex" where
  "alts rs = foldr RAlt (butlast rs) (last rs)"

definition stays_in_sentence :: regex where \<comment> \<open>\<open>REUSE_DETECTED\b[^.]*\braised\<close>\<close>
  "stays_in_sentence = RSeqs [RLitI (js ''REUSE_DETECTED''), RWordBoundary, RStar True (RChar (\<lambda>c. c \<noteq> 46)),
     RWordBoundary, RLitI (js ''raised'')]"

text \<open>The twelve patterns of \<open>required\<close>, in order; a problem names the index of the one that is missing.\<close>

definition required :: "regex list" where
  "required = [
     RLit (js ''[N-30]''),
     RLitI (js ''defaults to 0 (strict)''),
     RAlt (RLitI (js ''REUSE_DETECTED` is raised'')) stays_in_sentence,
     RLit (js ''[N-35]''),
     RLit (js ''CONFLICT''),
     RLit (js ''[N-21]''),
     RLitI (js ''not for production''),
     RLit (js ''[N-39]''),
     RAlt (RLit (js ''[N-14]'')) (RLit (js ''[N-46]'')),
     RSeq (RChar (one_of ''Nn'')) (RLit (js ''ever log'')),
     RLit (js ''[N-36]''),
     alts [RLitI (js ''can refuse''), RLitI (js ''REFUSED''), RLitI (js ''it REFUSED'')]]"

definition stated_problems :: "jsstring \<Rightarrow> jsstring \<Rightarrow> skill_problem list" where
  "stated_problems rel stated = concat (map (\<lambda>(re, k). push (\<not> test re stated) (NotStated rel k))
     (zip required [0..<length required]))"

text \<open>The samples that set the grace window: \<open>reuse[_ ]?grace[_ ]?seconds\<close> under the \<open>i\<close> flag.\<close>

definition grace_name :: regex where
  "grace_name = (let sep = ROpt (RChar (one_of ''_ '')) in
     RSeqs [RLitI (js ''reuse''), sep, RLitI (js ''grace''), sep, RLitI (js ''seconds'')])"

definition rest_of_line :: regex where "rest_of_line = RStar True (RChar (\<lambda>c. c \<noteq> 10))"

definition GRACE_LINE_RE :: regex where \<comment> \<open>\<open>/^[^\n]*...[^\n]*$/gim\<close>\<close>
  "GRACE_LINE_RE = RSeqs [RBol True, rest_of_line, grace_name, rest_of_line, REol True]"

definition GRACE_ASSIGNED_RE :: regex where \<comment> \<open>\<open>/...\s*[:=]\s*(\d+)/i\<close>\<close>
  "GRACE_ASSIGNED_RE = RSeqs [grace_name, RSpaces, RChar (one_of '':=''), RSpaces, RGroup 1 (RPlus True (RChar is_digit))]"

definition line_number :: "jsstring \<Rightarrow> match_result \<Rightarrow> nat" where
  "line_number txt m = length (lines (take (m_index m) txt))"

definition grace_problems :: "jsstring \<Rightarrow> jsstring \<Rightarrow> skill_problem list" where
  "grace_problems rel txt = concat (map (\<lambda>m.
     case match_group GRACE_ASSIGNED_RE (m_text m) 1 of
       None \<Rightarrow> []
     | Some d \<Rightarrow> push (float_truthy (Number d)) (GraceSample rel (line_number txt m) d)) (matchAll GRACE_LINE_RE txt))"

text \<open>The samples that call \<open>revokeToken\<close> and drop its result.\<close>

definition callee_char :: "cu \<Rightarrow> bool" where \<comment> \<open>\<open>[\w.$>:-]\<close>\<close>
  "callee_char c \<longleftrightarrow> is_word_char c \<or> one_of ''.$>:-'' c"

definition revoke_name :: regex where \<comment> \<open>\<open>\brevoke_?[Tt]oken\s*\(\<close>\<close>
  "revoke_name = RSeqs [RWordBoundary, RLit (js ''revoke''), ROpt (RLit (js ''_'')), RChar (one_of ''Tt''),
     RLit (js ''oken''), RSpaces, RLit (js ''('')]"

definition revokeCall :: regex where
  \<comment> \<open>\<open>/^\s*(?:await\s+|\$?\w+\s*=\s*)?[\w.$>:-]*\brevoke_?[Tt]oken\s*\(/\<close>\<close>
  "revokeCall = RSeqs [RBol False, RSpaces,
     ROpt (RAlt (RSeq (RLit (js ''await'')) (RPlus True (RChar is_space)))
       (RSeqs [ROpt (RLit (js ''$'')), RPlus True (RChar is_word_char), RSpaces, RLit (js ''=''), RSpaces])),
     RStar True (RChar callee_char), revoke_name]"

definition REVOKE_LINE_RE :: regex where \<comment> \<open>\<open>/^.*\brevoke_?[Tt]oken\s*\([^\n]*$/gm\<close>\<close>
  "REVOKE_LINE_RE = RSeqs [RBol True, RStar True RDot, revoke_name, rest_of_line, REol True]"

definition BOUND_RE :: regex where \<comment> \<open>\<open>/=\s*[\w.$>:-]*\brevoke/\<close>\<close>
  "BOUND_RE = RSeqs [RLit (js ''=''), RSpaces, RStar True (RChar callee_char), RWordBoundary, RLit (js ''revoke'')]"

definition MATCHED_RE :: regex where \<comment> \<open>\<open>/\b(?:case|match|if|unless|switch)\b/\<close>\<close>
  "MATCHED_RE = RSeqs [RWordBoundary,
     alts (map (\<lambda>s. RLit (js s)) [''case'', ''match'', ''if'', ''unless'', ''switch'']), RWordBoundary]"

definition PIPED_RE :: regex where "PIPED_RE = RLit (js ''|>'')"

definition captured :: "jsstring \<Rightarrow> bool" where
  "captured line \<longleftrightarrow> test BOUND_RE line \<or> test MATCHED_RE line \<or> test PIPED_RE line"

definition revoke_problems :: "jsstring \<Rightarrow> jsstring \<Rightarrow> skill_problem list" where
  "revoke_problems rel txt = concat (map (\<lambda>m.
     push (test revokeCall (m_text m) \<and> \<not> captured (m_text m)) (RevokeDiscarded rel (line_number txt m)))
     (matchAll REVOKE_LINE_RE txt))"

definition description_problems :: "jsstring \<Rightarrow> jsstring option \<Rightarrow> skill_problem list" where
  "description_problems rel description =
     (case description of
        None \<Rightarrow> [NoDescription rel]
      | Some d \<Rightarrow> if d = [] then [NoDescription rel] else push (length d < 40) (ShortDescription rel (length d)))"

definition skill_text_problems :: "jsstring \<Rightarrow> jsstring \<Rightarrow> jsstring \<Rightarrow> skill_problem list" where
  "skill_text_problems rel pkg txt =
     (let parts = split_on 47 rel; dir = parts ! (length parts - 2) in
      case match_group SKILL_FRONT_RE txt 1 of
        None \<Rightarrow> [SkillNoFrontmatter rel]
      | Some fm \<Rightarrow>
          let name = match_group (front_key_re ''name'') fm 1;
              description = match_group (front_key_re ''description'') fm 1
          in push (name \<noteq> Some dir) (SkillName rel name) @
             push (dir \<noteq> skillDir pkg) (SkillDirectory rel dir) @
             description_problems rel description @
             stated_problems rel (licences_stripXmlComments txt) @
             grace_problems rel txt @ revoke_problems rel txt)"

definition check_skill :: "skill_world \<Rightarrow> jsstring \<Rightarrow> skill_result" where
  "check_skill w pkg =
     (let rel = skillPath pkg in
      if \<not> sw_exists w rel then Inr [SkillMissing rel]
      else map_sum id (skill_text_problems rel pkg) (sw_read w rel))"

section \<open>3. \<open>skills/\<close> is an index only\<close>

text \<open>\<open>entry.isDirectory()\<close> is what the node at the entry's path says.\<close>

definition is_directory :: "skill_world \<Rightarrow> jsstring \<Rightarrow> bool" where
  "is_directory w p = (case sw_node w p of Some (LDir _) \<Rightarrow> True | _ \<Rightarrow> False)"

definition index_problems :: "skill_world \<Rightarrow> skill_result" where
  "index_problems w =
     both (Inr (push (\<not> sw_exists w (js ''skills/README.md'')) NoIndex))
       (case sw_node w (js ''skills'') of
          None \<Rightarrow> Inr []
        | Some (LFile _ _) \<Rightarrow> Inl FileError
        | Some (LDir es) \<Rightarrow>
            Inr (concat (map (\<lambda>e. push (is_directory w (js ''skills/'' @ e)) (CopyUnderSkills e)) es)))"

section \<open>4. Every manifest ships the file\<close>

definition wanted :: "jsstring \<Rightarrow> jsstring" where
  "wanted pkg = js ''skills/'' @ skillDir pkg @ js ''/SKILL.md''"

definition backslashes :: "jsstring \<Rightarrow> jsstring" where \<comment> \<open>\<open>s.replaceAll("\\", "/")\<close>\<close>
  "backslashes s = map (\<lambda>c. if c = 92 then 47 else c) s"

definition drop_prefix :: "jsstring \<Rightarrow> jsstring \<Rightarrow> jsstring" where \<comment> \<open>\<open>s.replace(/^p/, "")\<close>\<close>
  "drop_prefix p s = (if startsWith s p then drop (length p) s else s)"

definition norm_entry :: "jsstring \<Rightarrow> jsstring" where
  "norm_entry e = backslashes (drop_prefix (js ''/'') (drop_prefix (js ''./'') e))"

text \<open>\<open>list.some(...)\<close> over strings, and over the elements of a JSON array: only a string has \<open>replace\<close>.\<close>

fun some_entry :: "jsstring \<Rightarrow> json list \<Rightarrow> js_exn + bool" where
  "some_entry want [] = Inr False"
| "some_entry want (JStr e # es) = (if norm_entry e = want then Inr True else some_entry want es)"
| "some_entry want (_ # es) = Inl TypeError"

definition inList :: "jsstring \<Rightarrow> json list \<Rightarrow> jsstring \<Rightarrow> jsstring \<Rightarrow> skill_result" where
  "inList rel entries label want =
     map_sum id (\<lambda>ok. push (\<not> ok) (SNotIncluded rel label want)) (some_entry want entries)"

definition skill_list ::
  "jsstring \<Rightarrow> string \<Rightarrow> (jsstring \<Rightarrow> jsstring list) \<Rightarrow> jsstring \<Rightarrow> jsstring option \<Rightarrow> skill_result" where
  "skill_list rel label items want inner =
     (case inner of
        None \<Rightarrow> Inr [SNoAllowList rel (js label)]
      | Some l \<Rightarrow> inList rel (map JStr (items l)) (js label) want)"

definition skill_json :: "jsstring \<Rightarrow> jsstring \<Rightarrow> (json \<Rightarrow> skill_result) \<Rightarrow> skill_result" where
  "skill_json rel t f =
     (case json_parse t of
        None \<Rightarrow> Inr [SNotJson rel]
      | Some j \<Rightarrow> if j = JNull then Inl TypeError else f j)"

definition skills_typescript :: "skill_world \<Rightarrow> skill_result" where
  "skills_typescript w = (let rel = js ''packages/typescript/package.json'' in
     with_skill_manifest w rel (\<lambda>t. skill_json rel t (\<lambda>j.
       case get j (js ''files'') of
         Some (JArr files) \<Rightarrow> inList rel files (js ''files'') (wanted (js ''typescript''))
       | _ \<Rightarrow> Inr [SNoAllowList rel (js ''files'')])))"

definition FORCED_RE :: regex where
  \<comment> \<open>\<open>/\[tool\.hatch\.build\.targets\.wheel\.force-include\]([\s\S]*?)(?=\n\[|$)/\<close>\<close>
  "FORCED_RE = RSeqs [RLit (js ''[tool.hatch.build.targets.wheel.force-include]''), RGroup 1 (RStar False RAny),
     RLook (RAlt (RSeq (RLit [10]) (RLit (js ''[''))) (REol False))]"

text \<open>The path as a pattern: its dot is the class.\<close>

definition path_pattern :: "jsstring \<Rightarrow> regex" where
  "path_pattern p = foldr (\<lambda>c r. RSeq (if c = 46 then RDot else RChar (\<lambda>x. x = c)) r) p REps"

definition mapping_re :: "jsstring \<Rightarrow> regex" where \<comment> \<open>\<open>"${want}"\s*=\s*"([^"]+)"\<close>\<close>
  "mapping_re want = RSeqs [RLit [34], path_pattern want, RLit [34], RSpaces, RLit (js ''=''), RSpaces, RLit [34],
     RGroup 1 (RPlus True (RChar (\<lambda>c. c \<noteq> 34))), RLit [34]]"

definition forced_problems :: "jsstring \<Rightarrow> jsstring \<Rightarrow> jsstring \<Rightarrow> skill_problem list" where
  "forced_problems rel want t =
     (case Option.bind (match_group FORCED_RE t 1) (\<lambda>forced. match_group (mapping_re want) forced 1) of
        None \<Rightarrow> [NoForceInclude rel]
      | Some mapping \<Rightarrow> push (\<not> endsWith mapping want) (ForceIncludePath rel mapping))"

definition skills_python :: "skill_world \<Rightarrow> skill_result" where
  "skills_python w = (let rel = js ''packages/python/pyproject.toml''; want = wanted (js ''python'') in
     with_skill_manifest w rel (\<lambda>t. both
       (skill_list rel ''the sdist include'' tomlList want (match_group SDIST_RE t 1))
       (Inr (forced_problems rel want t))))"

definition INCLUDE_RE :: regex where \<comment> \<open>\<open>/^include\s*=\s*\[([^\]]*)\]/m\<close>\<close>
  "INCLUDE_RE = RSeqs [RBol True, RLit (js ''include''), bracket_list]"

definition skills_rust :: "skill_world \<Rightarrow> skill_result" where
  "skills_rust w = (let rel = js ''packages/rust/Cargo.toml'' in
     with_skill_manifest w rel (\<lambda>t. skill_list rel ''include'' tomlList (wanted (js ''rust'')) (match_group INCLUDE_RE t 1)))"

definition skills_java :: "skill_world \<Rightarrow> skill_result" where
  "skills_java w = (let rel = js ''packages/java/pom.xml'' in
     with_skill_manifest w rel (\<lambda>raw.
       let lists = all_groups (block_element ''includes'') (licences_stripXmlComments raw)
       in both (Inr (push (length lists \<noteq> 2) (SIncludesLists rel (length lists))))
         (each (\<lambda>(l, i). inList rel (map (\<lambda>e. JStr (trim e)) (all_groups (element ''include'') l))
             (js ''resource <includes> #'' @ decimal i) (wanted (js ''java''))) (zip lists [1..<Suc (length lists)]))))"

definition quoted_value :: "nat \<Rightarrow> string \<Rightarrow> regex \<Rightarrow> regex" where
  "quoted_value n key content = RSeqs [RLit (js key @ js ''='' @ [34]), RGroup n content, RLit [34]]"

definition PACKED_PATH_RE :: regex where
  \<comment> \<open>\<open>/<None\s+Include="([^"]+)"[^>]*Pack="true"[^>]*PackagePath="([^"]*)"/g\<close>\<close>
  "PACKED_PATH_RE = (let not_quote = RChar (\<lambda>c. c \<noteq> 34); in_tag = RStar True (RChar (\<lambda>c. c \<noteq> 62)) in
     RSeqs [RLit (js ''<None''), RPlus True (RChar is_space), quoted_value 1 ''Include'' (RPlus True not_quote), in_tag,
       RLit (js ''Pack='' @ [34] @ js ''true'' @ [34]), in_tag, quoted_value 2 ''PackagePath'' (RStar True not_quote)])"

definition FINAL_SLASH_RE :: regex where \<comment> \<open>\<open>/\/$/\<close>\<close>
  "FINAL_SLASH_RE = RSeq (RLit (js ''/'')) (REol False)"

definition packed :: "jsstring \<Rightarrow> (jsstring \<times> jsstring) list" where
  "packed t = map (\<lambda>m. (backslashes (the (group m 1)),
     replaceFirst FINAL_SLASH_RE no_text (backslashes (the (group m 2))))) (matchAll PACKED_PATH_RE t)"

definition skills_csharp :: "skill_world \<Rightarrow> skill_result" where
  "skills_csharp w = (let rel = js ''packages/csharp/src/NebulaToken/NebulaToken.csproj''; want = wanted (js ''csharp'') in
     with_skill_manifest w rel (\<lambda>raw.
       let ps = packed (licences_stripXmlComments raw) in
       case find (\<lambda>p. endsWith (fst p) want) ps of
         None \<Rightarrow> inList rel (map (\<lambda>p. JStr (fst p)) ps) (js ''the packed <None> items'') want
       | Some p \<Rightarrow> Inr (push (snd p \<noteq> js ''skills/'' @ skillDir (js ''csharp'')) (WrongPackagePath rel (snd p)))))"

definition SKILL_WORD_RE :: regex where "SKILL_WORD_RE = RLitI (js ''skill'')"

definition skills_archive :: "jsstring \<Rightarrow> json \<Rightarrow> skill_result" where
  "skills_archive rel j =
     (case non_nullish (get_opt (non_nullish (get j (js ''archive''))) (js ''exclude'')) of
        None \<Rightarrow> Inr []
      | Some (JArr es) \<Rightarrow> Inr (push (list_ex (\<lambda>e. test SKILL_WORD_RE (json_text e)) es) (SArchiveExcludes rel))
      | Some _ \<Rightarrow> Inl TypeError)"

definition skills_php :: "skill_world \<Rightarrow> skill_result" where
  "skills_php w = (let rel = js ''composer.json''; attrs = js ''.gitattributes'' in
     with_skill_manifest w rel (\<lambda>t. skill_json rel t (\<lambda>j.
       both (skills_archive rel j)
         (with_skill_manifest w attrs (\<lambda>_. map_sum id (\<lambda>b. push b (SExportIgnored attrs))
            (skills_exportIgnored w (skillPath (js ''php''))))))))"

definition skills_ruby :: "skill_world \<Rightarrow> skill_result" where
  "skills_ruby w = (let rel = js ''packages/ruby/nebula-token.gemspec'' in
     with_skill_manifest w rel (\<lambda>t. skill_list rel ''spec.files'' rubyList (wanted (js ''ruby'')) (match_group GEM_FILES_RE t 1)))"

definition skills_elixir :: "skill_world \<Rightarrow> skill_result" where
  "skills_elixir w = (let rel = js ''packages/elixir/mix.exs'' in
     with_skill_manifest w rel (\<lambda>t. skill_list rel ''files'' rubyList (wanted (js ''elixir'')) (match_group HEX_FILES_RE t 1)))"

definition skills_dart :: "skill_world \<Rightarrow> skill_result" where
  "skills_dart w = (let rel = js ''packages/dart/.pubignore'' in
     with_skill_manifest w rel (\<lambda>t.
       let ls = filter (\<lambda>l. l \<noteq> [] \<and> \<not> startsWith l (js ''#'')) (map trim (lines t))
       in Inr (push (list_ex (test SKILL_WORD_RE) ls) (PubExcludes rel))))"

definition SKILL_CHECKS :: "(jsstring \<times> (skill_world \<Rightarrow> skill_result)) list" where
  "SKILL_CHECKS = [(js ''typescript'', skills_typescript), (js ''python'', skills_python), (js ''rust'', skills_rust),
     (js ''java'', skills_java), (js ''csharp'', skills_csharp), (js ''php'', skills_php), (js ''ruby'', skills_ruby),
     (js ''elixir'', skills_elixir), (js ''dart'', skills_dart), (js ''go'', \<lambda>_. Inr [])]"

section \<open>The script\<close>

datatype skills_outcome =
    SkillsGitFailed | SkillsThrew js_exn | SkillsFailed "skill_problem list" | SkillsOk

definition skills_result :: "skill_world \<Rightarrow> jsstring \<Rightarrow> skill_result" where
  "skills_result w out =
     both (Inr (layout_problems w out))
     (both (each (check_skill w) SKILL_PACKAGES)
     (both (index_problems w)
           (each (\<lambda>pkg. the (map_of SKILL_CHECKS pkg) w) SKILL_PACKAGES)))"

definition skills_main :: "skill_world \<Rightarrow> skills_outcome" where
  "skills_main w =
     (case sw_listed w of
        None \<Rightarrow> SkillsGitFailed
      | Some out \<Rightarrow>
          (case skills_result w out of
             Inl e \<Rightarrow> SkillsThrew e
           | Inr ps \<Rightarrow> if ps \<noteq> [] then SkillsFailed ps else SkillsOk))"

fun skills_exit :: "skills_outcome \<Rightarrow> int" where
  "skills_exit SkillsOk = 0"
| "skills_exit SkillsGitFailed = 2"
| "skills_exit _ = 1"

end
