(* ===== verification/Skills_Check.thy ===== *)
theory Skills_Check
  imports Check_Skills Licenses_Check
begin

text \<open>
  What \<open>scripts/check-skills.mjs\<close> guarantees: it passes exactly when the ten skills are the only ones, each
  states its rules, and every package manifest ships its skill (\<open>skills_shipped\<close>).
\<close>

section \<open>Entries of a list\<close>

definition skill_text :: "skill_world \<Rightarrow> jsstring \<Rightarrow> jsstring \<Rightarrow> bool" where
  "skill_text w p t \<longleftrightarrow> (\<exists>b. sw_node w p = Some (LFile b t))"

lemma sw_read_iff: "sw_read w p = Inr t \<longleftrightarrow> skill_text w p t"
  by (auto simp: sw_read_def skill_text_def split: option.splits licence_node.splits)

lemma with_skill_manifest_Nil_iff:
  "with_skill_manifest w rel f = Inr [] \<longleftrightarrow> (\<exists>t. skill_text w rel t \<and> f t = Inr [])"
  by (auto simp: with_skill_manifest_def and_then_Inr_iff sw_read_iff sw_exists_def skill_text_def)

lemma skill_json_Nil_iff:
  "skill_json rel t f = Inr [] \<longleftrightarrow> (\<exists>j. json_parse t = Some j \<and> j \<noteq> JNull \<and> f j = Inr [])"
  by (auto simp: skill_json_def split: option.splits)

text \<open>The path is in a list of strings, in one of the spellings that \<open>norm_entry\<close> identifies.\<close>

definition named_in :: "jsstring \<Rightarrow> jsstring list \<Rightarrow> bool" where
  "named_in want l \<longleftrightarrow> want \<in> norm_entry ` set l"

text \<open>The same for a JSON array: the elements before the path have to be strings.\<close>

definition named_in_json :: "jsstring \<Rightarrow> json list \<Rightarrow> bool" where
  "named_in_json want es \<longleftrightarrow> (\<exists>l e rest. es = map JStr l @ JStr e # rest \<and> norm_entry e = want)"

lemma some_entry_strings: "some_entry want (map JStr l) = Inr (named_in want l)"
  by (induction l) (auto simp: named_in_def)

lemma some_entry_iff: "some_entry want es = Inr True \<longleftrightarrow> named_in_json want es"
proof (induction want es rule: some_entry.induct)
  case (2 want e es)
  show ?case
  proof (cases "norm_entry e = want")
    case True
    then have "named_in_json want (JStr e # es)"
      unfolding named_in_json_def by (intro exI [of _ "[]"] exI [of _ e] exI [of _ es]) simp
    then show ?thesis using True by simp
  next
    case False
    have "named_in_json want (JStr e # es) \<longleftrightarrow> named_in_json want es"
    proof
      assume "named_in_json want (JStr e # es)"
      then obtain l e' rest where d: "JStr e # es = map JStr l @ JStr e' # rest" "norm_entry e' = want"
        by (auto simp: named_in_json_def)
      then obtain l' where "l = e # l'" using False by (cases l) auto
      then show "named_in_json want es" using d by (auto simp: named_in_json_def)
    next
      assume "named_in_json want es"
      then obtain l e' rest where "es = map JStr l @ JStr e' # rest" "norm_entry e' = want"
        by (auto simp: named_in_json_def)
      then show "named_in_json want (JStr e # es)"
        unfolding named_in_json_def by (intro exI [of _ "e # l"] exI [of _ e'] exI [of _ rest]) simp
    qed
    then show ?thesis using False 2 by simp
  qed
qed (auto simp: named_in_json_def Cons_eq_append_conv)

lemma inList_Nil_iff: "inList rel es label want = Inr [] \<longleftrightarrow> named_in_json want es"
  unfolding some_entry_iff [symmetric] by (auto simp: inList_def map_sum_Inr_iff push_Nil_iff)

lemma inList_strings_Nil_iff: "inList rel (map JStr l) label want = Inr [] \<longleftrightarrow> named_in want l"
  by (simp add: inList_def some_entry_strings push_Nil_iff)

lemma skill_list_Nil_iff:
  "skill_list rel label items want inner = Inr [] \<longleftrightarrow> (\<exists>l. inner = Some l \<and> named_in want (items l))"
  by (cases inner) (simp_all add: skill_list_def inList_strings_Nil_iff)

section \<open>A skill\<close>

definition skill_states :: "jsstring \<Rightarrow> bool" where
  "skill_states txt \<longleftrightarrow> list_all (\<lambda>re. test re (licences_stripXmlComments txt)) required"

definition strict_samples :: "jsstring \<Rightarrow> bool" where
  "strict_samples txt \<longleftrightarrow> (\<forall>m \<in> set (matchAll GRACE_LINE_RE txt). \<forall>d.
     match_group GRACE_ASSIGNED_RE (m_text m) 1 = Some d \<longrightarrow> \<not> float_truthy (Number d))"

definition results_bound :: "jsstring \<Rightarrow> bool" where
  "results_bound txt \<longleftrightarrow>
     (\<forall>m \<in> set (matchAll REVOKE_LINE_RE txt). test revokeCall (m_text m) \<longrightarrow> captured (m_text m))"

definition skill_ok :: "skill_world \<Rightarrow> jsstring \<Rightarrow> bool" where
  "skill_ok w pkg \<longleftrightarrow> (\<exists>txt fm d. skill_text w (skillPath pkg) txt \<and>
     match_group SKILL_FRONT_RE txt 1 = Some fm \<and>
     match_group (front_key_re ''name'') fm 1 = Some (skillDir pkg) \<and>
     match_group (front_key_re ''description'') fm 1 = Some d \<and> 40 \<le> length d \<and>
     skill_states txt \<and> strict_samples txt \<and> results_bound txt)"

lemma skill_directory:
  assumes "47 \<notin> set pkg"
  shows "split_on 47 (skillPath pkg) = [js ''packages'', pkg, js ''skills'', skillDir pkg, js ''SKILL.md'']"
proof -
  have "skillPath pkg = join_with [47] [js ''packages'', pkg, js ''skills'', skillDir pkg, js ''SKILL.md'']"
    by (simp add: skillPath_def js_def)
  moreover have "\<forall>p \<in> set [js ''packages'', pkg, js ''skills'', skillDir pkg, js ''SKILL.md'']. 47 \<notin> set p"
    using assms by (simp add: skillDir_def js_def)
  ultimately show ?thesis using split_join by (metis list.distinct(1))
qed

lemma packages_no_slash: "pkg \<in> set SKILL_PACKAGES \<Longrightarrow> 47 \<notin> set pkg"
  by (auto simp: SKILL_PACKAGES_def js_def)

lemma stated_Nil_iff: "stated_problems rel stated = [] \<longleftrightarrow> list_all (\<lambda>re. test re stated) required"
proof -
  have "fst ` set (zip required [0..<length required]) = set required"
    by (metis length_upt map_fst_zip minus_nat.diff_0 set_map)
  moreover have "stated_problems rel stated = [] \<longleftrightarrow>
      (\<forall>re \<in> fst ` set (zip required [0..<length required]). test re stated)"
    unfolding stated_problems_def concat_map_Nil_iff by (auto simp: push_Nil_iff)
  ultimately show ?thesis by (simp add: list_all_iff)
qed

lemma grace_Nil_iff: "grace_problems rel txt = [] \<longleftrightarrow> strict_samples txt"
  unfolding grace_problems_def concat_map_Nil_iff strict_samples_def
  by (rule ball_cong) (auto simp: push_Nil_iff split: option.split)

lemma revoke_Nil_iff: "revoke_problems rel txt = [] \<longleftrightarrow> results_bound txt"
  unfolding revoke_problems_def concat_map_Nil_iff results_bound_def by (simp add: push_Nil_iff)

lemma description_Nil_iff: "description_problems rel d = [] \<longleftrightarrow> (\<exists>x. d = Some x \<and> 40 \<le> length x)"
  by (cases d) (auto simp: description_problems_def push_Nil_iff)

lemma check_skill_Nil_iff:
  assumes "pkg \<in> set SKILL_PACKAGES"
  shows "check_skill w pkg = Inr [] \<longleftrightarrow> skill_ok w pkg"
proof -
  let ?rel = "skillPath pkg"
  have dir: "split_on 47 ?rel ! (length (split_on 47 ?rel) - 2) = skillDir pkg"
    unfolding skill_directory [OF packages_no_slash [OF assms]] by simp
  have body: "skill_text_problems ?rel pkg t = [] \<longleftrightarrow>
      (\<exists>fm d. match_group SKILL_FRONT_RE t 1 = Some fm \<and>
         match_group (front_key_re ''name'') fm 1 = Some (skillDir pkg) \<and>
         match_group (front_key_re ''description'') fm 1 = Some d \<and> 40 \<le> length d \<and>
         skill_states t \<and> strict_samples t \<and> results_bound t)" for t
  proof (cases "match_group SKILL_FRONT_RE t 1")
    case (Some fm)
    show ?thesis
      unfolding skill_text_problems_def Let_def Some option.case append_is_Nil_conv dir push_Nil_iff
        description_Nil_iff stated_Nil_iff grace_Nil_iff revoke_Nil_iff skill_states_def by auto
  qed (simp add: skill_text_problems_def Let_def)
  have "check_skill w pkg = Inr [] \<longleftrightarrow> (\<exists>txt. skill_text w ?rel txt \<and> skill_text_problems ?rel pkg txt = [])"
    by (auto simp: check_skill_def Let_def map_sum_Inr_iff sw_read_iff sw_exists_def skill_text_def)
  then show ?thesis unfolding body skill_ok_def by blast
qed

section \<open>What each ecosystem ships\<close>

definition npm_ships :: "skill_world \<Rightarrow> bool" where
  "npm_ships w \<longleftrightarrow> (\<exists>t j files. skill_text w (js ''packages/typescript/package.json'') t \<and> json_parse t = Some j \<and>
     get j (js ''files'') = Some (JArr files) \<and> named_in_json (wanted (js ''typescript'')) files)"

definition pypi_ships :: "skill_world \<Rightarrow> bool" where
  "pypi_ships w \<longleftrightarrow> (\<exists>t sdist forced target. skill_text w (js ''packages/python/pyproject.toml'') t \<and>
     match_group SDIST_RE t 1 = Some sdist \<and> named_in (wanted (js ''python'')) (tomlList sdist) \<and>
     match_group FORCED_RE t 1 = Some forced \<and>
     match_group (mapping_re (wanted (js ''python''))) forced 1 = Some target \<and> endsWith target (wanted (js ''python'')))"

definition list_ships :: "skill_world \<Rightarrow> string \<Rightarrow> regex \<Rightarrow> (jsstring \<Rightarrow> jsstring list) \<Rightarrow> string \<Rightarrow> bool" where
  "list_ships w rel re items pkg \<longleftrightarrow> (\<exists>t l. skill_text w (js rel) t \<and> match_group re t 1 = Some l \<and>
     named_in (wanted (js pkg)) (items l))"

definition maven_ships :: "skill_world \<Rightarrow> bool" where
  "maven_ships w \<longleftrightarrow> (\<exists>raw i1 i2. skill_text w (js ''packages/java/pom.xml'') raw \<and>
     all_groups (block_element ''includes'') (licences_stripXmlComments raw) = [i1, i2] \<and>
     named_in (wanted (js ''java'')) (map trim (all_groups (element ''include'') i1)) \<and>
     named_in (wanted (js ''java'')) (map trim (all_groups (element ''include'') i2)))"

definition nuget_ships :: "skill_world \<Rightarrow> bool" where
  "nuget_ships w \<longleftrightarrow> (\<exists>raw p. skill_text w (js ''packages/csharp/src/NebulaToken/NebulaToken.csproj'') raw \<and>
     find (\<lambda>p. endsWith (fst p) (wanted (js ''csharp''))) (packed (licences_stripXmlComments raw)) = Some p \<and>
     snd p = js ''skills/nebula-token-csharp'')"

definition composer_ships :: "skill_world \<Rightarrow> bool" where
  "composer_ships w \<longleftrightarrow> (\<exists>t j attrs. skill_text w (js ''composer.json'') t \<and> json_parse t = Some j \<and> j \<noteq> JNull \<and>
     skills_archive (js ''composer.json'') j = Inr [] \<and> skill_text w (js ''.gitattributes'') attrs \<and>
     skills_exportIgnored w (skillPath (js ''php'')) = Inr False)"

definition pub_ships :: "skill_world \<Rightarrow> bool" where
  "pub_ships w \<longleftrightarrow> (\<exists>t. skill_text w (js ''packages/dart/.pubignore'') t \<and>
     (\<forall>l \<in> set (lines t). trim l = [] \<or> startsWith (trim l) (js ''#'') \<or> \<not> test SKILL_WORD_RE (trim l)))"

lemma npm_Nil_iff: "skills_typescript w = Inr [] \<longleftrightarrow> npm_ships w"
proof -
  have files: "(case get j (js ''files'') of Some (JArr files) \<Rightarrow> inList rel files l want | _ \<Rightarrow> Inr [SNoAllowList rel l']) = Inr [] \<longleftrightarrow>
      (\<exists>files. get j (js ''files'') = Some (JArr files) \<and> named_in_json want files)" for j rel l l' want
    by (cases "get j (js ''files'')") (auto simp: inList_Nil_iff split: json.splits)
  have null: "get j k = Some v \<Longrightarrow> j \<noteq> JNull" for j k v by auto
  show ?thesis
    unfolding skills_typescript_def Let_def with_skill_manifest_Nil_iff skill_json_Nil_iff files npm_ships_def
    using null by blast
qed

lemma pypi_Nil_iff: "skills_python w = Inr [] \<longleftrightarrow> pypi_ships w"
proof -
  have forced: "forced_problems rel want t = [] \<longleftrightarrow> (\<exists>forced target. match_group FORCED_RE t 1 = Some forced \<and>
      match_group (mapping_re want) forced 1 = Some target \<and> endsWith target want)" for rel want t
    unfolding forced_problems_def
    by (cases "match_group FORCED_RE t 1") (auto simp: push_Nil_iff split: option.split)
  show ?thesis
    unfolding skills_python_def Let_def with_skill_manifest_Nil_iff both_Nil_iff sum.inject skill_list_Nil_iff forced pypi_ships_def
    by blast
qed

lemma lists_Nil_iff:
  "skills_rust w = Inr [] \<longleftrightarrow> list_ships w ''packages/rust/Cargo.toml'' INCLUDE_RE tomlList ''rust''"
  "skills_ruby w = Inr [] \<longleftrightarrow> list_ships w ''packages/ruby/nebula-token.gemspec'' GEM_FILES_RE rubyList ''ruby''"
  "skills_elixir w = Inr [] \<longleftrightarrow> list_ships w ''packages/elixir/mix.exs'' HEX_FILES_RE rubyList ''elixir''"
  unfolding skills_rust_def skills_ruby_def skills_elixir_def Let_def with_skill_manifest_Nil_iff skill_list_Nil_iff
    list_ships_def by blast+

lemma maven_Nil_iff: "skills_java w = Inr [] \<longleftrightarrow> maven_ships w"
proof -
  have two: "both (Inr (push (length ls \<noteq> 2) x)) (each (\<lambda>(l, i). inList rel (map (\<lambda>e. JStr (trim e)) (g l)) (lab i) want)
      (zip ls [1..<Suc (length ls)])) = Inr [] \<longleftrightarrow>
     (\<exists>i1 i2. ls = [i1, i2] \<and> named_in want (map trim (g i1)) \<and> named_in want (map trim (g i2)))" for ls x rel g lab want
  proof (cases "length ls = 2")
    case True
    then obtain a b where "ls = [a, b]" by (cases ls; cases "tl ls") auto
    moreover have "inList rel (map (\<lambda>e. JStr (trim e)) l) lb want = Inr [] \<longleftrightarrow> named_in want (map trim l)" for l lb
      using inList_strings_Nil_iff [of rel "map trim l" lb want] by (simp add: comp_def)
    ultimately show ?thesis by (simp add: push_def upt_rec both_Nil_iff each_Nil_iff)
  qed (auto simp: push_def both_Nil_iff)
  show ?thesis
    unfolding skills_java_def Let_def with_skill_manifest_Nil_iff two maven_ships_def by blast
qed

text \<open>
  In the C# manifest the fall-back on the whole list never accepts: an item that \<open>norm_entry\<close> identifies with
  the path also ends with it.
\<close>

lemma backslashes_fix: "92 \<notin> set s \<Longrightarrow> backslashes s = s"
  by (induction s) (auto simp: backslashes_def)

lemma drop_prefix_end: "\<exists>p. s = p @ drop_prefix q s"
  by (metis append_Nil append_take_drop_id drop_prefix_def)

lemma norm_entry_end:
  assumes "92 \<notin> set e"
  shows "endsWith e (norm_entry e)"
proof -
  obtain p q where pq: "e = p @ q @ drop_prefix (js ''/'') (drop_prefix (js ''./'') e)"
    using drop_prefix_end by metis
  then have "92 \<notin> set (drop_prefix (js ''/'') (drop_prefix (js ''./'') e))" using assms by (metis Un_iff set_append)
  then have "e = (p @ q) @ norm_entry e" using pq by (simp add: norm_entry_def backslashes_fix)
  then show ?thesis unfolding endsWith_def by (metis rev_append startsWith_append)
qed

lemma packed_no_backslash: "p \<in> set (packed t) \<Longrightarrow> 92 \<notin> set (fst p)"
  by (auto simp: packed_def backslashes_def)

lemma nuget_Nil_iff: "skills_csharp w = Inr [] \<longleftrightarrow> nuget_ships w"
proof -
  have miss: "\<not> named_in want (map fst (packed t))" if "find (\<lambda>p. endsWith (fst p) want) (packed t) = None" for want t
  proof
    assume "named_in want (map fst (packed t))"
    then obtain p where p: "p \<in> set (packed t)" "norm_entry (fst p) = want" by (auto simp: named_in_def)
    then have "endsWith (fst p) want" using norm_entry_end [OF packed_no_backslash [OF p(1)]] by simp
    then show False using that p(1) unfolding find_None_iff by blast
  qed
  have pick: "(case find (\<lambda>p. endsWith (fst p) want) (packed t) of
        None \<Rightarrow> inList rel (map (\<lambda>p. JStr (fst p)) (packed t)) l want
      | Some p \<Rightarrow> Inr (push (snd p \<noteq> d) (WrongPackagePath rel (snd p)))) = Inr [] \<longleftrightarrow>
      (\<exists>p. find (\<lambda>p. endsWith (fst p) want) (packed t) = Some p \<and> snd p = d)" for want t rel l d
  proof (cases "find (\<lambda>p. endsWith (fst p) want) (packed t)")
    case None
    then show ?thesis using miss [OF None] inList_strings_Nil_iff [of rel "map fst (packed t)" l want]
      by (simp add: comp_def)
  qed (simp add: push_Nil_iff)
  have dir: "js ''skills/'' @ skillDir (js ''csharp'') = js ''skills/nebula-token-csharp''" by (simp add: skillDir_def js_def)
  show ?thesis
    unfolding skills_csharp_def Let_def with_skill_manifest_Nil_iff pick dir nuget_ships_def by blast
qed

lemma composer_Nil_iff: "skills_php w = Inr [] \<longleftrightarrow> composer_ships w"
proof -
  have attr: "map_sum id (\<lambda>b. push b x) r = Inr [] \<longleftrightarrow> r = Inr False" for x :: skill_problem and r :: "js_exn + bool"
    by (auto simp: map_sum_Inr_iff push_Nil_iff)
  show ?thesis
    unfolding skills_php_def Let_def with_skill_manifest_Nil_iff skill_json_Nil_iff both_Nil_iff attr composer_ships_def
    by blast
qed

lemma pub_Nil_iff: "skills_dart w = Inr [] \<longleftrightarrow> pub_ships w"
  unfolding skills_dart_def Let_def with_skill_manifest_Nil_iff sum.inject push_Nil_iff pub_ships_def
  by (auto simp: list_ex_iff)

section \<open>The verdict\<close>

definition skills_index_only :: "skill_world \<Rightarrow> bool" where
  "skills_index_only w \<longleftrightarrow> sw_node w (js ''skills/README.md'') \<noteq> None \<and>
     (case sw_node w (js ''skills'') of
        None \<Rightarrow> True
      | Some (LFile _ _) \<Rightarrow> False
      | Some (LDir es) \<Rightarrow> list_all (\<lambda>e. \<not> is_directory w (js ''skills/'' @ e)) es)"

definition manifests_ship :: "skill_world \<Rightarrow> bool" where
  "manifests_ship w \<longleftrightarrow> npm_ships w \<and> pypi_ships w \<and>
     list_ships w ''packages/rust/Cargo.toml'' INCLUDE_RE tomlList ''rust'' \<and> maven_ships w \<and> composer_ships w \<and>
     nuget_ships w \<and> pub_ships w \<and>
     list_ships w ''packages/ruby/nebula-token.gemspec'' GEM_FILES_RE rubyList ''ruby'' \<and>
     list_ships w ''packages/elixir/mix.exs'' HEX_FILES_RE rubyList ''elixir''"

definition skills_shipped :: "skill_world \<Rightarrow> bool" where
  "skills_shipped w \<longleftrightarrow>
     (\<exists>out. sw_listed w = Some out \<and> set (found w out) \<subseteq> skillPath ` set SKILL_PACKAGES) \<and>
     list_all (skill_ok w) SKILL_PACKAGES \<and> skills_index_only w \<and> manifests_ship w"

lemma index_Nil_iff: "index_problems w = Inr [] \<longleftrightarrow> skills_index_only w"
proof (cases "sw_node w (js ''skills'')")
  case (Some n)
  show ?thesis
  proof (cases n)
    case (LDir es)
    have "concat (map (\<lambda>e. push (P e) (CopyUnderSkills e)) es) = [] \<longleftrightarrow> list_all (\<lambda>e. \<not> P e) es" for P
      unfolding concat_map_Nil_iff push_Nil_iff by (simp add: list_all_iff)
    then show ?thesis using Some LDir
      by (simp add: index_problems_def skills_index_only_def both_Nil_iff push_Nil_iff sw_exists_def del: concat_eq_Nil_conv)
  qed (use Some in \<open>simp add: index_problems_def skills_index_only_def both_Nil_iff\<close>)
qed (simp add: index_problems_def skills_index_only_def both_Nil_iff push_Nil_iff sw_exists_def)

lemma layout_Nil_iff: "layout_problems w out = [] \<longleftrightarrow> set (found w out) \<subseteq> skillPath ` set SKILL_PACKAGES"
  unfolding layout_problems_def concat_map_Nil_iff push_Nil_iff by auto

lemma ecosystems_Nil_iff:
  "each (\<lambda>pkg. the (map_of SKILL_CHECKS pkg) w) SKILL_PACKAGES = Inr [] \<longleftrightarrow> manifests_ship w"
proof -
  have "each (\<lambda>pkg. the (map_of SKILL_CHECKS pkg) w) SKILL_PACKAGES = Inr [] \<longleftrightarrow>
      skills_typescript w = Inr [] \<and> skills_python w = Inr [] \<and> skills_rust w = Inr [] \<and> skills_java w = Inr [] \<and>
      skills_php w = Inr [] \<and> skills_csharp w = Inr [] \<and> skills_dart w = Inr [] \<and> skills_ruby w = Inr [] \<and>
      skills_elixir w = Inr []"
    by (simp add: each_Nil_iff SKILL_PACKAGES_def SKILL_CHECKS_def js_def)
  then show ?thesis
    unfolding npm_Nil_iff pypi_Nil_iff lists_Nil_iff maven_Nil_iff nuget_Nil_iff composer_Nil_iff pub_Nil_iff manifests_ship_def
    by blast
qed

text \<open>
  \<^bold>\<open>C40.\<close> Skills are shipped. The check exits 0 exactly when every \<open>SKILL.md\<close> that \<open>git\<close> lists is one of the ten
  canonical ones; each of the ten has frontmatter with its directory's name and a description, states the
  twelve required phrases outside comments, sets no grace window other than 0 in a sample and drops no
  result of \<open>revokeToken\<close> in a statement the pattern recognises; \<open>skills/\<close> holds no directory; and every
  manifest ships the file.
\<close>

theorem skills_pass_iff: "skills_exit (skills_main w) = 0 \<longleftrightarrow> skills_shipped w"
proof (cases "sw_listed w")
  case (Some out)
  have skills: "(\<forall>pkg \<in> set SKILL_PACKAGES. check_skill w pkg = Inr []) \<longleftrightarrow> list_all (skill_ok w) SKILL_PACKAGES"
    using check_skill_Nil_iff by (auto simp: list_all_iff)
  have "skills_exit (skills_main w) = 0 \<longleftrightarrow> skills_result w out = Inr []"
    using Some by (auto simp: skills_main_def split: sum.splits)
  also have "\<dots> \<longleftrightarrow> skills_shipped w"
    unfolding skills_result_def both_Nil_iff sum.inject layout_Nil_iff each_Nil_iff skills index_Nil_iff
      ecosystems_Nil_iff [unfolded each_Nil_iff] skills_shipped_def
    using Some by auto
  finally show ?thesis .
qed (simp add: skills_main_def skills_shipped_def)

text \<open>
  The test for a dropped result does not see a call through an instance variable of Ruby, although it is a
  bare statement: \<open>@\<close> is not in the class of the callee.
\<close>

lemma instance_variable_unseen:
  "\<not> test revokeCall (js ''@e.revoke_token(t)'')"
  "test revokeCall (js ''e.revoke_token(t)'')"
  by code_simp+

end
