(* ===== verification/Debug_View.thy ===== *)
theory Debug_View
  imports Session_Life
begin

text \<open>
  The debug renderings of \<open>packages/typescript/src/index.ts\<close>. \<open>redact\<close> attaches a rendering to a value that
  carries a secret; what logs an object (\<open>console.log\<close>, \<open>util.inspect\<close>, a serialiser that walks an object
  graph) shows the rendering instead of the properties. A rendering is the list of its properties. The
  results show that no rendering depends on the secret.
\<close>

section \<open>Values with a hook\<close>

datatype debug_prop = DText jsstring | DNumber int | DFlag bool | DCode NebulaErrorCode

type_synonym debug_view = "(jsstring \<times> debug_prop) list"

record 'a redacted =
  rv_value :: 'a
  rv_inspect :: debug_view \<comment> \<open>what the function under the symbol \<open>INSPECT\<close> returns\<close>

definition redact :: "'a \<Rightarrow> debug_view \<Rightarrow> 'a redacted" where
  "redact value render = \<lparr>rv_value = value, rv_inspect = render\<rparr>"

definition REDACTED :: debug_prop where "REDACTED = DText (js ''<redacted>'')"

definition redacted_parsed :: "ParsedToken \<Rightarrow> ParsedToken redacted" where
  "redacted_parsed p = redact p [(js ''kid'', DText (p_kid p)), (js ''selector'', DText (p_selector p)), (js ''verifier'', REDACTED)]"

definition redacted_issue :: "IssueResult \<Rightarrow> IssueResult redacted" where
  "redacted_issue r = redact r [(js ''token'', REDACTED), (js ''userId'', DText (res_userId r)),
     (js ''familyId'', DText (res_familyId r)), (js ''generation'', DNumber 0),
     (js ''expiresAt'', DNumber (res_expiresAt r)), (js ''idleExpiresAt'', DNumber (res_idleExpiresAt r))]"

definition redacted_success :: "IssueResult \<Rightarrow> IssueResult redacted" where
  "redacted_success r = redact r [(js ''ok'', DFlag True), (js ''token'', REDACTED),
     (js ''userId'', DText (res_userId r)), (js ''familyId'', DText (res_familyId r)),
     (js ''generation'', DNumber (res_generation r)), (js ''expiresAt'', DNumber (res_expiresAt r)),
     (js ''idleExpiresAt'', DNumber (res_idleExpiresAt r))]"

text \<open>What is shown of the result of \<open>refresh\<close>: a failure has no hook and shows its properties.\<close>

definition optional_prop :: "string \<Rightarrow> jsstring option \<Rightarrow> debug_view" where
  "optional_prop k v = (case v of None \<Rightarrow> [] | Some s \<Rightarrow> [(js k, DText s)])"

fun inspect_refresh :: "RefreshResult \<Rightarrow> debug_view" where
  "inspect_refresh (RefreshSuccess r) = rv_inspect (redacted_success r)"
| "inspect_refresh (RefreshFailure e u f) =
     [(js ''ok'', DFlag False), (js ''error'', DCode e)] @ optional_prop ''userId'' u @ optional_prop ''familyId'' f"

definition inspect_issue :: "IssueResult \<Rightarrow> debug_view" where
  "inspect_issue r = rv_inspect (redacted_issue r)"

section \<open>The renderings\<close>

text \<open>The values themselves are unchanged, and generation 0 is what \<open>issue\<close> returns.\<close>

lemma redacted_values [simp]:
  "rv_value (redacted_parsed p) = p" "rv_value (redacted_issue r) = r" "rv_value (redacted_success r) = r"
  by (simp_all add: redacted_parsed_def redacted_issue_def redacted_success_def redact_def)

lemma rotation_rendering:
  "clock w' = clock w \<Longrightarrow> inspect_refresh (RefreshSuccess (rotation_result eng r w')) = inspect_refresh (RefreshSuccess (rotation_result eng r w))"
  by (simp add: redacted_success_def redact_def rotation_result_def)

lemma denied_any_entropy:
  assumes "\<nexists>r pepper. authenticates eng (db w) tok r pepper"
  shows "fst (run spec_store (refresh eng tok d) (w\<lparr>entropy := \<rho>\<rparr>)) = fst (run spec_store (refresh eng tok d) w)"
  using assms
  by (auto simp: authenticates_def refresh_def store_simps verifier_check split: option.splits)

text \<open>
  \<^bold>\<open>C16.\<close> A rendering says nothing about the secret. The debug rendering of what \<open>refresh\<close> returns is the same
  whatever the selector and the verifier drawn for the new token, as long as the selector is not in use:
  whoever reads the logs learns nothing of the token that was handed out.
\<close>

theorem refresh_rendering_hides_token:
  assumes "mem_valid (db w)" "rows_wf (map_of (db w))" "unused w" "unused (w\<lparr>entropy := \<rho>\<rparr>)"
  shows "map_outcome id inspect_refresh (fst (run memory_store (refresh eng tok d) (w\<lparr>entropy := \<rho>\<rparr>))) =
    map_outcome id inspect_refresh (fst (run memory_store (refresh eng tok d) w))"
proof -
  let ?w = "w\<lparr>entropy := \<rho>\<rparr>" and ?m = "map_of (db w)"
  have valid: "mem_valid (db ?w)" "rows_wf (map_of (db ?w))" using assms(1,2) by simp_all
  show ?thesis
  proof (cases "\<exists>r pepper. authenticates eng ?m tok r pepper")
    case True
    then obtain r pepper where r: "authenticates eng ?m tok r pepper" by blast
    then have r': "authenticates eng (map_of (db ?w)) tok r pepper" by simp
    show ?thesis
    proof (cases "(current r (clock w) \<or> retryable eng ?m r (clock w)) \<and> bound_to r pepper d")
      case True
      then have "fst (run memory_store (refresh eng tok d) w) = Value (RefreshSuccess (rotation_result eng r w))"
        using memory_refresh_accepted [OF assms(1-3) r] by fastforce
      moreover have "fst (run memory_store (refresh eng tok d) ?w) = Value (RefreshSuccess (rotation_result eng r ?w))"
        using memory_refresh_accepted [OF valid assms(4) r'] True by fastforce
      ultimately show ?thesis using rotation_rendering [of ?w w eng r] by simp
    next
      case False
      then show ?thesis using memory_refresh_refused [OF assms(1) r False] memory_refresh_refused [OF valid(1) r', of d]
        by fastforce
    qed
  next
    case False
    have "memory.abs_world ?w = (memory.abs_world w)\<lparr>entropy := \<rho>\<rparr>" by (simp add: memory.abs_world_def)
    then show ?thesis
      using memory_run(1) [OF assms(1), of "refresh eng tok d"] memory_run(1) [OF valid(1), of "refresh eng tok d"]
        denied_any_entropy [of eng "memory.abs_world w" tok d \<rho>] False
      by simp
  qed
qed

theorem refresh_rendering_hides_token_witness:
  "map_outcome id inspect_refresh (fst (run memory_store (refresh example_engine example_token None) (live_world\<lparr>entropy := (\<lambda>_. 9)\<rparr>))) =
    map_outcome id inspect_refresh (fst (run memory_store (refresh example_engine example_token None) live_world))"
proof -
  have "toBase64url (map (\<lambda>_. 9) [0..<16]) \<noteq> toBase64url (replicate 16 1)" by code_simp
  then have "unused (live_world\<lparr>entropy := (\<lambda>_. 9)\<rparr>)"
    by (simp add: unused_def live_world_def example_row_fields next_selector_def randomBytes_def
        SELECTOR_BYTES_def del: map_replicate_const upt_conv_Cons)
  then show ?thesis by (rule refresh_rendering_hides_token [OF live_world_valid live_world_unused])
qed

text \<open>The same for \<open>issue\<close>, whose rendering shows of the randomness the family only, and for a parsed token.\<close>

lemma issue_rendering_hides_token:
  assumes "mem_valid (db w)" "unused (after_family w)" "unused (after_family (w\<lparr>entropy := \<rho>\<rparr>))"
    and "\<And>i. i < 16 \<Longrightarrow> \<rho> i = entropy w i"
  shows "map_outcome id inspect_issue (fst (run memory_store (issue eng user d) (w\<lparr>entropy := \<rho>\<rparr>))) =
    map_outcome id inspect_issue (fst (run memory_store (issue eng user d) w))"
proof -
  let ?w = "w\<lparr>entropy := \<rho>\<rparr>"
  have valid: "mem_valid (db ?w)" using assms(1) by simp
  have "map (entropy ?w) [0..<16] = map (entropy w) [0..<16]" using assms(4) by (intro map_cong) auto
  then have "new_family ?w = new_family w" unfolding new_family_def randomBytes_def by (simp only: fst_conv)
  then have "inspect_issue (issue_result eng user ?w) = inspect_issue (issue_result eng user w)"
    by (simp add: inspect_issue_def redacted_issue_def redact_def issue_result_def)
  then show ?thesis
    using issue_effect [OF assms(1,2), of eng user d] issue_effect [OF valid assms(3), of eng user d] by fastforce
qed

lemma parse_rendering_hides_verifier:
  assumes "valid_kid k" "valid_selector s" "length v = VERIFIER_BYTES" "length v' = VERIFIER_BYTES"
  shows "map_option (rv_inspect \<circ> redacted_parsed) (parseToken (JString (format_token k s v))) =
    map_option (rv_inspect \<circ> redacted_parsed) (parseToken (JString (format_token k s v')))"
  by (simp add: parseToken_format assms redacted_parsed_def redact_def)

end
