(* ===== verification/Spec2Isabelle.thy ===== *)
theory Spec2Isabelle
  imports Concurrency Session_Life Replies Postgres_Table Docker_Check Runtime_Check
    Version_Check Actions_Pinned Vectors_Check Check_Examples Agents_Check Links_Check
    Licenses_Check Market_Check Skills_Check Debug_View
begin

text \<open>
  Verification of NEBULA, opaque rotating refresh tokens: the TypeScript package (\<open>packages/typescript\<close>)
  and the Node scripts that keep the repository consistent (\<open>scripts/*.mjs\<close>).

  \<^bold>\<open>The program.\<close> A client holds a token \<open>nbl.{kid}.{selector}.{verifier}\<close>. The engine (\<open>src/index.ts\<close>)
  issues tokens, exchanges a token for its successor (\<open>refresh\<close>), ends sessions (\<open>revokeToken\<close>,
  \<open>revokeFamily\<close>, \<open>revokeAllForUser\<close>) and keeps one record per selector in a store that it reaches through
  six asynchronous methods. A record holds a keyed hash of the verifier, never the verifier. Two stores
  are in the repository: in memory, and over Postgres as an example. Presenting a superseded token is a
  sign of theft and revokes the whole family, unless a grace window is configured. The scripts check the
  documents, manifests, vectors and workflows around ten implementations; each reads files, collects
  problems and sets the exit status.

  \<^bold>\<open>Theories and sources.\<close>
  \<^item> \<open>Prelude\<close>, \<open>Encoding\<close>, \<open>Regex\<close>, \<open>Js_Lib\<close>, \<open>Json\<close>, \<open>Sha256\<close>: what the sources use of JavaScript and Node.
    A string is a list of 16-bit code units, a buffer a list of octets, a regular expression a datatype with
    the backtracking matcher of ECMA-262, \<open>JSON.parse\<close> a recursive parser, HMAC-SHA-256 the algorithm on
    32-bit words. \<open>Json\<close> also has the sequencing of computations that may throw or push problems.
  \<^item> \<open>Wire_Token\<close>: constants, \<open>parseToken\<close>, \<open>hashVerifier\<close>, \<open>hashDeviceId\<close>, \<open>constantTimeEqualHex\<close>.
  \<^item> \<open>Store\<close>: \<open>TokenRecord\<close>, the storage contract (\<open>RefreshTokenStore\<close>) as the locale \<open>token_store\<close>, and
    programs: trees of store calls, clock readings and random draws with a continuation for each answer,
    so that every \<open>await\<close> of the source is a point where another request may run.
  \<^item> \<open>Engine\<close>: \<open>NebulaEngine\<close>, its constructor and every public and private method as such programs.
  \<^item> \<open>Debug_View\<close>: \<open>redact\<close> and the debug renderings attached to the three values that carry a secret.
  \<^item> \<open>Memory_Store\<close>, \<open>Postgres_Store\<close>, \<open>Postgres_Table\<close>: the two stores. The database client is a parameter with
    the documented laws of four statement shapes (locale \<open>sql_client\<close>); a small table engine satisfies them.
  \<^item> \<open>Interleaving\<close>, \<open>Discipline\<close>, \<open>Server\<close>, \<open>Concurrency\<close>, \<open>Replies\<close>: requests of several engines on one store,
    advancing one effect at a time in any order (an inductive step relation), and the rely/guarantee
    discipline from which the invariants of every interleaving follow.
  \<^item> \<open>Engine_Behaviour\<close>, \<open>Engine_Theorems\<close>, \<open>Sessions\<close>, \<open>Session_Life\<close>: what the operations do when they run
    without interference, and how sessions begin, live and end.
  \<^item> \<open>Dotted_Version\<close>, \<open>Digest_Pin\<close>, \<open>Generated_Block\<close>: parts that several scripts share, two of them with a locale
    (\<open>version_order\<close>, \<open>generated_block\<close>) that each client's definitions interpret.
  \<^item> One model and one theory of results per script: \<open>Docker_Test\<close> and \<open>Docker_Check\<close> (\<open>docker-test.mjs\<close>),
    \<open>Runtime_Matrix\<close> and \<open>Runtime_Check\<close> (\<open>check-runtime-matrix.mjs\<close>), \<open>Version_Script\<close> and \<open>Version_Check\<close>
    (\<open>version.mjs\<close>), \<open>Traceability\<close> (\<open>build-traceability.mjs\<close>), \<open>Vector_Schemas\<close>, \<open>Validate_Vectors\<close> and
    \<open>Vectors_Check\<close> (\<open>validate-vectors.mjs\<close>), \<open>Actions_Pinned\<close> (\<open>check-actions-pinned.mjs\<close>), \<open>Check_Examples\<close>
    (\<open>check-examples.mjs\<close>), \<open>Agents_Md\<close> and \<open>Agents_Check\<close> (\<open>check-agents-md.mjs\<close>), \<open>Check_Links\<close> and
    \<open>Links_Check\<close> (\<open>check-links.mjs\<close>), \<open>Check_Licenses\<close> and \<open>Licenses_Check\<close> (\<open>check-licenses.mjs\<close>),
    \<open>Check_Marketplace\<close> and \<open>Market_Check\<close> (\<open>check-marketplace.mjs\<close>), \<open>Check_Skills\<close> and \<open>Skills_Check\<close>
    (\<open>check-skills.mjs\<close>).
  Definitions keep the names of the source; a name that clashes gets a prefix (\<open>mem_insert\<close>, \<open>pg_insert\<close>).

  \<^bold>\<open>What the lemmas show.\<close>
  \<^item> Wire format: the parser accepts exactly the canonical tokens and printing inverts it.
  \<^item> One request: which tokens \<open>refresh\<close> accepts, what it changes on every outcome, that it always returns,
    that an unauthenticated token changes nothing, what \<open>issue\<close> and \<open>revokeToken\<close> do, the bounds of a token;
    and what a debug rendering says, which does not depend on the secret.
  \<^item> Stores: both implement the contract, so the results on the abstract store hold for them; deleting
    expired rows never changes what \<open>refresh\<close> accepts.
  \<^item> Every interleaving: no token has two live successors, at most one refresh of a token wins, rows only move
    forward, revocation is final, a replay revokes the family, replies agree with the store.
  \<^item> Sessions: one that keeps being refreshed survives pepper rotations up to its absolute deadline.
  \<^item> Scripts: for each, the verdict. The script exits 0 exactly when an independently stated property of its
    inputs holds (\<open>one_licence\<close>, \<open>marketplace_coherent\<close>, \<open>skills_shipped\<close>, \<open>describes_repository\<close>, ...);
    for those that write, what a write changes, and that the check passes after it.

  \<^bold>\<open>Bounds and fuel.\<close> The repetition of a pattern is bounded by the length of the input that is left; every
  iteration consumes a unit, so the bound is never reached (\<open>rmatch_RStar\<close>). The JSON parser and \<open>matchAll\<close> are
  bounded by the length of the text for the same reason. All other loops are structural recursions, or have
  a measure (\<open>decodeURIComponent\<close>, \<open>sha_blocks\<close>). Times and counters are mathematical integers and the numbers of the scripts rationals: the
  source's doubles agree with them below \<open>2 ^ 53\<close>. The SHA-256 words wrap around at 32 bits.

  \<^bold>\<open>Assumptions on the surroundings.\<close> The clock does not throw; random bytes come from a stream that is part
  of the state, and collisions of selectors are a case of the model (the store rejects the second insert).
  Files, directory listings, process results and the answers of \<open>git\<close> and \<open>docker\<close> are arguments. Paths are
  POSIX paths without symbolic links. Values parsed from the vector files and the runtime matrix are typed as
  their schemas have them, except in \<open>Vector_Schemas\<close>, where they are JSON.

  \<^bold>\<open>Not modelled.\<close> The text of console messages (a problem is a value with the data its message names); the
  schema validator \<open>ajv\<close>, a third-party package, which is a parameter of \<open>Vector_Schemas\<close>; the timing of the hash
  comparison; the property descriptor by which \<open>redact\<close> hides its hook from enumeration; the TypeScript
  tests and the nine implementations in other languages, which are not JavaScript of the program;
  documents, workflows and container files, which are inputs of the scripts.
\<close>

end
